(* ===== verification/Prelude.thy ===== *)
theory Prelude
  imports Main "HOL-Library.AList" "HOL-Library.Multiset"
begin

text \<open>
  Shared vocabulary of the development: Go panics and error results, the association-list model
  of Go maps and of \<open>sync.Map\<close> with the interface its clients rely on, and the generic list lemmas
  the components share.

  A Go function that can panic returns a value of type \<open>'a go\<close> (\<open>Inl\<close> the panic); a Go function
  that returns a value and an \<open>error\<close> returns a value of type \<open>'a res\<close> (\<open>Inl\<close> the error
  message).  Go's 64-bit \<open>int\<close> is modelled as \<open>int\<close>.
\<close>

named_theorems go_simps \<open>unfolding rules of the operations modelled from the code\<close>
named_theorems inv_intros \<open>preservation lemmas of the component invariants\<close>

section \<open>Panics and errors\<close>

datatype panic =
    PanicIndex
  | PanicDivide
  | PanicNil
  | PanicMsg string

type_synonym error = string

type_synonym 'a go = "panic + 'a"

type_synonym 'a res = "error + 'a"

text \<open>Sequencing: the first \<open>Inl\<close> (panic or error) ends the computation.\<close>

definition then_do :: "'e + 'a \<Rightarrow> ('a \<Rightarrow> 'e + 'b) \<Rightarrow> 'e + 'b" where
  "then_do r f = (case r of Inl e \<Rightarrow> Inl e | Inr x \<Rightarrow> f x)"

lemma then_do_simps [simp]:
  "then_do (Inl e) f = Inl e"
  "then_do (Inr x) f = f x"
  by (simp_all add: then_do_def)

lemma then_do_Inr_iff: "then_do r f = Inr y \<longleftrightarrow> (\<exists>x. r = Inr x \<and> f x = Inr y)"
  by (cases r) simp_all

section \<open>Go maps\<close>

text \<open>
  A Go map (and a \<open>sync.Map\<close>) is an association list without duplicate keys.  The position of an
  entry carries no meaning: wherever the code ranges over a map, the model takes the iteration
  order as an argument.
\<close>

type_synonym ('k, 'v) gomap = "('k \<times> 'v) list"

definition m_load :: "('k, 'v) gomap \<Rightarrow> 'k \<Rightarrow> 'v option" where
  "m_load m k = map_of m k"

definition m_store :: "'k \<Rightarrow> 'v \<Rightarrow> ('k, 'v) gomap \<Rightarrow> ('k, 'v) gomap" where
  "m_store k v m = AList.update k v m"

definition m_delete :: "'k \<Rightarrow> ('k, 'v) gomap \<Rightarrow> ('k, 'v) gomap" where
  "m_delete k m = AList.delete k m"

definition m_keys :: "('k, 'v) gomap \<Rightarrow> 'k list" where
  "m_keys m = map fst m"

definition m_wf :: "('k, 'v) gomap \<Rightarrow> bool" where
  "m_wf m \<longleftrightarrow> distinct (m_keys m)"

text \<open>The interface a client of a Go map relies on.\<close>

locale go_map =
  fixes empty :: "'m"
    and load :: "'m \<Rightarrow> 'k \<Rightarrow> 'v option"
    and store :: "'k \<Rightarrow> 'v \<Rightarrow> 'm \<Rightarrow> 'm"
    and remove :: "'k \<Rightarrow> 'm \<Rightarrow> 'm"
    and keys :: "'m \<Rightarrow> 'k list"
    and wf :: "'m \<Rightarrow> bool"
  assumes load_empty: "load empty k = None"
    and load_store: "load (store k v m) k' = (if k' = k then Some v else load m k')"
    and load_remove: "load (remove k m) k' = (if k' = k then None else load m k')"
    and keys_load: "k \<in> set (keys m) \<longleftrightarrow> load m k \<noteq> None"
    and wf_empty: "wf empty"
    and wf_store: "wf m \<Longrightarrow> wf (store k v m)"
    and wf_remove: "wf m \<Longrightarrow> wf (remove k m)"
    and wf_distinct: "wf m \<Longrightarrow> distinct (keys m)"
begin

lemma set_keys_store: "set (keys (store k v m)) = insert k (set (keys m))"
  by (rule set_eqI) (simp add: keys_load load_store)

lemma set_keys_remove: "set (keys (remove k m)) = set (keys m) - {k}"
  by (rule set_eqI) (simp add: keys_load load_remove)

lemma length_keys_eq_card: "wf m \<Longrightarrow> length (keys m) = card (set (keys m))"
  by (simp add: wf_distinct distinct_card)

lemma length_keys_store_new:
  "wf m \<Longrightarrow> load m k = None \<Longrightarrow> length (keys (store k v m)) = Suc (length (keys m))"
  by (simp add: length_keys_eq_card wf_store set_keys_store keys_load)

lemma length_keys_store_old:
  "wf m \<Longrightarrow> load m k \<noteq> None \<Longrightarrow> length (keys (store k v m)) = length (keys m)"
  by (simp add: length_keys_eq_card wf_store set_keys_store keys_load insert_absorb)

lemma length_keys_remove:
  "wf m \<Longrightarrow> load m k \<noteq> None \<Longrightarrow> Suc (length (keys (remove k m))) = length (keys m)"
  using card_Suc_Diff1 [of "set (keys m)" k]
  by (simp add: length_keys_eq_card wf_remove set_keys_remove keys_load)

end

interpretation gm: go_map "[]" m_load m_store m_delete m_keys m_wf
proof unfold_locales
  fix k :: 'a and m :: "('a, 'b) gomap"
  show "k \<in> set (m_keys m) \<longleftrightarrow> m_load m k \<noteq> None"
    by (simp add: m_keys_def m_load_def map_of_eq_None_iff)
qed (auto simp: m_load_def m_store_def m_delete_def m_wf_def m_keys_def update_conv' delete_conv'
      distinct_update distinct_delete)

lemmas m_load_simps [simp] = gm.load_empty gm.load_store gm.load_remove
lemmas m_wf_intros [inv_intros, simp] = gm.wf_empty gm.wf_store gm.wf_remove

lemma m_load_Some_in: "m_load m k = Some v \<Longrightarrow> (k, v) \<in> set m"
  by (simp add: m_load_def map_of_SomeD)

lemma m_load_wf_iff: "m_wf m \<Longrightarrow> (k, v) \<in> set m \<longleftrightarrow> m_load m k = Some v"
  by (simp add: m_load_def m_wf_def m_keys_def)

lemma m_delete_filter: "m_delete k m = filter (\<lambda>e. fst e \<noteq> k) m"
  by (induction m) (auto simp: m_delete_def)

section \<open>Lists\<close>

text \<open>Go slices \<open>xs[a:b]\<close>: out of range is a panic.\<close>

definition slice :: "'a list \<Rightarrow> int \<Rightarrow> int \<Rightarrow> 'a list go" where
  "slice xs a b =
     (if 0 \<le> a \<and> a \<le> b \<and> b \<le> int (length xs)
      then Inr (drop (nat a) (take (nat b) xs)) else Inl PanicIndex)"

definition index_at :: "'a list \<Rightarrow> int \<Rightarrow> 'a go" where
  "index_at xs i = (if 0 \<le> i \<and> i < int (length xs) then Inr (xs ! nat i) else Inl PanicIndex)"

lemma slice_full [simp]: "slice xs 0 (int (length xs)) = Inr xs"
  by (simp add: slice_def)

lemma slice_nat: "a \<le> b \<Longrightarrow> b \<le> length xs \<Longrightarrow> slice xs (int a) (int b) = Inr (drop a (take b xs))"
  by (simp add: slice_def)

lemma index_at_Inr_iff: "index_at xs i = Inr x \<longleftrightarrow> 0 \<le> i \<and> i < int (length xs) \<and> xs ! nat i = x"
  by (auto simp: index_at_def)

lemma distinct_map_mset_eq:
  "mset xs = mset ys \<Longrightarrow> distinct (map f xs) \<longleftrightarrow> distinct (map f ys)"
  by (metis mset_eq_imp_distinct_iff mset_map)

lemma append_sep_inject:
  assumes "c \<notin> set a" and "c \<notin> set b" and "a @ c # x = b @ c # y"
  shows "a = b \<and> x = y"
  using assms
proof (induction a arbitrary: b)
  case Nil
  then show ?case by (cases b) auto
next
  case (Cons d a)
  then show ?case by (cases b) auto
qed

lemma append_sep_inject_last:
  assumes "c \<notin> set x" and "c \<notin> set y" and "a @ c # x = b @ c # y"
  shows "a = b \<and> x = y"
proof -
  have "rev x @ c # rev a = rev y @ c # rev b"
    using assms(3) by (metis append.assoc append_Cons append_Nil rev.simps(2) rev_append)
  with assms(1,2) append_sep_inject [of c "rev x" "rev y" "rev a" "rev b"] show ?thesis by simp
qed

lemma take_drop_Suc_nth:
  "i < length xs \<Longrightarrow> take i xs @ xs ! i # drop (Suc i) xs = xs"
  by (simp add: id_take_nth_drop [symmetric])

end
