(* ===== verification/GoStrings.thy ===== *)
theory GoStrings
  imports Prelude
begin

text \<open>
  The functions of Go's \<open>strings\<close>, \<open>strconv\<close> and \<open>bufio\<close> packages that the engine calls, on byte
  strings (\<open>string\<close>, one \<open>char\<close> per byte), with the laws the components use: splitting and
  joining, prefixes, decimal numbers, line scanning.  White space is the ASCII white space of
  \<open>unicode.IsSpace\<close>; separators are non-empty at every call of the code.
\<close>

section \<open>Prefixes and searching\<close>

fun HasPrefix :: "string \<Rightarrow> string \<Rightarrow> bool" where
  "HasPrefix s [] = True"
| "HasPrefix [] (p # ps) = False"
| "HasPrefix (c # s) (p # ps) = (c = p \<and> HasPrefix s ps)"

definition HasSuffix :: "string \<Rightarrow> string \<Rightarrow> bool" where
  "HasSuffix s p = HasPrefix (rev s) (rev p)"

definition TrimPrefix :: "string \<Rightarrow> string \<Rightarrow> string" where
  "TrimPrefix s p = (if HasPrefix s p then drop (length p) s else s)"

definition TrimSuffix :: "string \<Rightarrow> string \<Rightarrow> string" where
  "TrimSuffix s p = (if HasSuffix s p then take (length s - length p) s else s)"

fun str_index :: "string \<Rightarrow> string \<Rightarrow> nat option" where
  "str_index [] p = (if p = [] then Some 0 else None)"
| "str_index (c # s) p = (if HasPrefix (c # s) p then Some 0 else map_option Suc (str_index s p))"

definition Index :: "string \<Rightarrow> string \<Rightarrow> int" where
  "Index s p = (case str_index s p of None \<Rightarrow> -1 | Some n \<Rightarrow> int n)"

definition Contains :: "string \<Rightarrow> string \<Rightarrow> bool" where
  "Contains s p \<longleftrightarrow> str_index s p \<noteq> None"

definition LastIndex :: "string \<Rightarrow> string \<Rightarrow> int" where
  "LastIndex s p = (case str_index (rev s) (rev p) of None \<Rightarrow> -1
     | Some n \<Rightarrow> int (length s) - int (length p) - int n)"

lemma HasPrefix_iff: "HasPrefix s p \<longleftrightarrow> (\<exists>t. s = p @ t)"
  by (induction s p rule: HasPrefix.induct) auto

lemma HasPrefix_append [simp]: "HasPrefix (p @ t) p"
  by (auto simp: HasPrefix_iff)

lemma HasPrefix_self [simp]: "HasPrefix p p"
  by (auto simp: HasPrefix_iff)

lemma HasSuffix_iff: "HasSuffix s p \<longleftrightarrow> (\<exists>t. s = t @ p)"
  unfolding HasSuffix_def HasPrefix_iff by (metis rev_append rev_rev_ident)

lemma TrimPrefix_append [simp]: "TrimPrefix (p @ t) p = t"
  by (simp add: TrimPrefix_def)

lemma TrimPrefix_id: "\<not> HasPrefix s p \<Longrightarrow> TrimPrefix s p = s"
  by (simp add: TrimPrefix_def)

lemma TrimSuffix_append [simp]: "TrimSuffix (t @ p) p = t"
  by (auto simp: TrimSuffix_def HasSuffix_iff)

lemma str_index_Some: "str_index s p = Some n \<Longrightarrow> \<exists>a b. s = a @ p @ b \<and> length a = n"
proof (induction s arbitrary: n)
  case Nil
  then show ?case by (auto split: if_splits)
next
  case (Cons c s)
  show ?case
  proof (cases "HasPrefix (c # s) p")
    case True
    then obtain t where t: "c # s = [] @ p @ t" by (auto simp: HasPrefix_iff)
    have "n = 0" using Cons.prems True by simp
    with t show ?thesis by blast
  next
    case False
    with Cons.prems obtain m where m: "str_index s p = Some m" "n = Suc m" by auto
    then obtain a b where "s = a @ p @ b" "length a = m" using Cons.IH by blast
    then have "c # s = (c # a) @ p @ b \<and> length (c # a) = n" using m by simp
    then show ?thesis by blast
  qed
qed

lemma str_index_None: "str_index s p = None \<Longrightarrow> s \<noteq> a @ p @ b"
proof (induction s arbitrary: a)
  case Nil
  then show ?case by (auto split: if_splits)
next
  case (Cons c s)
  then have no: "\<not> HasPrefix (c # s) p" and n: "str_index s p = None"
    by (auto split: if_splits)
  show ?case
  proof (cases a)
    case Nil
    with no show ?thesis by (metis HasPrefix_append append_Nil)
  next
    case (Cons d a')
    then show ?thesis using Cons.IH [OF n, of a'] by auto
  qed
qed

lemma Contains_iff: "Contains s p \<longleftrightarrow> (\<exists>a b. s = a @ p @ b)"
proof
  assume "Contains s p"
  then show "\<exists>a b. s = a @ p @ b"
    unfolding Contains_def using str_index_Some by (metis not_None_eq)
next
  assume "\<exists>a b. s = a @ p @ b"
  then show "Contains s p"
    unfolding Contains_def using str_index_None by blast
qed

lemma Index_ge_0_iff: "0 \<le> Index s p \<longleftrightarrow> Contains s p"
  by (auto simp: Index_def Contains_def split: option.splits)

lemma Contains_single [simp]: "Contains s [c] \<longleftrightarrow> c \<in> set s"
  by (simp add: Contains_iff in_set_conv_decomp)

lemma HasPrefix_imp_Contains: "HasPrefix s p \<Longrightarrow> Contains s p"
  unfolding HasPrefix_iff Contains_iff by (metis append_Nil)

section \<open>Splitting and joining\<close>

text \<open>\<open>strings.Split\<close> for a non-empty separator: scan left to right, cutting at each match.\<close>

function (sequential) split_scan :: "string \<Rightarrow> string \<Rightarrow> string \<Rightarrow> string list" where
  "split_scan sep cur [] = [cur]"
| "split_scan sep cur (c # s) =
     (if sep \<noteq> [] \<and> HasPrefix (c # s) sep
      then cur # split_scan sep [] (drop (length sep - 1) s)
      else split_scan sep (cur @ [c]) s)"
  by pat_completeness auto
termination
  by (relation "measure (\<lambda>(sep, cur, s). length s)") auto

definition Split :: "string \<Rightarrow> string \<Rightarrow> string list" where
  "Split s sep = split_scan sep [] s"

fun Join :: "string list \<Rightarrow> string \<Rightarrow> string" where
  "Join [] sep = []"
| "Join [x] sep = x"
| "Join (x # y # xs) sep = x @ sep @ Join (y # xs) sep"

text \<open>\<open>strings.ReplaceAll\<close> for a non-empty \<open>old\<close>, and \<open>strings.Replace\<close> with \<open>n = 1\<close>.\<close>

definition ReplaceAll :: "string \<Rightarrow> string \<Rightarrow> string \<Rightarrow> string" where
  "ReplaceAll s old new = Join (Split s old) new"

definition ReplaceOne :: "string \<Rightarrow> string \<Rightarrow> string \<Rightarrow> string" where
  "ReplaceOne s old new = (case str_index s old of None \<Rightarrow> s
     | Some n \<Rightarrow> take n s @ new @ drop (n + length old) s)"

lemma split_scan_nonempty [simp]: "split_scan sep cur s \<noteq> []"
  by (induction sep cur s rule: split_scan.induct) auto

lemma Split_nonempty [simp]: "Split s sep \<noteq> []"
  by (simp add: Split_def)

lemma Join_Cons: "xs \<noteq> [] \<Longrightarrow> Join (x # xs) sep = x @ sep @ Join xs sep"
  by (cases xs) auto

lemma Join_split_scan: "Join (split_scan sep cur s) sep = cur @ s"
proof (induction sep cur s rule: split_scan.induct)
  case (1 sep cur)
  then show ?case by simp
next
  case (2 sep cur c s)
  show ?case
  proof (cases "sep \<noteq> [] \<and> HasPrefix (c # s) sep")
    case True
    then obtain t where t: "c # s = sep @ t" and "sep \<noteq> []" by (auto simp: HasPrefix_iff)
    then have "drop (length sep - 1) s = t" by (cases sep) auto
    with "2.IH"(1) [OF True] True show ?thesis by (simp add: Join_Cons t [symmetric])
  next
    case False
    then have "split_scan sep cur (c # s) = split_scan sep (cur @ [c]) s" by auto
    with "2.IH"(2) [OF False] show ?thesis by simp
  qed
qed

lemma Join_Split [simp]: "Join (Split s sep) sep = s"
  by (simp add: Split_def Join_split_scan)

lemma split_scan_single_free:
  "c \<notin> set s \<Longrightarrow> split_scan [c] cur (s @ c # t) = (cur @ s) # split_scan [c] [] t"
  by (induction s arbitrary: cur) auto

lemma split_scan_single_none: "c \<notin> set s \<Longrightarrow> split_scan [c] cur s = [cur @ s]"
  by (induction s arbitrary: cur) auto

lemma Split_single_Cons [simp]: "c \<notin> set s \<Longrightarrow> Split (s @ c # t) [c] = s # Split t [c]"
  by (simp add: Split_def split_scan_single_free)

lemma Split_single_none [simp]: "c \<notin> set s \<Longrightarrow> Split s [c] = [s]"
  by (simp add: Split_def split_scan_single_none)

lemma length_split_scan: "length (split_scan [c] cur s) = Suc (count_list s c)"
  by (induction "[c]" cur s rule: split_scan.induct) auto

lemma length_Split: "length (Split s [c]) = Suc (count_list s c)"
  by (simp add: Split_def length_split_scan)

lemma Split_single_parts_free: "x \<in> set (Split s [c]) \<Longrightarrow> c \<notin> set x"
proof -
  have gen: "c \<notin> set cur \<Longrightarrow> x \<in> set (split_scan [c] cur s) \<Longrightarrow> c \<notin> set x" for cur
    by (induction "[c]" cur s rule: split_scan.induct) (auto split: if_splits)
  show "x \<in> set (Split s [c]) \<Longrightarrow> c \<notin> set x" using gen [of "[]"] by (simp add: Split_def)
qed

lemma Split_Join_single:
  "xs \<noteq> [] \<Longrightarrow> (\<And>x. x \<in> set xs \<Longrightarrow> c \<notin> set x) \<Longrightarrow> Split (Join xs [c]) [c] = xs"
  by (induction xs "[c]" rule: Join.induct) auto

section \<open>Trimming and fields\<close>

definition is_space :: "char \<Rightarrow> bool" where
  "is_space c \<longleftrightarrow> of_char c \<in> {9, 10, 11, 12, 13, 32 :: nat}"

definition TrimLeft :: "string \<Rightarrow> string \<Rightarrow> string" where
  "TrimLeft s cutset = dropWhile (\<lambda>c. c \<in> set cutset) s"

definition TrimRight :: "string \<Rightarrow> string \<Rightarrow> string" where
  "TrimRight s cutset = rev (dropWhile (\<lambda>c. c \<in> set cutset) (rev s))"

definition TrimSpace :: "string \<Rightarrow> string" where
  "TrimSpace s = rev (dropWhile is_space (rev (dropWhile is_space s)))"

fun fields_scan :: "string \<Rightarrow> string \<Rightarrow> string list" where
  "fields_scan cur [] = (if cur = [] then [] else [cur])"
| "fields_scan cur (c # s) =
     (if is_space c then (if cur = [] then fields_scan [] s else cur # fields_scan [] s)
      else fields_scan (cur @ [c]) s)"

definition Fields :: "string \<Rightarrow> string list" where
  "Fields s = fields_scan [] s"

lemma dropWhile_none: "(\<And>x. x \<in> set xs \<Longrightarrow> \<not> P x) \<Longrightarrow> dropWhile P xs = xs"
  by (cases xs) auto

lemma TrimSpace_id: "(\<And>c. c \<in> set s \<Longrightarrow> \<not> is_space c) \<Longrightarrow> TrimSpace s = s"
  using dropWhile_none [of s is_space] dropWhile_none [of "rev s" is_space]
  by (simp add: TrimSpace_def)

lemma TrimRight_none: "(\<And>c. c \<in> set s \<Longrightarrow> c \<notin> set cs) \<Longrightarrow> TrimRight s cs = s"
  using dropWhile_none [of "rev s" "\<lambda>c. c \<in> set cs"] by (simp add: TrimRight_def)

lemma TrimRight_single_append: "c \<notin> set s \<Longrightarrow> TrimRight (s @ [c]) [c] = s"
  using TrimRight_none [of s "[c]"] by (auto simp: TrimRight_def)

section \<open>Decimal numbers\<close>

definition digit_char :: "nat \<Rightarrow> char" where
  "digit_char d = char_of (48 + d)"

definition digit_val :: "char \<Rightarrow> nat option" where
  "digit_val c = (let n = of_char c in if 48 \<le> n \<and> n \<le> 57 then Some (n - 48) else None)"

fun nat_digits :: "nat \<Rightarrow> string" where
  "nat_digits n = (if n < 10 then [digit_char n]
     else nat_digits (n div 10) @ [digit_char (n mod 10)])"

declare nat_digits.simps [simp del]

definition Itoa :: "int \<Rightarrow> string" where
  "Itoa i = (if i < 0 then CHR ''-'' # nat_digits (nat (- i)) else nat_digits (nat i))"

fun digits_val :: "nat \<Rightarrow> string \<Rightarrow> nat option" where
  "digits_val acc [] = Some acc"
| "digits_val acc (c # s) =
     (case digit_val c of None \<Rightarrow> None | Some d \<Rightarrow> digits_val (10 * acc + d) s)"

definition in_int64 :: "int \<Rightarrow> bool" where
  "in_int64 v \<longleftrightarrow> - (2 ^ 63) \<le> v \<and> v < 2 ^ 63"

definition Atoi :: "string \<Rightarrow> int res" where
  "Atoi s =
     (let neg = HasPrefix s ''-'';
          ds = (if neg \<or> HasPrefix s ''+'' then drop 1 s else s)
      in if ds = [] then Inl ''strconv.Atoi: invalid syntax''
         else case digits_val 0 ds of
           None \<Rightarrow> Inl ''strconv.Atoi: invalid syntax''
         | Some n \<Rightarrow> (let v = (if neg then - int n else int n)
             in if in_int64 v then Inr v else Inl ''strconv.Atoi: value out of range''))"

lemma digit_val_char [simp]: "d < 10 \<Longrightarrow> digit_val (digit_char d) = Some d"
  by (simp add: digit_val_def digit_char_def of_char_of)

lemma digits_val_append:
  "digits_val acc (s @ t) = (case digits_val acc s of None \<Rightarrow> None | Some n \<Rightarrow> digits_val n t)"
  by (induction acc s rule: digits_val.induct) (auto split: option.splits)

lemma digits_val_nat_digits: "digits_val 0 (nat_digits n) = Some n"
proof (induction n rule: nat_digits.induct)
  case (1 n)
  show ?case
  proof (cases "n < 10")
    case True
    then show ?thesis by (simp add: nat_digits.simps [of n])
  next
    case False
    with 1 have "digits_val 0 (nat_digits (n div 10)) = Some (n div 10)" by simp
    with False show ?thesis by (simp add: nat_digits.simps [of n] digits_val_append)
  qed
qed

lemma nat_digits_nonempty [simp]: "nat_digits n \<noteq> []"
  by (subst nat_digits.simps) simp

lemma digits_val_imp_digits: "digits_val a s \<noteq> None \<Longrightarrow> c \<in> set s \<Longrightarrow> digit_val c \<noteq> None"
  by (induction a s rule: digits_val.induct) (auto split: option.splits)

lemma nat_digits_chars: "c \<in> set (nat_digits n) \<Longrightarrow> digit_val c \<noteq> None"
  using digits_val_imp_digits [of 0 "nat_digits n" c] by (simp add: digits_val_nat_digits)

lemma Itoa_chars: "c \<in> set (Itoa i) \<Longrightarrow> digit_val c \<noteq> None \<or> c = CHR ''-''"
  using nat_digits_chars by (auto simp: Itoa_def split: if_splits)

text \<open>Punctuation the engine uses as separators never occurs in a printed number.\<close>

lemma Itoa_free [simp]:
  "CHR ''('' \<notin> set (Itoa i)" "CHR '')'' \<notin> set (Itoa i)" "CHR ''/'' \<notin> set (Itoa i)"
  "CHR ''.'' \<notin> set (Itoa i)" "CHR ''@'' \<notin> set (Itoa i)" "CHR '','' \<notin> set (Itoa i)"
  by (auto dest!: Itoa_chars simp: digit_val_def)

lemma Itoa_nonempty [simp]: "Itoa i \<noteq> []"
  by (simp add: Itoa_def)

lemma nat_digits_no_sign:
  "\<not> HasPrefix (nat_digits n) ''-''" "\<not> HasPrefix (nat_digits n) ''+''"
  using nat_digits_chars [of "hd (nat_digits n)" n]
  by (cases "nat_digits n"; auto simp: digit_val_def)+

lemma Atoi_Itoa [simp]: "in_int64 i \<Longrightarrow> Atoi (Itoa i) = Inr i"
  by (auto simp: Atoi_def Itoa_def Let_def digits_val_nat_digits nat_digits_no_sign)

lemma nat_digits_inject: "nat_digits m = nat_digits n \<Longrightarrow> m = n"
  by (metis digits_val_nat_digits option.inject)

lemma Itoa_inject [simp]: "Itoa i = Itoa j \<longleftrightarrow> i = j"
proof
  assume eq: "Itoa i = Itoa j"
  have "HasPrefix (Itoa i) ''-'' \<longleftrightarrow> i < 0" for i
    by (simp add: Itoa_def nat_digits_no_sign)
  with eq have "i < 0 \<longleftrightarrow> j < 0" by metis
  with eq show "i = j"
    by (auto simp: Itoa_def split: if_splits dest!: nat_digits_inject)
qed simp

section \<open>Line scanning\<close>

text \<open>
  \<open>bufio.ScanLines\<close> through a \<open>bufio.Scanner\<close> with its default 64 KiB buffer: the newline and
  one carriage return before it are dropped, a final empty line is not reported, and the scan
  stops silently at a line that does not fit.
\<close>

definition max_token :: nat where
  "max_token = 65536"

definition drop_cr :: "string \<Rightarrow> string" where
  "drop_cr s = (if s \<noteq> [] \<and> last s = CHR 0x0D then butlast s else s)"

fun scan_upto_limit :: "string list \<Rightarrow> string list" where
  "scan_upto_limit [] = []"
| "scan_upto_limit [l] = (if l = [] \<or> max_token \<le> length l then [] else [drop_cr l])"
| "scan_upto_limit (l # m # ls) =
     (if max_token \<le> length l then [] else drop_cr l # scan_upto_limit (m # ls))"

definition nl :: string where
  "nl = [CHR 0x0A]"

definition scan_lines :: "string \<Rightarrow> string list" where
  "scan_lines s = scan_upto_limit (Split s nl)"

text \<open>A text line: no line break inside, short enough for the scanner, no trailing return.\<close>

definition plain_line :: "string \<Rightarrow> bool" where
  "plain_line l \<longleftrightarrow> CHR 0x0A \<notin> set l \<and> CHR 0x0D \<notin> set l \<and> length l < max_token"

lemma drop_cr_plain [simp]: "plain_line l \<Longrightarrow> drop_cr l = l"
  by (cases "l = []") (auto simp: drop_cr_def plain_line_def dest: last_in_set)

lemma scan_lines_Cons:
  "plain_line l \<Longrightarrow> scan_lines (l @ nl @ s) = l # scan_lines s"
proof -
  assume p: "plain_line l"
  then have sp: "Split (l @ nl @ s) nl = l # Split s nl"
    by (simp add: plain_line_def nl_def)
  obtain m ms where "Split s nl = m # ms" by (cases "Split s nl") auto
  with p sp show ?thesis by (simp add: scan_lines_def plain_line_def)
qed

lemma scan_lines_Nil [simp]: "scan_lines [] = []"
  by (simp add: scan_lines_def Split_def)

lemma scan_lines_concat:
  "(\<And>l. l \<in> set ls \<Longrightarrow> plain_line l) \<Longrightarrow> scan_lines (concat (map (\<lambda>l. l @ nl) ls)) = ls"
  by (induction ls) (simp_all add: scan_lines_Cons)

end
