(* ===== verification/Model.thy ===== *)
theory Model
  imports GoStrings
begin

text \<open>
  The data model of \<open>model/*.go\<close>: job status, steps, stages, jobs, job details, the results of
  actions, queue and status messages; and \<open>Job.StageSort\<close>, the dependency sort every job goes
  through before it runs, with its correctness for every iteration order of Go's maps.
  Times are nanoseconds (\<open>int\<close>); \<open>0\<close> is the zero time.
\<close>

type_synonym time = int

section \<open>Status (model/job.go)\<close>

datatype Status = STATUS_NOTRUN | STATUS_RUNNING | STATUS_FAIL | STATUS_SUCCESS | STATUS_STOP

fun status_int :: "Status \<Rightarrow> int" where
  "status_int STATUS_NOTRUN = 0"
| "status_int STATUS_RUNNING = 1"
| "status_int STATUS_FAIL = 2"
| "status_int STATUS_SUCCESS = 3"
| "status_int STATUS_STOP = 4"

definition Status_ToString :: "int \<Rightarrow> string go" where
  "Status_ToString s =
     index_at [''not run'', ''running'', ''fail'', ''success'', ''stop''] s"

definition IntToStatus :: "int \<Rightarrow> Status \<times> error option" where
  "IntToStatus s =
     (if s = 0 then (STATUS_NOTRUN, None)
      else if s = 1 then (STATUS_RUNNING, None)
      else if s = 2 then (STATUS_FAIL, None)
      else if s = 3 then (STATUS_SUCCESS, None)
      else if s = 4 then (STATUS_STOP, None)
      else (STATUS_NOTRUN, Some (''unknown status: '' @ Itoa s)))"

lemma status_int_bounds: "0 \<le> status_int st \<and> status_int st \<le> 4"
  by (cases st) auto

lemma status_int_inject [simp]: "status_int a = status_int b \<longleftrightarrow> a = b"
  by (cases a; cases b) auto

lemma IntToStatus_status_int [simp]: "IntToStatus (status_int st) = (st, None)"
  by (cases st) (auto simp: IntToStatus_def)

section \<open>Steps, stages, jobs\<close>

record Step =
  step_Name :: string
  step_Id :: string
  step_Uses :: string
  step_With :: "(string, string) gomap"
  step_RunsOn :: string
  step_Volumes :: "string list"
  step_Run :: string
  step_Status :: Status
  step_StartTime :: time
  step_Duration :: int

record Stage =
  stage_Steps :: "Step list"
  stage_Needs :: "string list"

record StageDetail =
  sd_Name :: string
  sd_Stage :: Stage
  sd_Status :: Status
  sd_StartTime :: time
  sd_Duration :: int

definition NewStageDetail :: "string \<Rightarrow> Stage \<Rightarrow> StageDetail" where
  "NewStageDetail name stage =
     \<lparr>sd_Name = name, sd_Stage = stage, sd_Status = STATUS_NOTRUN, sd_StartTime = 0,
      sd_Duration = 0\<rparr>"

lemma NewStageDetail_simps [simp]:
  "sd_Name (NewStageDetail k s) = k" "sd_Stage (NewStageDetail k s) = s"
  "sd_Status (NewStageDetail k s) = STATUS_NOTRUN"
  by (simp_all add: NewStageDetail_def)

text \<open>\<open>job_Parameter\<close> is \<open>None\<close> for Go's nil map.\<close>

record Job =
  job_Version :: string
  job_Name :: string
  job_Stages :: "(string, Stage) gomap"
  job_Parameter :: "(string, string) gomap option"
  job_UserId :: string

section \<open>Results of actions (model/artifictory.go)\<close>

record Artifactory =
  art_Name :: string
  art_Url :: string

record Report =
  rep_Id :: int
  rep_Url :: string
  rep_Type :: int
  rep_Content :: string

record DeployInfo =
  dep_Name :: string
  dep_Cid :: string
  dep_Url :: string

record BuildInfo =
  bld_ImageName :: string

record MetaScanReport =
  msr_Total :: int
  msr_CheckResult :: string
  msr_ResultOverview :: string
  msr_Tool :: string

record CodeInfo =
  ci_Branch :: string
  ci_CommitId :: string
  ci_CommitDate :: string
  ci_CommitMessage :: string

record ActionResult =
  ar_CodeInfo :: CodeInfo
  ar_Artifactorys :: "Artifactory list"
  ar_Reports :: "Report list"
  ar_Deploys :: "DeployInfo list"
  ar_BuildData :: "BuildInfo list"
  ar_MetaScanData :: "MetaScanReport list"

definition empty_CodeInfo :: CodeInfo where
  "empty_CodeInfo = \<lparr>ci_Branch = [], ci_CommitId = [], ci_CommitDate = [], ci_CommitMessage = []\<rparr>"

definition empty_ActionResult :: ActionResult where
  "empty_ActionResult =
     \<lparr>ar_CodeInfo = empty_CodeInfo, ar_Artifactorys = [], ar_Reports = [], ar_Deploys = [],
      ar_BuildData = [], ar_MetaScanData = []\<rparr>"

text \<open>A job detail embeds the job and the accumulated action results.\<close>

record JobDetail =
  jd_Id :: int
  jd_Job :: Job
  jd_Status :: Status
  jd_TriggerMode :: string
  jd_Stages :: "StageDetail list"
  jd_StartTime :: time
  jd_Duration :: int
  jd_ActionResult :: ActionResult
  jd_Error :: string

section \<open>Views of jobs (model/job.go)\<close>

record JobVo =
  vo_Version :: string
  vo_Name :: string
  vo_Stages :: "(string, Stage) gomap"
  vo_Status :: Status
  vo_StartTime :: time
  vo_Duration :: int
  vo_TriggerMode :: string
  vo_PipelineDetailId :: int
  vo_Error :: string
  vo_CreateTime :: time

record JobLog =
  jl_StartTime :: time
  jl_Duration :: int
  jl_Content :: string
  jl_LastLine :: int

record JobStageLog =
  jsl_StartTime :: time
  jsl_Duration :: int
  jsl_Content :: string
  jsl_LastLine :: int
  jsl_End :: bool

record JobPage =
  jp_Data :: "JobVo list"
  jp_Total :: int
  jp_Page :: int
  jp_PageSize :: int

record JobDetailPage =
  jdp_Data :: "JobDetail list"
  jdp_Total :: int
  jdp_Page :: int
  jdp_PageSize :: int

text \<open>The two orders the lists are sorted in: by number, by creation time, both decreasing.\<close>

definition JobDetailDecrement_Less :: "JobDetail \<Rightarrow> JobDetail \<Rightarrow> bool" where
  "JobDetailDecrement_Less a b \<longleftrightarrow> jd_Id a > jd_Id b"

definition JobVoTimeDecrement_Less :: "JobVo \<Rightarrow> JobVo \<Rightarrow> bool" where
  "JobVoTimeDecrement_Less a b \<longleftrightarrow> vo_CreateTime a > vo_CreateTime b"

section \<open>Messages (model/message.go, model/node.go, model/error.go)\<close>

datatype Command = Command_Start | Command_Stop

record QueueMessage =
  qm_JobName :: string
  qm_JobId :: int
  qm_JobContent :: string
  qm_Command :: Command

definition NewStartQueueMsg :: "string \<Rightarrow> string \<Rightarrow> int \<Rightarrow> QueueMessage" where
  "NewStartQueueMsg name content jid =
     \<lparr>qm_JobName = name, qm_JobId = jid, qm_JobContent = content, qm_Command = Command_Start\<rparr>"

definition NewStopQueueMsg :: "string \<Rightarrow> string \<Rightarrow> int \<Rightarrow> QueueMessage" where
  "NewStopQueueMsg name content jid =
     \<lparr>qm_JobName = name, qm_JobId = jid, qm_JobContent = content, qm_Command = Command_Stop\<rparr>"

record StatusChangeMessage =
  scm_JobName :: string
  scm_JobId :: int
  scm_Status :: Status

definition NewStatusChangeMsg :: "string \<Rightarrow> int \<Rightarrow> Status \<Rightarrow> StatusChangeMessage" where
  "NewStatusChangeMsg name jid status =
     \<lparr>scm_JobName = name, scm_JobId = jid, scm_Status = status\<rparr>"

record Node =
  node_Name :: string
  node_Address :: string

record SendJobError =
  sje_ErrorNode :: string
  sje_JobName :: string
  sje_JobID :: int
  sje_Err :: error

definition SendJobError_Error :: "SendJobError \<Rightarrow> string" where
  "SendJobError_Error e =
     ''send job '' @ sje_JobName e @ ''('' @ Itoa (sje_JobID e) @ '') error: '' @ sje_Err e"

section \<open>Dependency sort (Job.StageSort)\<close>

text \<open>The inner loop over \<open>stage.Needs\<close>, with its flag \<open>allContains\<close>.\<close>

fun all_contains :: "(string, string) gomap \<Rightarrow> string list \<Rightarrow> bool \<Rightarrow> bool" where
  "all_contains sortedMap [] ok = ok"
| "all_contains sortedMap (n # ns) ok =
     all_contains sortedMap ns (if m_load sortedMap n = None then False else ok)"

text \<open>
  One pass of \<open>for key, stage := range stages\<close> over the keys in the order Go happens to visit
  them; deleting the visited key during the range is allowed and does not affect the others.
\<close>

fun sort_pass :: "string list \<Rightarrow> (string, Stage) gomap \<Rightarrow> (string, string) gomap \<Rightarrow>
    StageDetail list \<Rightarrow> (string, Stage) gomap \<times> (string, string) gomap \<times> StageDetail list" where
  "sort_pass [] stages sortedMap stageList = (stages, sortedMap, stageList)"
| "sort_pass (key # keys) stages sortedMap stageList =
     (case m_load stages key of
        None \<Rightarrow> sort_pass keys stages sortedMap stageList
      | Some stage \<Rightarrow>
          if all_contains sortedMap (stage_Needs stage) True
          then sort_pass keys (m_delete key stages) (m_store key '''' sortedMap)
                 (stageList @ [NewStageDetail key stage])
          else sort_pass keys stages sortedMap stageList)"

lemma length_m_delete: "length (m_delete k m) \<le> length m"
  by (simp add: m_delete_filter)

lemma length_sort_pass: "sort_pass ks st so out = (st', so', out') \<Longrightarrow> length st' \<le> length st"
  by (induction ks st so out rule: sort_pass.induct)
    (auto split: option.splits if_splits intro: order.trans [OF _ length_m_delete])

text \<open>
  The outer loop; \<open>ord i keys\<close> is the order in which the \<open>i\<close>-th range visits the map's keys.
\<close>

type_synonym range_order = "nat \<Rightarrow> string list \<Rightarrow> string list"

function sort_loop :: "range_order \<Rightarrow> nat \<Rightarrow> (string, Stage) gomap \<Rightarrow> (string, string) gomap \<Rightarrow>
    StageDetail list \<Rightarrow> StageDetail list res" where
  "sort_loop ord i stages sortedMap stageList =
     (if length stages > 0 then
        (case sort_pass (ord i (m_keys stages)) stages sortedMap stageList of
           (stages', sortedMap', stageList') \<Rightarrow>
             if length stages' = length stages then Inl ''cannot resolve dependency''
             else sort_loop ord (Suc i) stages' sortedMap' stageList')
      else Inr stageList)"
  by pat_completeness auto
termination
proof (relation "measure (\<lambda>(ord, i, stages, sortedMap, stageList). length stages)", goal_cases)
  case 2
  then show ?case by clarify (drule length_sort_pass [OF sym], simp)
qed simp

declare sort_loop.simps [simp del]

definition StageSort :: "range_order \<Rightarrow> Job \<Rightarrow> StageDetail list res" where
  "StageSort ord job = sort_loop ord 0 (job_Stages job) [] []"

text \<open>Go visits every key of the map exactly once, in some order.\<close>

definition ranges_all :: "range_order \<Rightarrow> bool" where
  "ranges_all ord \<longleftrightarrow> (\<forall>i ks. mset (ord i ks) = mset ks)"

subsection \<open>What a sorted stage list is\<close>

definition needs_of :: "StageDetail \<Rightarrow> string set" where
  "needs_of d = set (stage_Needs (sd_Stage d))"

definition topo_sorted :: "StageDetail list \<Rightarrow> bool" where
  "topo_sorted ds \<longleftrightarrow>
     (\<forall>i < length ds. needs_of (ds ! i) \<subseteq> set (map sd_Name (take i ds)))"

text \<open>The specification of the input: some order of the keys puts every stage after its needs.\<close>

definition resolvable :: "(string, Stage) gomap \<Rightarrow> bool" where
  "resolvable m \<longleftrightarrow> (\<exists>ks. set ks = set (m_keys m) \<and>
     (\<forall>i < length ks. \<forall>s. m_load m (ks ! i) = Some s \<longrightarrow> set (stage_Needs s) \<subseteq> set (take i ks)))"

lemma topo_sorted_Nil [simp]: "topo_sorted []"
  by (simp add: topo_sorted_def)

lemma topo_sorted_snoc:
  "topo_sorted (ds @ [d]) \<longleftrightarrow> topo_sorted ds \<and> needs_of d \<subseteq> set (map sd_Name ds)"
  by (auto simp: topo_sorted_def nth_append less_Suc_eq)

lemma all_contains_iff:
  "all_contains so ns ok \<longleftrightarrow> ok \<and> set ns \<subseteq> set (m_keys so)"
  by (induction so ns ok rule: all_contains.induct) (auto simp: gm.keys_load)

subsection \<open>Invariant of the sort\<close>

definition sort_inv :: "(string, Stage) gomap \<Rightarrow> (string, Stage) gomap \<Rightarrow>
    (string, string) gomap \<Rightarrow> StageDetail list \<Rightarrow> bool" where
  "sort_inv M st so out \<longleftrightarrow>
     m_wf st \<and> distinct (map sd_Name out) \<and> set (map sd_Name out) = set (m_keys so) \<and>
     set (m_keys so) \<inter> set (m_keys st) = {} \<and>
     set (m_keys so) \<union> set (m_keys st) = set (m_keys M) \<and>
     (\<forall>k s. m_load st k = Some s \<longrightarrow> m_load M k = Some s) \<and>
     (\<forall>d \<in> set out. \<exists>s. m_load M (sd_Name d) = Some s \<and> d = NewStageDetail (sd_Name d) s) \<and>
     topo_sorted out"

lemma sort_inv_init: "m_wf M \<Longrightarrow> sort_inv M M [] []"
  by (simp add: sort_inv_def m_keys_def)

lemma sort_inv_emit:
  assumes inv: "sort_inv M st so out" and k: "m_load st key = Some stage"
    and ok: "all_contains so (stage_Needs stage) True"
  shows "sort_inv M (m_delete key st) (m_store key '''' so) (out @ [NewStageDetail key stage])"
proof -
  have kin: "key \<in> set (m_keys st)" using k by (simp add: gm.keys_load)
  then have "key \<notin> set (map sd_Name out)" using inv by (auto simp: sort_inv_def)
  then show ?thesis
    using inv k kin ok
    by (auto simp: sort_inv_def gm.set_keys_store gm.set_keys_remove topo_sorted_snoc
        all_contains_iff needs_of_def)
qed

lemma sort_inv_pass:
  "sort_inv M st so out \<Longrightarrow> sort_pass ks st so out = (st', so', out') \<Longrightarrow> sort_inv M st' so' out'"
  by (induction ks st so out rule: sort_pass.induct)
    (auto split: option.splits if_splits dest: sort_inv_emit)

text \<open>A pass keeps what was sorted and never puts a stage back.\<close>

lemma sort_pass_mono:
  "sort_pass ks st so out = (st', so', out') \<Longrightarrow>
     set (m_keys so) \<subseteq> set (m_keys so') \<and> set (m_keys st') \<subseteq> set (m_keys st)"
  by (induction ks st so out rule: sort_pass.induct)
    (fastforce split: option.splits if_splits simp: gm.set_keys_store gm.set_keys_remove)+

text \<open>A stage whose needs are already sorted leaves the map in the pass that visits it.\<close>

lemma sort_pass_takes:
  assumes "sort_pass ks st so out = (st', so', out')" and "key \<in> set ks"
    and "m_load st key = Some stage" and "set (stage_Needs stage) \<subseteq> set (m_keys so)"
  shows "key \<notin> set (m_keys st')"
  using assms
proof (induction ks st so out rule: sort_pass.induct)
  case (2 k ks st so out)
  show ?case
  proof (cases "k = key")
    case True
    with 2 have "sort_pass ks (m_delete key st) (m_store key '''' so)
        (out @ [NewStageDetail key stage]) = (st', so', out')"
      by (simp add: all_contains_iff)
    from sort_pass_mono [OF this] show ?thesis by (auto simp: gm.set_keys_remove)
  next
    case False
    with "2.prems" "2.IH" show ?thesis
      by (auto split: option.splits if_splits simp: gm.set_keys_store)
  qed
qed simp

lemma resolvable_next:
  assumes inv: "sort_inv M st so out" and res: "resolvable M" and ne: "st \<noteq> []"
  obtains key stage where "m_load st key = Some stage"
    and "set (stage_Needs stage) \<subseteq> set (m_keys so)"
proof -
  from res obtain ks where ks: "set ks = set (m_keys M)"
    and dep: "\<And>i s. i < length ks \<Longrightarrow> m_load M (ks ! i) = Some s \<Longrightarrow>
                set (stage_Needs s) \<subseteq> set (take i ks)"
    unfolding resolvable_def by blast
  have parts: "set (m_keys so) \<union> set (m_keys st) = set ks"
    using inv ks by (simp add: sort_inv_def)
  let ?P = "\<lambda>i. i < length ks \<and> ks ! i \<in> set (m_keys st)"
  obtain k where "k \<in> set (m_keys st)" using ne by (cases st) (auto simp: m_keys_def)
  moreover from this have "k \<in> set ks" using parts by blast
  ultimately have "\<exists>i. ?P i" by (metis in_set_conv_nth)
  then have P: "?P (LEAST i. ?P i)" by (rule LeastI_ex)
  define i where "i = (LEAST i. ?P i)"
  obtain stage where st: "m_load st (ks ! i) = Some stage"
    using P by (auto simp: i_def gm.keys_load)
  then have "m_load M (ks ! i) = Some stage" using inv by (simp add: sort_inv_def)
  with dep P have "set (stage_Needs stage) \<subseteq> set (take i ks)" by (simp add: i_def)
  also have "set (take i ks) \<subseteq> set (m_keys so)"
  proof
    fix x assume "x \<in> set (take i ks)"
    then obtain j where j: "j < i" "j < length ks" "x = ks ! j"
      by (auto simp: in_set_conv_nth)
    then have "\<not> ?P j" unfolding i_def using not_less_Least by blast
    then have "x \<notin> set (m_keys st)" using j by simp
    then show "x \<in> set (m_keys so)" using parts j by (metis UnE nth_mem)
  qed
  finally show ?thesis using st that by blast
qed

lemma sort_loop_sound:
  "sort_inv M st so out \<Longrightarrow> sort_loop ord i st so out = Inr res \<Longrightarrow>
     \<exists>so'. sort_inv M [] so' res"
proof (induction ord i st so out rule: sort_loop.induct)
  case (1 ord i st so out)
  show ?case
  proof (cases "st = []")
    case True
    with 1(2,3) show ?thesis by (auto simp: sort_loop.simps [of ord i])
  next
    case False
    obtain st' so' out' where p: "sort_pass (ord i (m_keys st)) st so out = (st', so', out')"
      by (metis prod_cases3)
    with 1(3) False have "length st' \<noteq> length st"
      and "sort_loop ord (Suc i) st' so' out' = Inr res"
      by (auto simp: sort_loop.simps [of ord i] split: if_splits)
    with 1(1) [OF _ p [symmetric] refl] sort_inv_pass [OF 1(2) p] False show ?thesis
      by simp
  qed
qed

lemma sort_loop_complete:
  "sort_inv M st so out \<Longrightarrow> resolvable M \<Longrightarrow> ranges_all ord \<Longrightarrow>
     \<exists>res. sort_loop ord i st so out = Inr res"
proof (induction ord i st so out rule: sort_loop.induct)
  case (1 ord i st so out)
  show ?case
  proof (cases "st = []")
    case True
    then show ?thesis by (simp add: sort_loop.simps [of ord i])
  next
    case False
    obtain st' so' out' where p: "sort_pass (ord i (m_keys st)) st so out = (st', so', out')"
      by (metis prod_cases3)
    obtain key stage where k: "m_load st key = Some stage"
      and n: "set (stage_Needs stage) \<subseteq> set (m_keys so)"
      using resolvable_next [OF 1(2,3) False] .
    have "set (ord i (m_keys st)) = set (m_keys st)"
      using 1(4) by (metis ranges_all_def set_mset_mset)
    then have "key \<in> set (ord i (m_keys st))" using k by (simp add: gm.keys_load)
    then have "key \<notin> set (m_keys st')" using sort_pass_takes [OF p _ k n] by blast
    moreover have "key \<in> set (m_keys st)" using k by (simp add: gm.keys_load)
    ultimately have "st' \<noteq> st" by blast
    have inv': "sort_inv M st' so' out'" using sort_inv_pass [OF 1(2) p] .
    have "set (m_keys st') \<subset> set (m_keys st)"
      using sort_pass_mono [OF p] \<open>key \<notin> set (m_keys st')\<close> \<open>key \<in> set (m_keys st)\<close> by blast
    then have "card (set (m_keys st')) < card (set (m_keys st))" by (simp add: psubset_card_mono)
    then have neq: "length st' \<noteq> length st"
      using inv' 1(2) gm.length_keys_eq_card [of st'] gm.length_keys_eq_card [of st]
      by (simp add: sort_inv_def m_keys_def)
    show ?thesis
      using 1(1) [OF _ p [symmetric] refl neq inv' 1(3,4)] False neq p
      by (simp add: sort_loop.simps [of ord i])
  qed
qed

section \<open>Properties of the sort\<close>

lemma StageSort_Inr_inv:
  assumes "m_wf (job_Stages job)" and "StageSort ord job = Inr ds"
  obtains so where "sort_inv (job_Stages job) [] so ds"
  using sort_loop_sound [OF sort_inv_init [OF assms(1)], of ord 0 ds] assms(2)
  unfolding StageSort_def by blast

lemma sort_inv_done_names:
  assumes "m_wf M" and "sort_inv M [] so ds"
  shows "mset (map sd_Name ds) = mset (m_keys M)"
proof -
  have "set (m_keys ([] :: (string, Stage) gomap)) = {}" by (simp add: m_keys_def)
  with assms(2) have "distinct (map sd_Name ds)" "set (map sd_Name ds) = set (m_keys M)"
    by (auto simp: sort_inv_def)
  then show ?thesis
    using gm.wf_distinct [OF assms(1)] by (metis set_eq_iff_mset_eq_distinct)
qed

lemma sort_loop_error:
  "sort_loop ord i st so out = Inl e \<Longrightarrow> e = ''cannot resolve dependency''"
proof (induction ord i st so out rule: sort_loop.induct)
  case (1 ord i st so out)
  obtain st' so' out' where p: "sort_pass (ord i (m_keys st)) st so out = (st', so', out')"
    by (metis prod_cases3)
  show ?case
    using 1(2) 1(1) [OF _ p [symmetric] refl]
    by (auto simp: sort_loop.simps [of ord i st] p split: if_splits)
qed

lemma topo_sorted_resolvable:
  assumes "sort_inv M [] so ds"
  shows "resolvable M"
  unfolding resolvable_def
proof (intro exI conjI allI impI)
  have "set (m_keys ([] :: (string, Stage) gomap)) = {}" by (simp add: m_keys_def)
  then show "set (map sd_Name ds) = set (m_keys M)"
    using assms by (auto simp: sort_inv_def)
  fix i s assume i: "i < length (map sd_Name ds)" and s: "m_load M (map sd_Name ds ! i) = Some s"
  then have "ds ! i \<in> set ds" by simp
  then obtain s' where "m_load M (sd_Name (ds ! i)) = Some s'"
    and "ds ! i = NewStageDetail (sd_Name (ds ! i)) s'"
    using assms unfolding sort_inv_def by blast
  then have "m_load M (sd_Name (ds ! i)) = Some (sd_Stage (ds ! i))"
    by (metis NewStageDetail_simps(2))
  with s i have "sd_Stage (ds ! i) = s" by simp
  moreover have "needs_of (ds ! i) \<subseteq> set (map sd_Name (take i ds))"
    using assms i by (simp add: sort_inv_def topo_sorted_def)
  ultimately show "set (stage_Needs s) \<subseteq> set (take i (map sd_Name ds))"
    by (simp add: needs_of_def take_map)
qed

text \<open>
  C1. Whatever order Go ranges over the stage map, a stage list returned by \<open>StageSort\<close> holds
  every stage of the job exactly once, with the job's own definition and status "not run", and
  every stage comes after all the stages it needs.
\<close>

theorem StageSort_sound:
  assumes "m_wf (job_Stages job)" and "StageSort ord job = Inr ds"
  shows "mset (map sd_Name ds) = mset (m_keys (job_Stages job)) \<and> topo_sorted ds \<and>
    (\<forall>d \<in> set ds. m_load (job_Stages job) (sd_Name d) = Some (sd_Stage d) \<and>
       sd_Status d = STATUS_NOTRUN)"
proof (intro conjI)
  obtain so where inv: "sort_inv (job_Stages job) [] so ds"
    using StageSort_Inr_inv [OF assms] .
  show "mset (map sd_Name ds) = mset (m_keys (job_Stages job))"
    using sort_inv_done_names [OF assms(1) inv] .
  show "topo_sorted ds" using inv by (simp add: sort_inv_def)
  show "\<forall>d \<in> set ds. m_load (job_Stages job) (sd_Name d) = Some (sd_Stage d) \<and>
           sd_Status d = STATUS_NOTRUN"
    using inv unfolding sort_inv_def by (metis NewStageDetail_simps(2,3))
qed

definition demo_stage :: "string list \<Rightarrow> Stage" where
  "demo_stage needs = \<lparr>stage_Steps = [], stage_Needs = needs\<rparr>"

definition demo_job :: Job where
  "demo_job = \<lparr>job_Version = ''1'', job_Name = ''demo'',
     job_Stages = [(''deploy'', demo_stage [''build'', ''test'']), (''test'', demo_stage [''build'']),
       (''build'', demo_stage [])],
     job_Parameter = None, job_UserId = ''u''\<rparr>"

definition demo_sorted :: "StageDetail list" where
  "demo_sorted = [NewStageDetail ''build'' (demo_stage []),
     NewStageDetail ''test'' (demo_stage [''build'']),
     NewStageDetail ''deploy'' (demo_stage [''build'', ''test''])]"

lemma demo_job_facts:
  "m_wf (job_Stages demo_job)" "StageSort (\<lambda>i ks. ks) demo_job = Inr demo_sorted"
  by code_simp+

theorem StageSort_sound_witness:
  "mset (map sd_Name demo_sorted) = mset (m_keys (job_Stages demo_job)) \<and> topo_sorted demo_sorted"
  using StageSort_sound [OF demo_job_facts] by simp

text \<open>
  C2. \<open>StageSort\<close> succeeds exactly for the jobs whose dependencies can be resolved, so its
  verdict does not depend on the order Go ranges over the map: it is never wrong to reject.
\<close>

theorem StageSort_succeeds_iff:
  assumes "m_wf (job_Stages job)" and "ranges_all ord"
  shows "(\<exists>ds. StageSort ord job = Inr ds) \<longleftrightarrow> resolvable (job_Stages job)"
proof
  assume "\<exists>ds. StageSort ord job = Inr ds"
  then show "resolvable (job_Stages job)"
    using StageSort_Inr_inv [OF assms(1)] topo_sorted_resolvable by metis
next
  assume "resolvable (job_Stages job)"
  from sort_loop_complete [OF sort_inv_init [OF assms(1)] this assms(2)]
  show "\<exists>ds. StageSort ord job = Inr ds" by (simp add: StageSort_def)
qed

theorem StageSort_succeeds_iff_witness: "resolvable (job_Stages demo_job)"
  using StageSort_succeeds_iff [OF demo_job_facts(1), of "\<lambda>i ks. ks"] demo_job_facts(2)
  by (auto simp: ranges_all_def)

text \<open>
  A group of stages that wait for one another, or for a stage the job does not have, makes
  \<open>StageSort\<close> return its error in every iteration order (and not loop or drop the group).
\<close>

theorem StageSort_rejects_deadlock:
  assumes "m_wf (job_Stages job)" and "ranges_all ord"
    and "start \<in> S" and "S \<subseteq> set (m_keys (job_Stages job))"
    and stuck: "\<forall>k \<in> S. \<forall>s. m_load (job_Stages job) k = Some s \<longrightarrow>
      (\<exists>n \<in> set (stage_Needs s). n \<in> S \<or> n \<notin> set (m_keys (job_Stages job)))"
  shows "StageSort ord job = Inl ''cannot resolve dependency''"
proof -
  let ?M = "job_Stages job"
  have "\<not> resolvable ?M"
  proof
    assume "resolvable ?M"
    then obtain ks where ks: "set ks = set (m_keys ?M)" and dep: "\<And>i s. i < length ks \<Longrightarrow>
        m_load ?M (ks ! i) = Some s \<Longrightarrow> set (stage_Needs s) \<subseteq> set (take i ks)"
      unfolding resolvable_def by blast
    have no: "i < length ks \<Longrightarrow> ks ! i \<notin> S" for i
    proof (induction i rule: less_induct)
      case (less i)
      show ?case
      proof
        assume "ks ! i \<in> S"
        moreover obtain s where s: "m_load ?M (ks ! i) = Some s"
          using less.prems ks by (metis gm.keys_load not_None_eq nth_mem)
        ultimately obtain n where n: "n \<in> set (stage_Needs s)" "n \<in> S \<or> n \<notin> set ks"
          using stuck ks by blast
        with dep [OF less.prems s] have "n \<in> set (take i ks)" by blast
        then obtain j where "j < i" "j < length ks" "n = ks ! j" by (auto simp: in_set_conv_nth)
        with n less.IH show False by auto
      qed
    qed
    from assms(3,4) ks obtain i where "i < length ks" "ks ! i = start"
      by (metis in_mono in_set_conv_nth)
    with no assms(3) show False by blast
  qed
  then have "\<nexists>ds. StageSort ord job = Inr ds"
    using StageSort_Inr_inv [OF assms(1)] topo_sorted_resolvable by metis
  then obtain e where "StageSort ord job = Inl e" by (cases "StageSort ord job") auto
  with sort_loop_error show ?thesis unfolding StageSort_def by metis
qed

definition demo_cyclic :: Job where
  "demo_cyclic = demo_job\<lparr>job_Stages := [(''a'', demo_stage [''b'']), (''b'', demo_stage [''a'']),
     (''c'', demo_stage [])]\<rparr>"

theorem StageSort_rejects_deadlock_witness:
  "StageSort (\<lambda>i ks. rev ks) demo_cyclic = Inl ''cannot resolve dependency''"
proof (rule StageSort_rejects_deadlock [where start = "''a''" and S = "{''a'', ''b''}"])
  show "m_wf (job_Stages demo_cyclic)" by code_simp
  show "\<forall>k \<in> {''a'', ''b''}. \<forall>s. m_load (job_Stages demo_cyclic) k = Some s \<longrightarrow>
      (\<exists>n \<in> set (stage_Needs s). n \<in> {''a'', ''b''} \<or> n \<notin> set (m_keys (job_Stages demo_cyclic)))"
    by (simp add: demo_cyclic_def demo_job_def demo_stage_def m_load_def)
qed (auto simp: ranges_all_def demo_cyclic_def m_keys_def)

text \<open>Status codes travel as integers; an unknown code is reported and read as "not run".\<close>

lemma IntToStatus_unknown:
  "i \<notin> range status_int \<Longrightarrow> IntToStatus i = (STATUS_NOTRUN, Some (''unknown status: '' @ Itoa i))"
proof -
  assume i: "i \<notin> range status_int"
  have "status_int st \<in> range status_int" for st by simp
  from this [of STATUS_NOTRUN] this [of STATUS_RUNNING] this [of STATUS_FAIL]
    this [of STATUS_SUCCESS] this [of STATUS_STOP] i
  show ?thesis by (auto simp: IntToStatus_def)
qed

end
