(* ===== verification/GoPath.thy ===== *)
theory GoPath
  imports GoStrings
begin

text \<open>
  Go's \<open>path/filepath\<close> on Unix (\<open>Clean\<close>, \<open>Join\<close>, \<open>Dir\<close>, \<open>Base\<close>, \<open>Ext\<close>, \<open>Split\<close>), and rooted paths as
  lists of ordinary components, on which joining is appending.
\<close>

section \<open>The functions\<close>

definition dot :: string where "dot = ''.''"
definition dotdot :: string where "dotdot = ''..''"

fun clean_comps :: "bool \<Rightarrow> string list \<Rightarrow> string list \<Rightarrow> string list" where
  "clean_comps rooted acc [] = rev acc"
| "clean_comps rooted acc (c # cs) =
     (if c = [] \<or> c = dot then clean_comps rooted acc cs
      else if c = dotdot then
        (if acc \<noteq> [] \<and> hd acc \<noteq> dotdot then clean_comps rooted (tl acc) cs
         else if rooted then clean_comps rooted acc cs
         else clean_comps rooted (c # acc) cs)
      else clean_comps rooted (c # acc) cs)"

definition abs_path :: "string list \<Rightarrow> string" where
  "abs_path cs = CHR ''/'' # Join cs ''/''"

definition Clean :: "string \<Rightarrow> string" where
  "Clean s =
     (if s = [] then dot
      else if HasPrefix s ''/'' then abs_path (clean_comps True [] (Split s ''/''))
      else (let cs = clean_comps False [] (Split s ''/'') in if cs = [] then dot else Join cs ''/''))"

definition PathJoin :: "string list \<Rightarrow> string" where
  "PathJoin elems =
     (let es = dropWhile (\<lambda>e. e = []) elems in if es = [] then [] else Clean (Join es ''/''))"

definition upto_slash :: "string \<Rightarrow> string" where
  "upto_slash s = rev (dropWhile (\<lambda>c. c \<noteq> CHR ''/'') (rev s))"

definition after_slash :: "string \<Rightarrow> string" where
  "after_slash s = rev (takeWhile (\<lambda>c. c \<noteq> CHR ''/'') (rev s))"

definition Dir :: "string \<Rightarrow> string" where
  "Dir s = Clean (upto_slash s)"

definition Base :: "string \<Rightarrow> string" where
  "Base s = (if s = [] then dot
     else (let b = after_slash (TrimRight s ''/'') in if b = [] then ''/'' else b))"

definition Ext :: "string \<Rightarrow> string" where
  "Ext s = (let b = after_slash s in
     if CHR ''.'' \<in> set b then CHR ''.'' # rev (takeWhile (\<lambda>c. c \<noteq> CHR ''.'') (rev b)) else [])"

section \<open>Rooted paths of ordinary components\<close>

definition good_comp :: "string \<Rightarrow> bool" where
  "good_comp c \<longleftrightarrow> c \<noteq> [] \<and> c \<noteq> dot \<and> c \<noteq> dotdot \<and> CHR ''/'' \<notin> set c"

lemma good_compD: "good_comp c \<Longrightarrow> c \<noteq> [] \<and> CHR ''/'' \<notin> set c"
  by (simp add: good_comp_def)

lemma clean_comps_good:
  "list_all good_comp cs \<Longrightarrow> clean_comps r acc (cs @ ds) = clean_comps r (rev cs @ acc) ds"
  by (induction cs arbitrary: acc) (auto simp: good_comp_def)

lemma clean_comps_good_all: "list_all good_comp cs \<Longrightarrow> clean_comps r acc cs = rev acc @ cs"
  using clean_comps_good [of cs r acc "[]"] by simp

lemma Split_Join_good:
  "cs \<noteq> [] \<Longrightarrow> list_all good_comp cs \<Longrightarrow> Split (Join cs ''/'') ''/'' = cs"
  by (rule Split_Join_single) (auto simp: list_all_iff good_comp_def)

lemma Split_Cons_sep: "Split (c # s) [c] = [] # Split s [c]"
  using Split_single_Cons [of c "[]" s] by simp

lemma Split_abs_path:
  "list_all good_comp cs \<Longrightarrow> Split (abs_path cs) ''/'' = [] # (if cs = [] then [[]] else cs)"
  by (simp add: abs_path_def Split_Cons_sep Split_Join_good)

lemma abs_path_inject:
  assumes "list_all good_comp cs" and "list_all good_comp ds"
  shows "abs_path cs = abs_path ds \<longleftrightarrow> cs = ds"
proof
  assume "abs_path cs = abs_path ds"
  then have "Split (abs_path cs) ''/'' = Split (abs_path ds) ''/''" by simp
  then have "(if cs = [] then [[]] else cs) = (if ds = [] then [[]] else ds)"
    by (simp only: Split_abs_path [OF assms(1)] Split_abs_path [OF assms(2)] list.inject)
  then show "cs = ds" using assms by (auto simp: good_comp_def split: if_splits)
qed simp

lemma Clean_abs_path: "list_all good_comp cs \<Longrightarrow> Clean (abs_path cs) = abs_path cs"
proof -
  assume g: "list_all good_comp cs"
  have "HasPrefix (abs_path cs) ''/''" "abs_path cs \<noteq> []" by (simp_all add: abs_path_def)
  then show ?thesis using g by (simp add: Clean_def Split_abs_path clean_comps_good_all)
qed

lemma Join_append_single:
  "xs \<noteq> [] \<Longrightarrow> ys \<noteq> [] \<Longrightarrow> Join (xs @ ys) sep = Join xs sep @ sep @ Join ys sep"
proof (induction xs)
  case (Cons a xs)
  then show ?case by (cases xs) (auto simp: Join_Cons)
qed simp

text \<open>Joining ordinary components to a rooted path appends them.\<close>

lemma PathJoin_abs:
  assumes "list_all good_comp cs" and "list_all good_comp es"
  shows "PathJoin (abs_path cs # es) = abs_path (cs @ es)"
proof (cases "es = []")
  case True
  moreover have "abs_path cs \<noteq> []" by (simp add: abs_path_def)
  ultimately show ?thesis using Clean_abs_path [OF assms(1)] by (simp add: PathJoin_def)
next
  case False
  have J: "Join (abs_path cs # es) ''/'' = abs_path cs @ CHR ''/'' # Join es ''/''"
    using False by (simp add: Join_Cons)
  have "Split (abs_path cs @ CHR ''/'' # Join es ''/'') ''/'' =
      [] # (if cs = [] then [[]] else cs) @ es"
  proof (cases "cs = []")
    case True
    then show ?thesis
      using False assms(2) by (simp add: abs_path_def Split_Cons_sep Split_Join_good)
  next
    case ne: False
    then have "abs_path cs @ CHR ''/'' # Join es ''/'' = abs_path (cs @ es)"
      using False by (simp add: abs_path_def Join_append_single)
    then show ?thesis using assms ne by (simp add: Split_abs_path)
  qed
  moreover have "HasPrefix (abs_path cs @ t) ''/''" for t by (simp add: abs_path_def)
  ultimately show ?thesis
    using J assms False
    by (auto simp: PathJoin_def Clean_def clean_comps_good_all abs_path_def)
qed

lemma upto_slash_snoc:
  "CHR ''/'' \<notin> set c \<Longrightarrow> upto_slash (s @ CHR ''/'' # c) = s @ ''/''"
proof -
  assume "CHR ''/'' \<notin> set c"
  then have "dropWhile (\<lambda>c. c \<noteq> CHR ''/'') (rev c @ CHR ''/'' # rev s) = CHR ''/'' # rev s"
    by (subst dropWhile_append2) auto
  then show ?thesis by (simp add: upto_slash_def)
qed

lemma abs_path_snoc:
  "abs_path (cs @ [c]) = (if cs = [] then '''' else abs_path cs) @ CHR ''/'' # c"
  by (simp add: abs_path_def Join_append_single)

lemma Dir_abs_path:
  assumes "list_all good_comp (cs @ [c])"
  shows "Dir (abs_path (cs @ [c])) = abs_path cs"
proof -
  have c: "CHR ''/'' \<notin> set c" using assms by (simp add: good_comp_def)
  have "upto_slash (abs_path (cs @ [c])) = (if cs = [] then '''' else abs_path cs) @ ''/''"
    unfolding abs_path_snoc by (rule upto_slash_snoc [OF c])
  moreover have "Clean (abs_path cs @ ''/'') = abs_path cs" if "cs \<noteq> []"
  proof -
    have "Split (abs_path cs @ [CHR ''/'']) ''/'' = [] # cs @ [[]]"
    proof -
      have "abs_path cs @ ''/'' = CHR ''/'' # Join (cs @ [[]]) ''/''"
        using that by (simp add: abs_path_def Join_append_single)
      moreover have "Split (Join (cs @ [[]]) ''/'') ''/'' = cs @ [[]]"
        using assms by (intro Split_Join_single) (auto simp: list_all_iff good_comp_def)
      ultimately show ?thesis by (simp add: Split_Cons_sep)
    qed
    then show ?thesis
      using assms clean_comps_good [of cs True "[]" "[[]]"]
      by (simp add: Clean_def) (simp add: abs_path_def)
  qed
  moreover have "Clean ''/'' = abs_path []" by code_simp
  ultimately show ?thesis by (simp add: Dir_def)
qed

lemma Base_last:
  assumes "good_comp c"
  shows "Base (pre @ CHR ''/'' # c) = c"
proof -
  have c: "c \<noteq> []" "CHR ''/'' \<notin> set c" using assms by (auto simp: good_comp_def)
  have "dropWhile (\<lambda>x. x = CHR ''/'') (rev c @ CHR ''/'' # rev pre) = rev c @ CHR ''/'' # rev pre"
    using c by (cases "rev c") (auto simp: rev_swap)
  then have "TrimRight (pre @ CHR ''/'' # c) ''/'' = pre @ CHR ''/'' # c"
    by (simp add: TrimRight_def)
  moreover have "after_slash (pre @ CHR ''/'' # c) = c"
  proof -
    have "takeWhile (\<lambda>x. x \<noteq> CHR ''/'') (rev c @ CHR ''/'' # rev pre) = rev c"
      using c by (subst takeWhile_append2) auto
    then show ?thesis by (simp add: after_slash_def)
  qed
  ultimately show ?thesis using c by (simp add: Base_def)
qed

lemma Base_abs_path:
  assumes "list_all good_comp (cs @ [c])"
  shows "Base (abs_path (cs @ [c])) = c"
  using assms Base_last [of c "if cs = [] then [] else abs_path cs"] by (simp add: abs_path_snoc)

end
