(* ===== verification/Utils.thy ===== *)
theory Utils
  imports GoPath
begin

text \<open>
  The helpers of \<open>utils/\<close>: the action stack, paging, the textual keys of jobs and nodes, the
  \<open>key=value\<close> lists of Move packages, parameter placeholders, and the path helpers, with the round
  trips and bounds their callers rely on.
\<close>

section \<open>Stack (utils/stack.go)\<close>

type_synonym 'a Stack = "'a list"

definition Stack_Push :: "'a \<Rightarrow> 'a Stack \<Rightarrow> 'a Stack" where
  "Stack_Push value s = s @ [value]"

definition Stack_Pop :: "'a Stack \<Rightarrow> 'a res \<times> 'a Stack" where
  "Stack_Pop s = (if s = [] then (Inl ''empty stack'', s) else (Inr (last s), butlast s))"

definition Stack_IsEmpty :: "'a Stack \<Rightarrow> bool" where
  "Stack_IsEmpty s \<longleftrightarrow> s = []"

text \<open>The interface: a last-in first-out store, seen as the list of its elements, top first.\<close>

locale lifo =
  fixes push :: "'a \<Rightarrow> 's \<Rightarrow> 's"
    and pop :: "'s \<Rightarrow> 'a res \<times> 's"
    and is_empty :: "'s \<Rightarrow> bool"
    and contents :: "'s \<Rightarrow> 'a list"
  assumes contents_push: "contents (push x s) = x # contents s"
    and is_empty_iff: "is_empty s \<longleftrightarrow> contents s = []"
    and pop_nonempty: "contents s = x # xs \<Longrightarrow> \<exists>s'. pop s = (Inr x, s') \<and> contents s' = xs"
    and pop_empty: "contents s = [] \<Longrightarrow> pop s = (Inl ''empty stack'', s)"
begin

lemma pop_push: "\<exists>s'. pop (push x s) = (Inr x, s') \<and> contents s' = contents s"
  using pop_nonempty [OF contents_push] by blast

lemma pop_decreases: "\<not> is_empty s \<Longrightarrow> length (contents (snd (pop s))) < length (contents s)"
  by (cases "contents s") (auto simp: is_empty_iff dest: pop_nonempty)

lemma pop_cases:
  obtains (empty) "is_empty s" "contents s = []"
  | (top) x s' where "\<not> is_empty s" "pop s = (Inr x, s')" "contents s = x # contents s'"
  using pop_nonempty [of s] by (cases "contents s") (auto simp: is_empty_iff)

end

interpretation stk: lifo Stack_Push Stack_Pop Stack_IsEmpty rev
  by unfold_locales
    (auto simp: Stack_Push_def Stack_Pop_def Stack_IsEmpty_def rev_swap)

section \<open>Paging (utils/util.go: SlicePage)\<close>

text \<open>
  \<open>math.Ceil(float64(nums)/float64(pageSize))\<close>, exact below \<open>2 ^ 53\<close>.  For \<open>pageSize = 0\<close> Go's
  conversion of the infinite quotient is unspecified; any value gives the empty range that HOL's
  \<open>x div 0 = 0\<close> gives here.
\<close>

definition page_count :: "int \<Rightarrow> int \<Rightarrow> int" where
  "page_count nums pageSize = - ((- nums) div pageSize)"

definition SlicePage :: "int \<Rightarrow> int \<Rightarrow> int \<Rightarrow> int \<times> int \<times> int \<times> int" where
  "SlicePage page0 pageSize0 nums =
     (let page = (if page0 \<le> 0 then 1 else page0);
          pageSize = (if pageSize0 < 0 then 10 else pageSize0)
      in if pageSize > nums then (page, pageSize, 0, nums)
         else if page > page_count nums pageSize then (page, pageSize, 0, 0)
         else (let sliceStart = (page - 1) * pageSize;
                   sliceEnd = sliceStart + pageSize
               in (page, pageSize, sliceStart, if sliceEnd > nums then nums else sliceEnd)))"

lemma le_div_iff:
  assumes "0 < (k :: int)"
  shows "b \<le> a div k \<longleftrightarrow> b * k \<le> a"
proof
  assume "b \<le> a div k"
  then have "b * k \<le> a div k * k" using assms by (simp add: mult_right_mono)
  also have "\<dots> \<le> a" using div_mult_mod_eq [of a k] pos_mod_sign [OF assms, of a] by linarith
  finally show "b * k \<le> a" .
next
  assume "b * k \<le> a"
  then have "b * k div k \<le> a div k" using assms by (rule zdiv_mono1)
  then show "b \<le> a div k" using assms by simp
qed

lemma le_page_count_iff:
  assumes "0 < k"
  shows "p \<le> page_count n k \<longleftrightarrow> (p - 1) * k < n"
proof -
  have "p \<le> page_count n k \<longleftrightarrow> \<not> (1 - p \<le> (- n) div k)" by (auto simp: page_count_def)
  also have "\<dots> \<longleftrightarrow> \<not> ((1 - p) * k \<le> - n)" using le_div_iff [OF assms] by simp
  finally show ?thesis by (auto simp: algebra_simps)
qed

lemma SlicePage_range:
  assumes "0 \<le> nums"
  shows "case SlicePage page psize nums of (p, s, a, b) \<Rightarrow>
    1 \<le> p \<and> 0 \<le> s \<and> 0 \<le> a \<and> a \<le> b \<and> b \<le> nums \<and> b - a \<le> s"
proof -
  define p where "p = (if page \<le> 0 then 1 else page)"
  define k where "k = (if psize < 0 then 10 else psize)"
  have p: "1 \<le> p" and k: "0 \<le> k" by (auto simp: p_def k_def)
  have "0 \<le> (p - 1) * k" using p k by simp
  moreover have "p \<le> page_count nums k \<Longrightarrow> (p - 1) * k \<le> nums"
    using le_page_count_iff [of k p nums] k assms by (cases "k = 0") auto
  ultimately show ?thesis using assms p k
    unfolding SlicePage_def p_def [symmetric] k_def [symmetric] Let_def by auto
qed



definition page_of :: "'a list \<Rightarrow> int \<Rightarrow> int \<Rightarrow> 'a list go" where
  "page_of xs page psize = (case SlicePage page psize (int (length xs)) of (p, s, a, b) \<Rightarrow> slice xs a b)"

lemma page_of_total: "\<exists>ys. page_of xs page psize = Inr ys \<and> set ys \<subseteq> set xs"
  using SlicePage_range [of "int (length xs)" page psize]
  by (auto simp: page_of_def slice_def split: prod.splits dest: in_set_takeD in_set_dropD)

lemma page_of_inside:
  assumes "0 < k" and "k \<le> length xs" and "m * k < length xs"
  shows "page_of xs (int m + 1) (int k) = Inr (take k (drop (m * k) xs))"
proof -
  have "(int m + 1 - 1) * int k < int (length xs)" using assms(3) by (simp flip: of_nat_mult)
  then have "int m + 1 \<le> page_count (int (length xs)) (int k)"
    using le_page_count_iff [of "int k"] assms(1) by simp
  then have "SlicePage (int m + 1) (int k) (int (length xs)) =
      (int m + 1, int k, int (m * k), int (min (m * k + k) (length xs)))"
    using assms
    by (auto simp: SlicePage_def Let_def min_def simp flip: of_nat_mult of_nat_add)
  then have "page_of xs (int m + 1) (int k) = Inr (drop (m * k) (take (min (m * k + k) (length xs)) xs))"
    using assms(3) by (simp add: page_of_def slice_nat del: of_nat_mult of_nat_add)
  also have "drop (m * k) (take (min (m * k + k) (length xs)) xs) = take k (drop (m * k) xs)"
    by (simp add: min_def drop_take)
  finally show ?thesis .
qed

text \<open>
  When the page size does not exceed the number of elements, the pages \<open>1, 2, \<dots>\<close> up to the
  page count are disjoint consecutive pieces: put together they are the whole list.
\<close>

theorem pages_cover:
  assumes "0 < k" and "k \<le> length xs" and "n = nat (page_count (int (length xs)) (int k))"
  shows "concat (map (\<lambda>p. projr (page_of xs (int p) (int k))) [1..<Suc n]) = xs"
proof -
  have "m \<le> n \<Longrightarrow> concat (map (\<lambda>p. projr (page_of xs (int p) (int k))) [1..<Suc m]) = take (m * k) xs"
    for m
  proof (induction m)
    case (Suc m)
    then have "int m + 1 \<le> page_count (int (length xs)) (int k)" using assms(3) by linarith
    then have "m * k < length xs"
      using le_page_count_iff [of "int k" "int m + 1" "int (length xs)"] assms(1)
      by (simp flip: of_nat_mult)
    from page_of_inside [OF assms(1,2) this] Suc show ?case
      by (simp add: take_add [symmetric] add.commute)
  qed simp
  moreover have "length xs \<le> n * k"
  proof -
    have "\<not> int n + 1 \<le> page_count (int (length xs)) (int k)" using assms(3) by linarith
    then show ?thesis using le_page_count_iff [of "int k" "int n + 1" "int (length xs)"] assms(1)
      by (simp flip: of_nat_mult)
  qed
  ultimately show ?thesis by simp
qed

theorem pages_cover_witness:
  "concat (map (\<lambda>p. projr (page_of ''abcdefg'' (int p) (int 3))) [1..<Suc 3]) = ''abcdefg''"
  by (rule pages_cover) (auto simp: page_count_def)

text \<open>
  When the page size exceeds the number of elements, every page number, however large, gets
  the whole list: paging until an empty page never ends.
\<close>

theorem SlicePage_short_list_repeats:
  assumes "int (length xs) < k" and "0 \<le> k"
  shows "page_of xs p k = Inr xs"
  using assms by (simp add: page_of_def SlicePage_def Let_def)

theorem SlicePage_short_list_repeats_witness: "page_of [1 :: int, 2, 3] 7 10 = Inr [1, 2, 3]"
  by (rule SlicePage_short_list_repeats) auto

section \<open>Keys of nodes and jobs (utils/util.go)\<close>

definition GetNodeKey :: "string \<Rightarrow> string \<Rightarrow> string" where
  "GetNodeKey name address = name @ ''@'' @ address"

definition FormatJobToString :: "string \<Rightarrow> int \<Rightarrow> string" where
  "FormatJobToString name jid = name @ ''('' @ Itoa jid @ '')''"

definition GetJobNameAndIDFromFormatString :: "string \<Rightarrow> (string \<times> int) res" where
  "GetJobNameAndIDFromFormatString str =
     (let splitString = Split str ''('' in
      if length splitString \<noteq> 2 then Inl ''format error''
      else then_do (Atoi (TrimRight (splitString ! 1) '')'')) (\<lambda>jid. Inr (splitString ! 0, jid)))"

definition cancel_key :: "string \<Rightarrow> int \<Rightarrow> string" where
  "cancel_key name jid = Join [name, Itoa jid] ''/''"

lemma FormatJobToString_inject [simp]:
  "FormatJobToString n i = FormatJobToString m j \<longleftrightarrow> n = m \<and> i = j"
  using append_sep_inject_last [of "CHR ''(''" "Itoa i" "Itoa j" n m]
  by (auto simp: FormatJobToString_def)

lemma cancel_key_inject [simp]: "cancel_key n i = cancel_key m j \<longleftrightarrow> n = m \<and> i = j"
  using append_sep_inject_last [of "CHR ''/''" "Itoa i" "Itoa j" n m]
  by (auto simp: cancel_key_def)

lemma GetNodeKey_inject:
  "CHR ''@'' \<notin> set a \<Longrightarrow> CHR ''@'' \<notin> set b \<Longrightarrow>
     GetNodeKey n a = GetNodeKey m b \<longleftrightarrow> n = m \<and> a = b"
  using append_sep_inject_last [of "CHR ''@''" a b n m] by (auto simp: GetNodeKey_def)

lemma Split_format:
  "Split (FormatJobToString n i) ''('' = (if CHR ''('' \<in> set n then Split (FormatJobToString n i) ''(''
     else [n, Itoa i @ '')''])"
  by (simp add: FormatJobToString_def)

lemma TrimRight_Itoa [simp]: "TrimRight (Itoa i @ '')'') '')'' = Itoa i"
  by (rule TrimRight_single_append) simp

text \<open>
  The key of a job run in the timer and status maps can be read back exactly when the job
  name has no opening parenthesis; for a name that has one, the parser reports a format error.
\<close>

theorem job_key_roundtrip:
  assumes "in_int64 jid"
  shows "GetJobNameAndIDFromFormatString (FormatJobToString name jid) =
    (if CHR ''('' \<in> set name then Inl ''format error'' else Inr (name, jid))"
proof (cases "CHR ''('' \<in> set name")
  case True
  then have "0 < count_list name (CHR ''('')" by (metis count_list_0_iff gr0I)
  then have "2 < length (Split (FormatJobToString name jid) ''('')"
    by (simp add: length_Split FormatJobToString_def)
  with True show ?thesis by (simp add: GetJobNameAndIDFromFormatString_def)
next
  case False
  then show ?thesis
    using assms by (simp add: GetJobNameAndIDFromFormatString_def Split_format)
qed

theorem job_key_roundtrip_witness:
  "GetJobNameAndIDFromFormatString (FormatJobToString ''hello'' 42) = Inr (''hello'', 42)"
  using job_key_roundtrip [of 42 "''hello''"] by (simp add: in_int64_def)

end
