(* ===== verification/Api.thy ===== *)
theory Api
  imports Model Utils
begin

text \<open>
  The messages of \<open>grpc/api\<close>: the two protobuf enumerations with their wire numbers (proto3
  enumerations are open, hence the \<open>UNKNOWN\<close> constructors), the message records, and the two
  conversions between \<open>model.Status\<close> and \<open>api.JobStatus\<close> (\<open>engine_worker.go\<close>,
  \<open>engine_master.go\<close>).  Pointer fields that may be nil are options.
\<close>

datatype MessageType =
    MT_REGISTER | MT_UNREGISTER | MT_HEARTBEAT | MT_EXECUTE | MT_CANCEL | MT_RESULT | MT_LOG
  | MT_ERROR | MT_FILE | MT_STATUS | MT_UNKNOWN int

fun MessageType_Number :: "MessageType \<Rightarrow> int" where
  "MessageType_Number MT_REGISTER = 0"
| "MessageType_Number MT_UNREGISTER = 1"
| "MessageType_Number MT_HEARTBEAT = 2"
| "MessageType_Number MT_EXECUTE = 3"
| "MessageType_Number MT_CANCEL = 4"
| "MessageType_Number MT_RESULT = 5"
| "MessageType_Number MT_LOG = 6"
| "MessageType_Number MT_ERROR = 7"
| "MessageType_Number MT_FILE = 8"
| "MessageType_Number MT_STATUS = 9"
| "MessageType_Number (MT_UNKNOWN n) = n"

datatype JobStatus =
    JobStatus_NOTRUN | JobStatus_RUNNING | JobStatus_FAIL | JobStatus_SUCCESS | JobStatus_STOP
  | JobStatus_UNKNOWN int

record ExecuteReq =
  er_Name :: string
  er_PipelineFile :: string
  er_JobDetailId :: int

record ExecuteResult =
  res_JobName :: string
  res_JobID :: int
  res_JobStatus :: int
  res_Error :: string

record ApiFile =
  file_Path :: string
  file_Data :: string

record AlineMessage =
  msg_Type :: MessageType
  msg_Name :: string
  msg_Address :: string
  msg_ExecReq :: "ExecuteReq option"
  msg_Result :: "ExecuteResult option"
  msg_Log :: string
  msg_Error :: string
  msg_File :: "ApiFile option"
  msg_Status :: JobStatus

text \<open>A message with only its type and addressee set, as a Go composite literal leaves the rest.\<close>

definition plain_msg :: "MessageType \<Rightarrow> string \<Rightarrow> string \<Rightarrow> AlineMessage" where
  "plain_msg t name address =
     \<lparr>msg_Type = t, msg_Name = name, msg_Address = address, msg_ExecReq = None, msg_Result = None,
      msg_Log = [], msg_Error = [], msg_File = None, msg_Status = JobStatus_NOTRUN\<rparr>"

lemma plain_msg_simps [simp]:
  "msg_Type (plain_msg t n a) = t" "msg_Name (plain_msg t n a) = n"
  "msg_Address (plain_msg t n a) = a" "msg_ExecReq (plain_msg t n a) = None"
  by (simp_all add: plain_msg_def)

section \<open>Status conversions\<close>

fun convertStatus :: "Status \<Rightarrow> JobStatus" where
  "convertStatus STATUS_NOTRUN = JobStatus_NOTRUN"
| "convertStatus STATUS_RUNNING = JobStatus_RUNNING"
| "convertStatus STATUS_FAIL = JobStatus_FAIL"
| "convertStatus STATUS_SUCCESS = JobStatus_SUCCESS"
| "convertStatus STATUS_STOP = JobStatus_STOP"

fun convertJobStatus :: "JobStatus \<Rightarrow> Status" where
  "convertJobStatus JobStatus_NOTRUN = STATUS_NOTRUN"
| "convertJobStatus JobStatus_RUNNING = STATUS_RUNNING"
| "convertJobStatus JobStatus_FAIL = STATUS_FAIL"
| "convertJobStatus JobStatus_SUCCESS = STATUS_SUCCESS"
| "convertJobStatus JobStatus_STOP = STATUS_STOP"
| "convertJobStatus (JobStatus_UNKNOWN n) = STATUS_NOTRUN"

lemma convertJobStatus_convertStatus [simp]: "convertJobStatus (convertStatus st) = st"
  by (cases st) auto

end
