(* ===== verification/Dispatcher.thy ===== *)
theory Dispatcher
  imports Api
begin

text \<open>
  \<open>dispatcher/dispatcher.go\<close>: the node registry with its round-robin poller, and the record of
  which nodes ran a job.  Each operation is one atomic step, as under the code's lock and
  \<open>sync.Map\<close>; \<open>now\<close> is \<open>time.Now().Unix()\<close>.  The interface \<open>IDispatcher\<close> is the locale
  \<open>node_dispatcher\<close>, interpreted on this model.
\<close>

section \<open>State and operations\<close>

record NodeInfo =
  ni_node :: Node
  ni_lastPingTime :: int

record GrpcDispatcher =
  d_nodes :: "(string, NodeInfo) gomap"
  d_index :: int
  d_keyList :: "string list"
  d_JobNodeMap :: "(string, Node list) gomap"

definition NewGrpcDispatcher :: GrpcDispatcher where
  "NewGrpcDispatcher = \<lparr>d_nodes = [], d_index = 0, d_keyList = [], d_JobNodeMap = []\<rparr>"

text \<open>Go's remainder truncates towards zero and panics on a zero divisor.\<close>

definition go_rem :: "int \<Rightarrow> int \<Rightarrow> int go" where
  "go_rem a b = (if b = 0 then Inl PanicDivide else Inr (sgn a * (\<bar>a\<bar> mod \<bar>b\<bar>)))"

abbreviation node_key :: "Node \<Rightarrow> string" where
  "node_key n \<equiv> GetNodeKey (node_Name n) (node_Address n)"

definition DispatchNode :: "GrpcDispatcher \<Rightarrow> (Node res \<times> GrpcDispatcher) go" where
  "DispatchNode d =
     (if length (d_keyList d) = 0
      then Inr (Inl ''no node available, len key list is 0'', d)
      else then_do (index_at (d_keyList d) (d_index d)) (\<lambda>key.
           then_do (go_rem (d_index d + 1) (int (length (d_keyList d)))) (\<lambda>i.
             let d' = d\<lparr>d_index := i\<rparr> in
             case m_load (d_nodes d') key of
               Some value \<Rightarrow> Inr (Inr (ni_node value), d')
             | None \<Rightarrow> Inr (Inl ''no node available'', d'))))"

definition Register :: "Node \<Rightarrow> int \<Rightarrow> GrpcDispatcher \<Rightarrow> error option \<times> GrpcDispatcher" where
  "Register node now d =
     (let key = node_key node in
      case m_load (d_nodes d) key of
        None \<Rightarrow> (None, d\<lparr>d_nodes := m_store key \<lparr>ni_node = node, ni_lastPingTime = now\<rparr> (d_nodes d),
                       d_keyList := d_keyList d @ [key]\<rparr>)
      | Some _ \<Rightarrow> (Some ''node already exists'', d))"

definition unRegister :: "string \<Rightarrow> GrpcDispatcher \<Rightarrow> (error option \<times> GrpcDispatcher) go" where
  "unRegister key d =
     (case m_load (d_nodes d) key of
        None \<Rightarrow> Inr (Some ''node not exists'', d)
      | Some _ \<Rightarrow>
          (let nodes' = m_delete key (d_nodes d); kl = d_keyList d; i = d_index d in
           if i \<noteq> 0 then
             then_do (slice kl 0 (i - 1)) (\<lambda>before.
             then_do (slice kl i (int (length kl))) (\<lambda>after.
               let kl' = before @ after in
               then_do (go_rem (i - 1) (int (length kl'))) (\<lambda>i'.
                 Inr (None, d\<lparr>d_nodes := nodes', d_keyList := kl', d_index := i'\<rparr>))))
           else
             then_do (slice kl 0 (int (length kl) - 1)) (\<lambda>kl'.
               Inr (None, d\<lparr>d_nodes := nodes', d_keyList := kl', d_index := 0\<rparr>))))"

definition UnRegister :: "Node \<Rightarrow> GrpcDispatcher \<Rightarrow> (error option \<times> GrpcDispatcher) go" where
  "UnRegister node d = unRegister (node_key node) d"

definition UnRegisterWithKey :: "string \<Rightarrow> GrpcDispatcher \<Rightarrow> (error option \<times> GrpcDispatcher) go" where
  "UnRegisterWithKey key d = unRegister key d"

definition Ping :: "Node \<Rightarrow> int \<Rightarrow> GrpcDispatcher \<Rightarrow> error option \<times> GrpcDispatcher" where
  "Ping node now d =
     (let key = node_key node in
      case m_load (d_nodes d) key of
        Some _ \<Rightarrow> (None, d\<lparr>d_nodes := m_store key \<lparr>ni_node = node, ni_lastPingTime = now\<rparr> (d_nodes d)\<rparr>)
      | None \<Rightarrow> (Some ''node not exists'', d))"

text \<open>\<open>HealthcheckNode\<close> ranges over the nodes (in any order) and unregisters the silent ones.\<close>

fun health_loop :: "int \<Rightarrow> string list \<Rightarrow> GrpcDispatcher \<Rightarrow> GrpcDispatcher go" where
  "health_loop now [] d = Inr d"
| "health_loop now (k # ks) d =
     (case m_load (d_nodes d) k of
        None \<Rightarrow> health_loop now ks d
      | Some nodeInfo \<Rightarrow>
          if now - ni_lastPingTime nodeInfo > 3 * 60
          then then_do (UnRegister (ni_node nodeInfo) d) (\<lambda>(_, d'). health_loop now ks d')
          else health_loop now ks d)"

definition HealthcheckNode :: "(string list \<Rightarrow> string list) \<Rightarrow> int \<Rightarrow> GrpcDispatcher \<Rightarrow> GrpcDispatcher go" where
  "HealthcheckNode ord now d = health_loop now (ord (m_keys (d_nodes d))) d"

definition SendJob :: "string \<Rightarrow> string \<Rightarrow> int \<Rightarrow> Node \<Rightarrow> GrpcDispatcher \<Rightarrow>
    AlineMessage \<times> GrpcDispatcher" where
  "SendJob name yamlString jobDetailID node d =
     (let msg = (plain_msg MT_EXECUTE (node_Name node) (node_Address node))
            \<lparr>msg_ExecReq := Some \<lparr>er_Name = name, er_PipelineFile = yamlString,
               er_JobDetailId = jobDetailID\<rparr>\<rparr>;
          key = FormatJobToString name jobDetailID in
      case m_load (d_JobNodeMap d) key of
        Some nodes \<Rightarrow> (msg, d\<lparr>d_JobNodeMap := m_store key (nodes @ [node]) (d_JobNodeMap d)\<rparr>)
      | None \<Rightarrow> (msg, d\<lparr>d_JobNodeMap := m_store key [node] (d_JobNodeMap d)\<rparr>))"

definition CancelJobWithNode :: "string \<Rightarrow> int \<Rightarrow> Node \<Rightarrow> AlineMessage" where
  "CancelJobWithNode name jobDetailID node =
     (plain_msg MT_CANCEL (node_Name node) (node_Address node))
       \<lparr>msg_ExecReq := Some \<lparr>er_Name = name, er_PipelineFile = [], er_JobDetailId = jobDetailID\<rparr>\<rparr>"

definition GetJobNode :: "string \<Rightarrow> int \<Rightarrow> GrpcDispatcher \<Rightarrow> Node list" where
  "GetJobNode name jobDetailID d =
     (case m_load (d_JobNodeMap d) (FormatJobToString name jobDetailID) of
        Some nodes \<Rightarrow> nodes | None \<Rightarrow> [])"

definition GetJobLatestNode :: "string \<Rightarrow> int \<Rightarrow> GrpcDispatcher \<Rightarrow> Node res" where
  "GetJobLatestNode name jid d =
     (let nodes = GetJobNode name jid d in
      if length nodes = 0 then Inl ''job node not found'' else Inr (nodes ! (length nodes - 1)))"

definition CancelJob :: "string \<Rightarrow> int \<Rightarrow> GrpcDispatcher \<Rightarrow> AlineMessage res" where
  "CancelJob name jobDetailID d =
     (case GetJobLatestNode name jobDetailID d of
        Inl _ \<Rightarrow> Inl (''job '' @ FormatJobToString name jobDetailID @ '' not found execute node'')
      | Inr node \<Rightarrow> Inr (CancelJobWithNode name jobDetailID node))"

definition GetJobStatus_msg :: "string \<Rightarrow> int \<Rightarrow> GrpcDispatcher \<Rightarrow> AlineMessage res" where
  "GetJobStatus_msg name jid d =
     then_do (GetJobLatestNode name jid d) (\<lambda>node.
       Inr ((plain_msg MT_STATUS (node_Name node) (node_Address node))
         \<lparr>msg_ExecReq := Some \<lparr>er_Name = name, er_PipelineFile = [], er_JobDetailId = jid\<rparr>\<rparr>))"

definition IsValidNode :: "string \<Rightarrow> GrpcDispatcher \<Rightarrow> bool" where
  "IsValidNode n d \<longleftrightarrow> m_load (d_nodes d) n \<noteq> None"

section \<open>Invariant\<close>

text \<open>
  What every operation keeps: the poller has as many slots as there are nodes, its index is a
  slot (or 0), and every node is stored under its own key.
\<close>

definition disp_inv :: "GrpcDispatcher \<Rightarrow> bool" where
  "disp_inv d \<longleftrightarrow>
     m_wf (d_nodes d) \<and> length (d_keyList d) = length (m_keys (d_nodes d)) \<and>
     0 \<le> d_index d \<and> (d_index d = 0 \<or> d_index d < int (length (d_keyList d))) \<and>
     (\<forall>k ni. m_load (d_nodes d) k = Some ni \<longrightarrow> node_key (ni_node ni) = k)"

text \<open>What the poller needs for round robin: its slots are exactly the registered nodes.\<close>

definition poller_ok :: "GrpcDispatcher \<Rightarrow> bool" where
  "poller_ok d \<longleftrightarrow> distinct (d_keyList d) \<and> set (d_keyList d) = set (m_keys (d_nodes d))"

lemma go_rem_nonneg: "0 \<le> a \<Longrightarrow> 0 < b \<Longrightarrow> go_rem a b = Inr (a mod b)"
  by (auto simp: go_rem_def sgn_if)

lemma disp_inv_init: "disp_inv NewGrpcDispatcher" "poller_ok NewGrpcDispatcher"
  by (simp_all add: disp_inv_def poller_ok_def NewGrpcDispatcher_def m_keys_def)

lemma Register_inv [inv_intros]:
  "disp_inv d \<Longrightarrow> Register node now d = (e, d') \<Longrightarrow> disp_inv d'"
  by (auto simp: disp_inv_def Register_def Let_def gm.length_keys_store_new split: option.splits if_splits)

lemma Ping_inv [inv_intros]:
  "disp_inv d \<Longrightarrow> Ping node now d = (e, d') \<Longrightarrow> disp_inv d'"
  by (auto simp: disp_inv_def Ping_def Let_def gm.length_keys_store_old split: option.splits if_splits)

lemma SendJob_frame:
  "SendJob name y jid node d = (msg, d') \<Longrightarrow>
     d_nodes d' = d_nodes d \<and> d_keyList d' = d_keyList d \<and> d_index d' = d_index d"
  by (auto simp: SendJob_def Let_def split: option.splits)

lemma SendJob_inv [inv_intros]: "disp_inv d \<Longrightarrow> SendJob name y jid node d = (msg, d') \<Longrightarrow> disp_inv d'"
  using SendJob_frame [of name y jid node d msg d'] by (auto simp: disp_inv_def)

text \<open>The result of a dispatch, in a state that satisfies the invariant.\<close>

definition next_index :: "GrpcDispatcher \<Rightarrow> int" where
  "next_index d = (d_index d + 1) mod int (length (d_keyList d))"

definition cur_key :: "GrpcDispatcher \<Rightarrow> string" where
  "cur_key d = d_keyList d ! nat (d_index d)"

lemma DispatchNode_eq:
  assumes "disp_inv d" and "d_keyList d \<noteq> []"
  shows "DispatchNode d =
    Inr (case m_load (d_nodes d) (cur_key d) of
           Some ni \<Rightarrow> Inr (ni_node ni) | None \<Rightarrow> Inl ''no node available'',
         d\<lparr>d_index := next_index d\<rparr>)"
proof -
  have "0 \<le> d_index d" "d_index d < int (length (d_keyList d))"
    using assms by (auto simp: disp_inv_def)
  then show ?thesis
    using assms(2)
    by (simp add: DispatchNode_def index_at_def go_rem_nonneg cur_key_def next_index_def Let_def
        split: option.splits)
qed

lemma DispatchNode_inv [inv_intros]:
  "disp_inv d \<Longrightarrow> DispatchNode d = Inr (r, d') \<Longrightarrow> disp_inv d'"
proof (cases "d_keyList d = []")
  case False
  assume d: "disp_inv d" "DispatchNode d = Inr (r, d')"
  have "0 \<le> next_index d \<and> next_index d < int (length (d_keyList d))"
    using False by (simp add: next_index_def)
  with d False show ?thesis by (auto simp: DispatchNode_eq) (simp add: disp_inv_def)
qed (auto simp: DispatchNode_def)

lemma DispatchNode_total: "disp_inv d \<Longrightarrow> \<exists>r d'. DispatchNode d = Inr (r, d')"
  by (cases "d_keyList d = []") (auto simp: DispatchNode_eq, simp add: DispatchNode_def)

text \<open>The slot that \<open>unRegister\<close> removes: the one before the index, cyclically.\<close>

definition removed_slot :: "GrpcDispatcher \<Rightarrow> nat" where
  "removed_slot d =
     (if d_index d \<noteq> 0 then nat (d_index d) - 1 else length (d_keyList d) - 1)"

lemma unRegister_eq:
  assumes "disp_inv d" and "m_load (d_nodes d) key \<noteq> None"
  shows "unRegister key d = Inr (None,
     d\<lparr>d_nodes := m_delete key (d_nodes d),
       d_keyList := take (removed_slot d) (d_keyList d) @ drop (Suc (removed_slot d)) (d_keyList d),
       d_index := (if d_index d = 0 then 0 else d_index d - 1)\<rparr>)"
proof (cases "d_index d = 0")
  case True
  have "key \<in> set (m_keys (d_nodes d))" using assms(2) by (simp add: gm.keys_load)
  then have "0 < length (m_keys (d_nodes d))" by (rule length_pos_if_in_set)
  then have "0 < length (d_keyList d)" using assms(1) by (simp add: disp_inv_def)
  moreover from this have "nat (int (length (d_keyList d)) - 1) = length (d_keyList d) - 1" by linarith
  ultimately show ?thesis
    using True assms(2)
    by (auto simp: unRegister_def Let_def slice_def removed_slot_def)
next
  case False
  with assms(1) have i: "0 < d_index d" "d_index d < int (length (d_keyList d))"
    by (auto simp: disp_inv_def)
  define n where "n = nat (d_index d)"
  have n: "d_index d = int n" "0 < n" "n < length (d_keyList d)" using i by (auto simp: n_def)
  have "slice (d_keyList d) 0 (int n - 1) = Inr (take (n - 1) (d_keyList d))"
    using n by (simp add: slice_def nat_diff_distrib)
  moreover have "slice (d_keyList d) (int n) (int (length (d_keyList d))) = Inr (drop n (d_keyList d))"
    using n by (simp add: slice_def)
  moreover have "go_rem (int n - 1) (int (length (take (n - 1) (d_keyList d) @ drop n (d_keyList d)))) =
      Inr (int n - 1)"
    using n by (subst go_rem_nonneg) auto
  ultimately show ?thesis
    using assms(2) n by (auto simp: unRegister_def Let_def removed_slot_def)
qed

lemma unRegister_unknown:
  "m_load (d_nodes d) key = None \<Longrightarrow> unRegister key d = Inr (Some ''node not exists'', d)"
  by (simp add: unRegister_def)

lemma removed_slot_less:
  "disp_inv d \<Longrightarrow> d_keyList d \<noteq> [] \<Longrightarrow> removed_slot d < length (d_keyList d)"
  by (cases "d_keyList d") (auto simp: disp_inv_def removed_slot_def)

lemma keyList_nonempty:
  "disp_inv d \<Longrightarrow> m_load (d_nodes d) key \<noteq> None \<Longrightarrow> d_keyList d \<noteq> []"
proof -
  assume d: "disp_inv d" and "m_load (d_nodes d) key \<noteq> None"
  then have "key \<in> set (m_keys (d_nodes d))" by (simp add: gm.keys_load)
  then have "0 < length (m_keys (d_nodes d))" by (rule length_pos_if_in_set)
  with d have "0 < length (d_keyList d)" by (simp add: disp_inv_def)
  then show "d_keyList d \<noteq> []" by simp
qed

lemma unRegister_inv [inv_intros]:
  assumes "disp_inv d" and "unRegister key d = Inr (e, d')"
  shows "disp_inv d'"
proof (cases "m_load (d_nodes d) key = None")
  case True
  with assms show ?thesis by (simp add: unRegister_unknown)
next
  case False
  have "Suc (length (m_keys (m_delete key (d_nodes d)))) = length (m_keys (d_nodes d))"
    using assms(1) False by (intro gm.length_keys_remove) (auto simp: disp_inv_def)
  moreover have "removed_slot d < length (d_keyList d)"
    using removed_slot_less keyList_nonempty assms(1) False by blast
  ultimately show ?thesis
    using assms unRegister_eq [OF assms(1) False]
    by (auto simp: disp_inv_def split: if_splits)
qed

lemma unRegister_total: "disp_inv d \<Longrightarrow> \<exists>e d'. unRegister key d = Inr (e, d')"
  by (cases "m_load (d_nodes d) key = None") (auto simp: unRegister_unknown unRegister_eq)

section \<open>Runs of the dispatcher\<close>

datatype disp_op =
    OpDispatch
  | OpRegister Node int
  | OpUnRegister string
  | OpPing Node int
  | OpHealth "string list \<Rightarrow> string list" int
  | OpSendJob string string int Node

fun disp_step :: "disp_op \<Rightarrow> GrpcDispatcher \<Rightarrow> GrpcDispatcher go" where
  "disp_step OpDispatch d = then_do (DispatchNode d) (\<lambda>(r, d'). Inr d')"
| "disp_step (OpRegister n t) d = Inr (snd (Register n t d))"
| "disp_step (OpUnRegister k) d = then_do (unRegister k d) (\<lambda>(r, d'). Inr d')"
| "disp_step (OpPing n t) d = Inr (snd (Ping n t d))"
| "disp_step (OpHealth ord t) d = HealthcheckNode ord t d"
| "disp_step (OpSendJob name y jid n) d = Inr (snd (SendJob name y jid n d))"

fun disp_run :: "disp_op list \<Rightarrow> GrpcDispatcher \<Rightarrow> GrpcDispatcher go" where
  "disp_run [] d = Inr d"
| "disp_run (x # xs) d = then_do (disp_step x d) (disp_run xs)"

definition stale :: "int \<Rightarrow> NodeInfo \<Rightarrow> bool" where
  "stale now ni \<longleftrightarrow> now - ni_lastPingTime ni > 3 * 60"

lemma unRegister_nodes:
  assumes "disp_inv d" and "unRegister key d = Inr (e, d')"
  shows "m_load (d_nodes d') k = (if k = key then None else m_load (d_nodes d) k) \<and>
    d_JobNodeMap d' = d_JobNodeMap d"
proof (cases "m_load (d_nodes d) key = None")
  case False
  with assms show ?thesis using unRegister_eq [OF assms(1) False] by auto
qed (use assms in \<open>auto simp: unRegister_unknown\<close>)

lemma health_loop_spec:
  assumes "disp_inv d" and "distinct ks"
  shows "\<exists>d'. health_loop now ks d = Inr d' \<and> disp_inv d' \<and>
    (\<forall>k. m_load (d_nodes d') k = (case m_load (d_nodes d) k of None \<Rightarrow> None
       | Some ni \<Rightarrow> if k \<in> set ks \<and> stale now ni then None else Some ni))"
  using assms
proof (induction now ks d rule: health_loop.induct)
  case (1 now d)
  then show ?case by (auto split: option.splits)
next
  case (2 now k ks d)
  then have k: "k \<notin> set ks" "distinct ks" by auto
  show ?case
  proof (cases "m_load (d_nodes d) k")
    case None
    with "2.IH"(1) [OF None "2.prems"(1) k(2)] obtain d' where
      "health_loop now ks d = Inr d' \<and> disp_inv d' \<and>
       (\<forall>k. m_load (d_nodes d') k = (case m_load (d_nodes d) k of None \<Rightarrow> None
          | Some ni \<Rightarrow> if k \<in> set ks \<and> stale now ni then None else Some ni))" by blast
    with None show ?thesis by (intro exI [of _ d']) (auto split: option.splits)
  next
    case (Some ni)
    show ?thesis
    proof (cases "stale now ni")
      case True
      have key: "node_key (ni_node ni) = k" using "2.prems"(1) Some by (simp add: disp_inv_def)
      obtain e d1 where u: "unRegister k d = Inr (e, d1)" using unRegister_total "2.prems"(1) by blast
      note n = unRegister_nodes [OF "2.prems"(1) u]
      have "UnRegister (ni_node ni) d = Inr (e, d1)" using u key by (simp add: UnRegister_def)
      moreover from this "2.IH"(2) [OF Some _ _ k(2)] True
      obtain d' where "health_loop now ks d1 = Inr d' \<and> disp_inv d' \<and>
        (\<forall>k. m_load (d_nodes d') k = (case m_load (d_nodes d1) k of None \<Rightarrow> None
          | Some ni \<Rightarrow> if k \<in> set ks \<and> stale now ni then None else Some ni))"
        using unRegister_inv [OF "2.prems"(1) u] by (auto simp: stale_def)
      ultimately show ?thesis
        using Some True n k(1) by (intro exI [of _ d']) (auto simp: stale_def split: option.splits)
    next
      case False
      with "2.IH"(3) [OF Some _ "2.prems"(1) k(2)] obtain d' where
        "health_loop now ks d = Inr d' \<and> disp_inv d' \<and>
         (\<forall>k. m_load (d_nodes d') k = (case m_load (d_nodes d) k of None \<Rightarrow> None
            | Some ni \<Rightarrow> if k \<in> set ks \<and> stale now ni then None else Some ni))"
        by (auto simp: stale_def)
      with Some False show ?thesis
        by (intro exI [of _ d']) (auto simp: stale_def split: option.splits)
    qed
  qed
qed

definition range_ok :: "(string list \<Rightarrow> string list) \<Rightarrow> bool" where
  "range_ok ord \<longleftrightarrow> (\<forall>ks. mset (ord ks) = mset ks)"

lemma HealthcheckNode_spec:
  assumes "disp_inv d" and "range_ok ord"
  shows "\<exists>d'. HealthcheckNode ord now d = Inr d' \<and> disp_inv d' \<and>
    (\<forall>k. m_load (d_nodes d') k = (case m_load (d_nodes d) k of None \<Rightarrow> None
       | Some ni \<Rightarrow> if stale now ni then None else Some ni))"
proof -
  have m: "mset (ord (m_keys (d_nodes d))) = mset (m_keys (d_nodes d))"
    using assms(2) by (simp add: range_ok_def)
  then have "distinct (ord (m_keys (d_nodes d)))"
    using assms(1) gm.wf_distinct by (metis disp_inv_def mset_eq_imp_distinct_iff)
  from health_loop_spec [OF assms(1) this, of now] obtain d' where
    d': "health_loop now (ord (m_keys (d_nodes d))) d = Inr d'" "disp_inv d'"
      "\<And>k. m_load (d_nodes d') k = (case m_load (d_nodes d) k of None \<Rightarrow> None
       | Some ni \<Rightarrow> if k \<in> set (ord (m_keys (d_nodes d))) \<and> stale now ni then None else Some ni)"
    by blast
  moreover have "k \<in> set (ord (m_keys (d_nodes d)))" if "m_load (d_nodes d) k = Some ni" for k ni
    using that m by (metis gm.keys_load mset_eq_setD option.distinct(1))
  ultimately show ?thesis
    unfolding HealthcheckNode_def by (intro exI [of _ d']) (auto split: option.splits)
qed

fun op_ok :: "disp_op \<Rightarrow> bool" where
  "op_ok (OpHealth ord t) = range_ok ord"
| "op_ok _ = True"

lemma disp_step_inv:
  assumes "disp_inv d" and "op_ok x"
  shows "\<exists>d'. disp_step x d = Inr d' \<and> disp_inv d'"
proof (cases x)
  case OpDispatch
  obtain r d' where "DispatchNode d = Inr (r, d')" using DispatchNode_total assms(1) by blast
  with DispatchNode_inv [OF assms(1) this] OpDispatch show ?thesis by simp
next
  case (OpUnRegister k)
  obtain e d' where "unRegister k d = Inr (e, d')" using unRegister_total assms(1) by blast
  with unRegister_inv [OF assms(1) this] OpUnRegister show ?thesis by simp
next
  case (OpHealth ord t)
  with HealthcheckNode_spec [OF assms(1), of ord t] assms(2) show ?thesis by auto
next
  case (OpRegister n t)
  with Register_inv [OF assms(1) surjective_pairing] show ?thesis by simp
next
  case (OpPing n t)
  with Ping_inv [OF assms(1) surjective_pairing] show ?thesis by simp
next
  case (OpSendJob name y jid n)
  with SendJob_inv [OF assms(1) surjective_pairing] show ?thesis by simp
qed

text \<open>
  C3. No sequence of dispatcher operations started from a new dispatcher panics: every slice
  and remainder in \<open>DispatchNode\<close> and \<open>unRegister\<close> is in range, and the poller always has as many
  slots as there are registered nodes.
\<close>

theorem dispatcher_never_panics:
  assumes "list_all op_ok ops"
  shows "\<exists>d. disp_run ops NewGrpcDispatcher = Inr d \<and>
    length (d_keyList d) = length (m_keys (d_nodes d)) \<and> 0 \<le> d_index d \<and>
    (d_index d = 0 \<or> d_index d < int (length (d_keyList d)))"
proof -
  have "disp_inv d0 \<Longrightarrow> list_all op_ok ops \<Longrightarrow> \<exists>d. disp_run ops d0 = Inr d \<and> disp_inv d" for d0
  proof (induction ops arbitrary: d0)
    case (Cons x ops)
    then obtain d1 where "disp_step x d0 = Inr d1" "disp_inv d1"
      using disp_step_inv [of d0 x] by auto
    with Cons show ?case by simp
  qed simp
  from this [OF disp_inv_init(1) assms] show ?thesis by (auto simp: disp_inv_def)
qed

definition node_a :: Node where "node_a = \<lparr>node_Name = ''a'', node_Address = ''10.0.0.1''\<rparr>"
definition node_b :: Node where "node_b = \<lparr>node_Name = ''b'', node_Address = ''10.0.0.2''\<rparr>"

theorem dispatcher_never_panics_witness:
  "\<exists>d. disp_run [OpRegister node_a 0, OpRegister node_b 5, OpDispatch,
      OpUnRegister (node_key node_b), OpHealth rev 500, OpDispatch] NewGrpcDispatcher = Inr d"
  using dispatcher_never_panics [of "[OpRegister node_a 0, OpRegister node_b 5, OpDispatch,
      OpUnRegister (node_key node_b), OpHealth rev 500, OpDispatch]"]
  by (auto simp: range_ok_def)

text \<open>
  C6. A health check removes exactly the nodes whose last ping is more than three minutes old,
  whatever the order of the range, and keeps the record of every other node.
\<close>

theorem HealthcheckNode_exact:
  assumes "disp_inv d" and "range_ok ord"
  shows "\<exists>d'. HealthcheckNode ord now d = Inr d' \<and>
    (\<forall>k. m_load (d_nodes d') k = (case m_load (d_nodes d) k of None \<Rightarrow> None
       | Some ni \<Rightarrow> if now - ni_lastPingTime ni > 180 then None else Some ni))"
  using HealthcheckNode_spec [OF assms, of now] by (auto simp: stale_def cong: option.case_cong)

definition disp_ab :: GrpcDispatcher where
  "disp_ab = snd (Register node_b 100 (snd (Register node_a 0 NewGrpcDispatcher)))"

lemma disp_ab_inv: "disp_inv disp_ab"
  unfolding disp_ab_def using disp_inv_init(1) Register_inv by (metis prod.collapse)

lemma disp_ab_poller: "poller_ok disp_ab"
  by code_simp

theorem HealthcheckNode_exact_witness:
  "\<exists>d'. HealthcheckNode rev 200 disp_ab = Inr d' \<and>
     m_load (d_nodes d') (node_key node_a) = None \<and> m_load (d_nodes d') (node_key node_b) \<noteq> None"
proof -
  have "m_load (d_nodes disp_ab) (node_key node_a) = Some \<lparr>ni_node = node_a, ni_lastPingTime = 0\<rparr>"
    "m_load (d_nodes disp_ab) (node_key node_b) = Some \<lparr>ni_node = node_b, ni_lastPingTime = 100\<rparr>"
    by code_simp+
  then show ?thesis
    using HealthcheckNode_exact [OF disp_ab_inv, of rev 200] by (fastforce simp: range_ok_def)
qed

section \<open>Round robin and unregistration\<close>

text \<open>The node a registered key stands for.\<close>

definition node_of :: "GrpcDispatcher \<Rightarrow> string \<Rightarrow> Node" where
  "node_of d k = (case m_load (d_nodes d) k of Some ni \<Rightarrow> ni_node ni
     | None \<Rightarrow> \<lparr>node_Name = [], node_Address = []\<rparr>)"

fun dispatch_n :: "nat \<Rightarrow> GrpcDispatcher \<Rightarrow> (Node res list \<times> GrpcDispatcher) go" where
  "dispatch_n 0 d = Inr ([], d)"
| "dispatch_n (Suc n) d = then_do (DispatchNode d) (\<lambda>(r, d').
     then_do (dispatch_n n d') (\<lambda>(rs, d''). Inr (r # rs, d'')))"

lemma poller_ok_node:
  assumes "poller_ok d" and "i < length (d_keyList d)"
  obtains ni where "m_load (d_nodes d) (d_keyList d ! i) = Some ni"
  using assms by (metis gm.keys_load not_None_eq nth_mem poller_ok_def)

lemma DispatchNode_poller:
  assumes "disp_inv d" and "poller_ok d" and "d_keyList d \<noteq> []"
  shows "DispatchNode d = Inr (Inr (node_of d (cur_key d)), d\<lparr>d_index := next_index d\<rparr>)"
proof -
  have "nat (d_index d) < length (d_keyList d)" using assms by (auto simp: disp_inv_def)
  then obtain ni where "m_load (d_nodes d) (cur_key d) = Some ni"
    unfolding cur_key_def using poller_ok_node assms(2) by blast
  then show ?thesis using DispatchNode_eq [OF assms(1,3)] by (simp add: node_of_def)
qed

lemma dispatch_n_eq:
  assumes "disp_inv d" and "poller_ok d" and "d_keyList d \<noteq> []"
  shows "dispatch_n n d = Inr
    (map (\<lambda>i. Inr (node_of d (d_keyList d ! ((nat (d_index d) + i) mod length (d_keyList d))))) [0..<n],
     d\<lparr>d_index := int ((nat (d_index d) + n) mod length (d_keyList d))\<rparr>)"
  using assms
proof (induction n arbitrary: d)
  case 0
  then have "nat (d_index d) < length (d_keyList d)" "0 \<le> d_index d" by (auto simp: disp_inv_def)
  then show ?case by simp
next
  case (Suc n)
  let ?L = "length (d_keyList d)"
  define d1 where "d1 = d\<lparr>d_index := next_index d\<rparr>"
  have i: "nat (d_index d) < ?L" "0 \<le> d_index d" using Suc.prems by (auto simp: disp_inv_def)
  have step: "DispatchNode d = Inr (Inr (node_of d (cur_key d)), d1)"
    using DispatchNode_poller [OF Suc.prems] by (simp add: d1_def)
  have "disp_inv d1" using DispatchNode_inv [OF Suc.prems(1) step] .
  moreover have "poller_ok d1" "d_keyList d1 \<noteq> []" using Suc.prems by (simp_all add: d1_def poller_ok_def)
  moreover have "nat (d_index d1) = Suc (nat (d_index d)) mod ?L"
    using i by (simp add: d1_def next_index_def nat_mod_distrib nat_add_distrib)
  moreover have "node_of d1 = node_of d" by (rule ext) (simp add: node_of_def d1_def)
  ultimately show ?case
    using Suc.IH [of d1] step i
    by (simp add: cur_key_def map_upt_Suc mod_add_left_eq d1_def del: upt_Suc)
qed

text \<open>
  C4. When the poller's slots are the registered nodes, as many dispatches as there are nodes
  pick every node exactly once, in slot order from the current slot, and end in the same state.
\<close>

theorem round_robin:
  assumes "disp_inv d" and "poller_ok d" and "d_keyList d \<noteq> []"
  shows "dispatch_n (length (d_keyList d)) d =
      Inr (map (\<lambda>k. Inr (node_of d k)) (rotate (nat (d_index d)) (d_keyList d)), d) \<and>
    mset (rotate (nat (d_index d)) (d_keyList d)) = mset (m_keys (d_nodes d))"
proof (intro conjI)
  have i: "nat (d_index d) < length (d_keyList d)" "0 \<le> d_index d"
    using assms by (auto simp: disp_inv_def)
  have "map (\<lambda>i. Inr (node_of d (d_keyList d ! ((nat (d_index d) + i) mod length (d_keyList d)))))
      [0..<length (d_keyList d)] =
    map (\<lambda>k. Inr (node_of d k)) (rotate (nat (d_index d)) (d_keyList d))"
    by (rule nth_equalityI) (simp_all add: nth_rotate)
  with dispatch_n_eq [OF assms, of "length (d_keyList d)"] i
  show "dispatch_n (length (d_keyList d)) d =
      Inr (map (\<lambda>k. Inr (node_of d k)) (rotate (nat (d_index d)) (d_keyList d)), d)"
    by simp
  have "distinct (m_keys (d_nodes d))" using assms(1) gm.wf_distinct by (auto simp: disp_inv_def)
  then show "mset (rotate (nat (d_index d)) (d_keyList d)) = mset (m_keys (d_nodes d))"
    using assms(2) unfolding poller_ok_def
    by (metis distinct_rotate set_eq_iff_mset_eq_distinct set_rotate)
qed

lemma disp_ab_keys: "d_keyList disp_ab = [node_key node_a, node_key node_b]" "d_index disp_ab = 0"
  by code_simp+

theorem round_robin_witness:
  "dispatch_n 2 disp_ab = Inr ([Inr (node_of disp_ab (node_key node_a)),
     Inr (node_of disp_ab (node_key node_b))], disp_ab)"
  using round_robin [OF disp_ab_inv disp_ab_poller] by (simp add: disp_ab_keys numeral_2_eq_2)

lemma Register_poller:
  "poller_ok d \<Longrightarrow> Register node now d = (e, d') \<Longrightarrow> poller_ok d'"
  by (auto simp: poller_ok_def Register_def Let_def gm.set_keys_store gm.keys_load split: option.splits)

lemma Ping_poller: "poller_ok d \<Longrightarrow> Ping node now d = (e, d') \<Longrightarrow> poller_ok d'"
  by (auto simp: poller_ok_def Ping_def Let_def gm.set_keys_store gm.keys_load split: option.splits)

lemma DispatchNode_keeps_poller:
  "disp_inv d \<Longrightarrow> poller_ok d \<Longrightarrow> DispatchNode d = Inr (r, d') \<Longrightarrow> poller_ok d'"
  by (cases "d_keyList d = []") (auto simp: DispatchNode_eq poller_ok_def, auto simp: DispatchNode_def)

lemma take_drop_distinct_set:
  "distinct xs \<Longrightarrow> i < length xs \<Longrightarrow>
     set (take i xs @ drop (Suc i) xs) = set xs - {xs ! i} \<and> distinct (take i xs @ drop (Suc i) xs)"
proof -
  assume d: "distinct xs" and i: "i < length xs"
  have xs: "xs = take i xs @ xs ! i # drop (Suc i) xs" using i by (rule id_take_nth_drop)
  with d have "distinct (take i xs @ xs ! i # drop (Suc i) xs)" by simp
  moreover have "set xs = set (take i xs @ xs ! i # drop (Suc i) xs)" using xs by simp
  ultimately show ?thesis by auto
qed

lemma unRegister_poller_iff:
  assumes "disp_inv d" and "poller_ok d" and "m_load (d_nodes d) key \<noteq> None"
    and "unRegister key d = Inr (e, d')"
  shows "(poller_ok d' \<longleftrightarrow> d_keyList d ! removed_slot d = key) \<and>
    set (d_keyList d') = set (d_keyList d) - {d_keyList d ! removed_slot d}"
proof -
  have i: "removed_slot d < length (d_keyList d)"
    using removed_slot_less keyList_nonempty assms(1,3) by blast
  have ks: "d_keyList d' = take (removed_slot d) (d_keyList d) @ drop (Suc (removed_slot d)) (d_keyList d)"
    "d_nodes d' = m_delete key (d_nodes d)"
    using unRegister_eq [OF assms(1,3)] assms(4) by auto
  have S: "set (d_keyList d') = set (d_keyList d) - {d_keyList d ! removed_slot d}"
    "distinct (d_keyList d')"
    using take_drop_distinct_set [OF _ i] assms(2) unfolding ks poller_ok_def by blast+
  have key: "key \<in> set (d_keyList d)" using assms(2,3) by (simp add: poller_ok_def gm.keys_load)
  have "set (m_keys (d_nodes d')) = set (d_keyList d) - {key}"
    using assms(2) by (simp add: ks gm.set_keys_remove poller_ok_def)
  then have "poller_ok d' \<longleftrightarrow> set (d_keyList d) - {d_keyList d ! removed_slot d} = set (d_keyList d) - {key}"
    using S by (simp add: poller_ok_def)
  also have "\<dots> \<longleftrightarrow> d_keyList d ! removed_slot d = key" using key nth_mem [OF i] by blast
  finally show ?thesis using S by simp
qed

text \<open>
  Unregistering the node that was dispatched last (what the master does when sending a job
  to it fails) removes that node from the registry and from the poller, and the poller's slots
  are again exactly the registered nodes.
\<close>

theorem unregister_last_dispatched:
  assumes "disp_inv d" and "poller_ok d" and "d_keyList d \<noteq> []"
    and "DispatchNode d = Inr (Inr node, d1)" and "unRegister (node_key node) d1 = Inr (e, d2)"
  shows "e = None \<and> poller_ok d2 \<and> \<not> IsValidNode (node_key node) d2 \<and>
    set (d_keyList d2) = set (d_keyList d) - {node_key node}"
proof -
  let ?L = "length (d_keyList d)"
  have i: "nat (d_index d) < ?L" "0 \<le> d_index d" using assms(1,3) by (auto simp: disp_inv_def)
  have node: "node = node_of d (cur_key d)" and d1: "d1 = d\<lparr>d_index := next_index d\<rparr>"
    using DispatchNode_poller [OF assms(1-3)] assms(4) by auto
  obtain ni where ni: "m_load (d_nodes d) (cur_key d) = Some ni"
    unfolding cur_key_def using poller_ok_node assms(2) i(1) by blast
  have k: "node_key node = cur_key d"
    using assms(1) ni by (auto simp: node node_of_def disp_inv_def)
  have inv1: "disp_inv d1" and ok1: "poller_ok d1"
    using DispatchNode_inv DispatchNode_keeps_poller assms(1,2,4) by blast+
  have "removed_slot d1 = nat (d_index d)"
  proof (cases "nat (d_index d) = ?L - 1")
    case True
    then have "d_index d + 1 = int ?L" using i by linarith
    then show ?thesis using True by (simp add: removed_slot_def d1 next_index_def)
  next
    case False
    then have "(d_index d + 1) mod int ?L = d_index d + 1" using i by (intro mod_pos_pos_trivial) linarith+
    then show ?thesis using i by (simp add: removed_slot_def d1 next_index_def nat_add_distrib)
  qed
  then have slot: "d_keyList d1 ! removed_slot d1 = node_key node" by (simp add: k cur_key_def d1)
  have m: "m_load (d_nodes d1) (node_key node) \<noteq> None" using ni k by (simp add: d1)
  have "e = None" using unRegister_eq [OF inv1 m] assms(5) by auto
  moreover have "\<not> IsValidNode (node_key node) d2"
    using unRegister_nodes [OF inv1 assms(5)] by (simp add: IsValidNode_def)
  moreover have "set (d_keyList d2) = set (d_keyList d) - {node_key node}" "poller_ok d2"
    using unRegister_poller_iff [OF inv1 ok1 m assms(5)] slot by (auto simp: d1)
  ultimately show ?thesis by simp
qed

theorem unregister_last_dispatched_witness:
  "\<exists>d1 d2 e. DispatchNode disp_ab = Inr (Inr node_a, d1) \<and>
     unRegister (node_key node_a) d1 = Inr (e, d2) \<and> poller_ok d2"
proof -
  have "node_of disp_ab (cur_key disp_ab) = node_a" by code_simp
  then have 1: "DispatchNode disp_ab = Inr (Inr node_a, disp_ab\<lparr>d_index := next_index disp_ab\<rparr>)"
    using DispatchNode_poller [OF disp_ab_inv disp_ab_poller] by (simp add: disp_ab_keys)
  obtain e d2 where 2: "unRegister (node_key node_a) (disp_ab\<lparr>d_index := next_index disp_ab\<rparr>) = Inr (e, d2)"
    using unRegister_total DispatchNode_inv [OF disp_ab_inv 1] by blast
  from unregister_last_dispatched [OF disp_ab_inv disp_ab_poller _ 1 2] 1 2
  show ?thesis by (auto simp: disp_ab_keys)
qed

text \<open>
  C5. Unregistering any other node drops the wrong slot: the poller keeps a key that is no longer
  registered, whose turn fails with "no node available", and loses a node that is still
  registered, which is never dispatched again while its key is not added back.
\<close>

theorem unregister_other_drops_wrong_slot:
  assumes "disp_inv d" and "poller_ok d" and "IsValidNode key d"
    and "d_keyList d ! removed_slot d \<noteq> key" and "unRegister key d = Inr (e, d')"
  shows "e = None \<and> key \<in> set (d_keyList d') \<and> \<not> IsValidNode key d' \<and>
    IsValidNode (d_keyList d ! removed_slot d) d' \<and>
    d_keyList d ! removed_slot d \<notin> set (d_keyList d')"
proof -
  have m: "m_load (d_nodes d) key \<noteq> None" using assms(3) by (simp add: IsValidNode_def)
  have i: "removed_slot d < length (d_keyList d)"
    using removed_slot_less keyList_nonempty assms(1) m by blast
  have "key \<in> set (d_keyList d)" using assms(2) m by (simp add: poller_ok_def gm.keys_load)
  moreover obtain ni where "m_load (d_nodes d) (d_keyList d ! removed_slot d) = Some ni"
    using poller_ok_node [OF assms(2) i] .
  moreover have "e = None" using unRegister_eq [OF assms(1) m] assms(5) by auto
  ultimately show ?thesis
    using unRegister_poller_iff [OF assms(1,2) m assms(5)] unRegister_nodes [OF assms(1,5)] assms(4)
    by (auto simp: IsValidNode_def)
qed

theorem unregister_other_drops_wrong_slot_witness:
  "\<exists>d' e. unRegister (node_key node_a) disp_ab = Inr (e, d') \<and>
     node_key node_a \<in> set (d_keyList d') \<and> node_key node_b \<notin> set (d_keyList d') \<and>
     IsValidNode (node_key node_b) d'"
proof -
  obtain e d' where u: "unRegister (node_key node_a) disp_ab = Inr (e, d')"
    using unRegister_total disp_ab_inv by blast
  have s: "d_keyList disp_ab ! removed_slot disp_ab = node_key node_b"
    by (simp add: disp_ab_keys removed_slot_def)
  have "IsValidNode (node_key node_a) disp_ab" "node_key node_b \<noteq> node_key node_a" by code_simp+
  with unregister_other_drops_wrong_slot [OF disp_ab_inv disp_ab_poller _ _ u] s u
  show ?thesis by auto
qed

section \<open>The record of where jobs ran\<close>

lemma SendJob_JobNode:
  "SendJob name y jid node d = (msg, d') \<Longrightarrow>
     GetJobNode n i d' = (if n = name \<and> i = jid then GetJobNode n i d @ [node] else GetJobNode n i d)"
  by (auto simp: SendJob_def GetJobNode_def Let_def split: option.splits)

fun send_all :: "(string \<times> string \<times> int \<times> Node) list \<Rightarrow> GrpcDispatcher \<Rightarrow> GrpcDispatcher" where
  "send_all [] d = d"
| "send_all ((name, y, jid, node) # xs) d = send_all xs (snd (SendJob name y jid node d))"

lemma send_all_JobNode:
  "GetJobNode n i (send_all xs d) = GetJobNode n i d @
     map (\<lambda>(_, _, _, node). node) (filter (\<lambda>(name, _, jid, _). name = n \<and> jid = i) xs)"
proof (induction xs d rule: send_all.induct)
  case (2 name y jid node xs d)
  have "GetJobNode n i (snd (SendJob name y jid node d)) =
      (if n = name \<and> i = jid then GetJobNode n i d @ [node] else GetJobNode n i d)"
    by (rule SendJob_JobNode) (rule surjective_pairing)
  with 2 show ?case by auto
qed simp

text \<open>
  C7. After any sequence of sends, cancelling a job, or asking for its status, addresses the node
  the job was sent to last; a job that was never sent is reported as an error.
\<close>

theorem cancel_targets_latest_node:
  "case rev (filter (\<lambda>(name, _, jid, _). name = n \<and> jid = i) xs) of
     [] \<Rightarrow> CancelJob n i (send_all xs NewGrpcDispatcher) =
         Inl (''job '' @ FormatJobToString n i @ '' not found execute node'') \<and>
       GetJobStatus_msg n i (send_all xs NewGrpcDispatcher) = Inl ''job node not found''
   | (_, _, _, node) # _ \<Rightarrow>
       CancelJob n i (send_all xs NewGrpcDispatcher) = Inr (CancelJobWithNode n i node) \<and>
       (\<exists>msg. GetJobStatus_msg n i (send_all xs NewGrpcDispatcher) = Inr msg \<and>
         msg_Type msg = MT_STATUS \<and> msg_Name msg = node_Name node \<and>
         msg_Address msg = node_Address node)"
proof -
  let ?f = "filter (\<lambda>(name, _, jid, _). name = n \<and> jid = i) xs"
  have g: "GetJobNode n i (send_all xs NewGrpcDispatcher) = map (\<lambda>(_, _, _, node). node) ?f"
    by (simp add: send_all_JobNode) (simp add: GetJobNode_def NewGrpcDispatcher_def)
  show ?thesis
  proof (cases ?f rule: rev_cases)
    case Nil
    with g show ?thesis by (simp add: CancelJob_def GetJobStatus_msg_def GetJobLatestNode_def)
  next
    case (snoc ys y)
    obtain a b c node where y: "y = (a, b, c, node)" by (metis prod_cases4)
    then have "GetJobLatestNode n i (send_all xs NewGrpcDispatcher) = Inr node"
      using g snoc by (simp add: GetJobLatestNode_def Let_def nth_append)
    with snoc y show ?thesis by (simp add: CancelJob_def GetJobStatus_msg_def)
  qed
qed

section \<open>The interface IDispatcher\<close>

text \<open>
  What the master relies on.  \<open>valid\<close> is \<open>IsValidNode\<close>; \<open>latest\<close> is the node a cancellation is
  addressed to; \<open>ok\<close> is the invariant of the implementation.
\<close>

locale node_dispatcher =
  fixes dispatch :: "'d \<Rightarrow> (Node res \<times> 'd) go"
    and register :: "Node \<Rightarrow> int \<Rightarrow> 'd \<Rightarrow> error option \<times> 'd"
    and unregister_key :: "string \<Rightarrow> 'd \<Rightarrow> (error option \<times> 'd) go"
    and send_job :: "string \<Rightarrow> string \<Rightarrow> int \<Rightarrow> Node \<Rightarrow> 'd \<Rightarrow> AlineMessage \<times> 'd"
    and latest :: "string \<Rightarrow> int \<Rightarrow> 'd \<Rightarrow> Node res"
    and valid :: "string \<Rightarrow> 'd \<Rightarrow> bool"
    and ok :: "'d \<Rightarrow> bool"
  assumes dispatch_total: "ok d \<Longrightarrow> \<exists>r d'. dispatch d = Inr (r, d') \<and> ok d'"
    and dispatch_valid: "ok d \<Longrightarrow> dispatch d = Inr (Inr node, d') \<Longrightarrow> valid (node_key node) d"
    and dispatch_frame: "ok d \<Longrightarrow> dispatch d = Inr (r, d') \<Longrightarrow>
          valid k d' = valid k d \<and> latest n i d' = latest n i d"
    and register_ok: "ok d \<Longrightarrow> register node now d = (e, d') \<Longrightarrow> ok d'"
    and register_valid: "ok d \<Longrightarrow> register node now d = (e, d') \<Longrightarrow>
          valid k d' = (k = node_key node \<or> valid k d)"
    and unregister_total: "ok d \<Longrightarrow> \<exists>e d'. unregister_key k d = Inr (e, d') \<and> ok d'"
    and unregister_valid: "ok d \<Longrightarrow> unregister_key k d = Inr (e, d') \<Longrightarrow>
          valid k' d' = (k' \<noteq> k \<and> valid k' d)"
    and send_ok: "ok d \<Longrightarrow> send_job n y i node d = (msg, d') \<Longrightarrow> ok d'"
    and send_frame: "send_job n y i node d = (msg, d') \<Longrightarrow> valid k d' = valid k d"
    and send_latest: "send_job n y i node d = (msg, d') \<Longrightarrow>
          latest m j d' = (if m = n \<and> j = i then Inr node else latest m j d)"
    and send_msg: "send_job n y i node d = (msg, d') \<Longrightarrow>
          msg_Type msg = MT_EXECUTE \<and> msg_Name msg = node_Name node \<and>
          msg_Address msg = node_Address node \<and>
          msg_ExecReq msg = Some \<lparr>er_Name = n, er_PipelineFile = y, er_JobDetailId = i\<rparr>"
begin

lemma dispatch_cases:
  assumes "ok d"
  obtains (node) node d' where "dispatch d = Inr (Inr node, d')" "ok d'" "valid (node_key node) d'"
  | (fail) e d' where "dispatch d = Inr (Inl e, d')" "ok d'"
proof -
  obtain r d' where r: "dispatch d = Inr (r, d')" "ok d'" using dispatch_total [OF assms] by blast
  show ?thesis
  proof (cases r)
    case (Inr n)
    then show ?thesis using r node dispatch_valid [OF assms] dispatch_frame [OF assms r(1)] by blast
  qed (use r fail in blast)
qed

lemma redispatch_avoids:
  assumes "ok d" and "unregister_key k d = Inr (e, d1)" and "dispatch d1 = Inr (Inr node, d2)"
  shows "node_key node \<noteq> k"
proof -
  have "ok d1" using unregister_total [OF assms(1), of k] assms(2) by auto
  from dispatch_valid [OF this assms(3)] unregister_valid [OF assms(1,2)] show ?thesis by blast
qed

end

lemma DispatchNode_valid:
  assumes "disp_inv d" and "DispatchNode d = Inr (Inr node, d')"
  shows "IsValidNode (node_key node) d"
proof -
  have "d_keyList d \<noteq> []" using assms(2) by (auto simp: DispatchNode_def)
  from DispatchNode_eq [OF assms(1) this] assms(2) obtain ni
    where "m_load (d_nodes d) (cur_key d) = Some ni" "node = ni_node ni"
    by (auto split: option.splits)
  then show ?thesis using assms(1) by (auto simp: disp_inv_def IsValidNode_def)
qed

lemma DispatchNode_frame:
  "disp_inv d \<Longrightarrow> DispatchNode d = Inr (r, d') \<Longrightarrow>
     d_nodes d' = d_nodes d \<and> d_JobNodeMap d' = d_JobNodeMap d"
  by (cases "d_keyList d = []") (auto simp: DispatchNode_eq, auto simp: DispatchNode_def)

interpretation gd: node_dispatcher DispatchNode Register unRegister SendJob GetJobLatestNode
  IsValidNode disp_inv
proof (unfold_locales, goal_cases)
  case (1 d)
  obtain r d' where "DispatchNode d = Inr (r, d')" using DispatchNode_total [OF 1] by blast
  with DispatchNode_inv [OF 1 this] show ?case by blast
next
  case (2 d node d')
  then show ?case by (rule DispatchNode_valid)
next
  case (3 d r d' k n i)
  then show ?case
    using DispatchNode_frame [of d r d'] by (simp add: IsValidNode_def GetJobLatestNode_def GetJobNode_def)
next
  case (4 d node now e d')
  then show ?case by (rule Register_inv)
next
  case (5 d node now e d' k)
  then show ?case by (auto simp: Register_def IsValidNode_def Let_def split: option.splits)
next
  case (6 d k)
  obtain e d' where "unRegister k d = Inr (e, d')" using unRegister_total [OF 6] by blast
  with unRegister_inv [OF 6 this] show ?case by blast
next
  case (7 d k e d' k')
  then show ?case using unRegister_nodes [of d k e d' k'] by (simp add: IsValidNode_def)
next
  case (8 d n y i node msg d')
  then show ?case by (rule SendJob_inv)
next
  case (9 n y i node d msg d' k)
  then show ?case using SendJob_frame [of n y i node d msg d'] by (simp add: IsValidNode_def)
next
  case (10 n y i node d msg d' m j)
  then show ?case using SendJob_JobNode [of n y i node d msg d' m j]
    by (auto simp: GetJobLatestNode_def Let_def nth_append)
next
  case (11 n y i node d msg d')
  then show ?case by (auto simp: SendJob_def Let_def split: option.splits)
qed

end
