(* ===== verification/Aptos.thy ===== *)
theory Aptos
  imports Utils
begin

text \<open>
  \<open>utils/aptos.go\<close>: the \<open>key=value,key=value\<close> notation of Move named addresses, its two parsers,
  its printer and the default addresses of a package, with the round trip of printer and parsers.
  Decoding TOML (a third-party package) is the caller's: the functions take the decoded addresses.
\<close>

record KeyValue =
  kv_Key :: string
  kv_Value :: string

definition mk_kv :: "string \<times> string \<Rightarrow> KeyValue" where
  "mk_kv e = \<lparr>kv_Key = fst e, kv_Value = snd e\<rparr>"

text \<open>\<open>MoveToml.GetAddressField\<close>: the addresses in the order Go ranges over the map.\<close>

definition GetAddressField :: "(string list \<Rightarrow> string list) \<Rightarrow> (string, string) gomap \<Rightarrow> KeyValue list" where
  "GetAddressField ord addresses =
     map (\<lambda>k. mk_kv (k, case m_load addresses k of None \<Rightarrow> [] | Some v \<Rightarrow> v)) (ord (m_keys addresses))"

fun key_values_map_loop :: "string \<Rightarrow> string list \<Rightarrow> (string, string) gomap \<Rightarrow>
    (string, string) gomap res" where
  "key_values_map_loop all [] result = Inr result"
| "key_values_map_loop all (kv # kvs) result =
     (let arr = Split kv ''='' in
      if length arr \<noteq> 2 then Inl (''keyValueString format error: '' @ all)
      else key_values_map_loop all kvs
             (m_store (TrimSpace (arr ! 0)) (TrimSpace (arr ! 1)) result))"

definition GetKeyValuesFromString :: "string \<Rightarrow> (string, string) gomap res" where
  "GetKeyValuesFromString s = key_values_map_loop s (Split s '','') []"

definition KeyValuesToString :: "KeyValue list \<Rightarrow> string" where
  "KeyValuesToString kvs =
     TrimRight (foldl (\<lambda>result kv. result @ kv_Key kv @ ''='' @ kv_Value kv @ '','') [] kvs) '',''"

fun key_values_list_loop :: "string \<Rightarrow> string list \<Rightarrow> KeyValue list \<Rightarrow> KeyValue list res" where
  "key_values_list_loop all [] result = Inr result"
| "key_values_list_loop all (kv # kvs) result =
     (let arr = Split kv ''='' in
      if length arr \<noteq> 2 then Inl (''keyValueString format error: '' @ all)
      else key_values_list_loop all kvs
             (result @ [\<lparr>kv_Key = TrimSpace (arr ! 0), kv_Value = TrimSpace (arr ! 1)\<rparr>]))"

definition KeyValuesFromString :: "string \<Rightarrow> KeyValue list res" where
  "KeyValuesFromString s = key_values_list_loop s (Split s '','') []"

text \<open>\<open>GetDefaultNamedAddress\<close> after the file is decoded.\<close>

fun default_address_loop :: "string list \<Rightarrow> string \<Rightarrow> string" where
  "default_address_loop [] acc = acc"
| "default_address_loop (s # ss) acc =
     default_address_loop ss
       (if length acc = 0 then acc @ s @ ''=default'' else acc @ '','' @ s @ ''=default'')"

definition GetDefaultNamedAddress ::
    "(string list \<Rightarrow> string list) \<Rightarrow> (string, string) gomap res \<Rightarrow> string res" where
  "GetDefaultNamedAddress ord parsed =
     then_do parsed (\<lambda>addresses.
       let list = filter (\<lambda>k. m_load addresses k = Some ''_'') (ord (m_keys addresses)) in
       if length list = 0 then Inr [] else Inr (default_address_loop list []))"

text \<open>\<open>hex.EncodeToString\<close> of a file's bytes.\<close>

definition hex_digit :: "nat \<Rightarrow> char" where
  "hex_digit d = (if d < 10 then char_of (48 + d) else char_of (87 + d))"

definition FileToHexString :: "string res \<Rightarrow> string res" where
  "FileToHexString file =
     then_do file (\<lambda>data. Inr (concat (map (\<lambda>c. let n = of_char c :: nat in
        [hex_digit (n div 16), hex_digit (n mod 16)]) data)))"

section \<open>Round trips\<close>

text \<open>Text that survives the notation: no separators, no white space at either end.\<close>

definition plain_token :: "string \<Rightarrow> bool" where
  "plain_token s \<longleftrightarrow> CHR '','' \<notin> set s \<and> CHR ''='' \<notin> set s \<and>
     (s \<noteq> [] \<longrightarrow> \<not> is_space (hd s) \<and> \<not> is_space (last s))"

definition plain_kv :: "KeyValue \<Rightarrow> bool" where
  "plain_kv kv \<longleftrightarrow> plain_token (kv_Key kv) \<and> plain_token (kv_Value kv)"

lemma dropWhile_hd: "xs \<noteq> [] \<Longrightarrow> \<not> P (hd xs) \<Longrightarrow> dropWhile P xs = xs"
  by (cases xs) auto

lemma TrimSpace_plain [simp]: "plain_token s \<Longrightarrow> TrimSpace s = s"
  by (cases "s = []") (auto simp: plain_token_def TrimSpace_def dropWhile_hd hd_rev)

definition kv_text :: "KeyValue \<Rightarrow> string" where
  "kv_text kv = kv_Key kv @ ''='' @ kv_Value kv"

lemma Split_kv_text [simp]:
  "plain_kv kv \<Longrightarrow> Split (kv_text kv) ''='' = [kv_Key kv, kv_Value kv]"
  by (simp add: plain_kv_def plain_token_def kv_text_def)

lemma kv_text_no_comma: "plain_kv kv \<Longrightarrow> CHR '','' \<notin> set (kv_text kv)"
  by (auto simp: plain_kv_def plain_token_def kv_text_def)

lemma kv_text_nonempty [simp]: "kv_text kv \<noteq> []"
  by (simp add: kv_text_def)

lemma foldl_kv_text:
  "foldl (\<lambda>r kv. r @ kv_Key kv @ ''='' @ kv_Value kv @ '','') acc kvs =
     acc @ concat (map (\<lambda>kv. kv_text kv @ '','') kvs)"
  by (induction kvs arbitrary: acc) (simp_all add: kv_text_def)

lemma concat_sep_Join:
  "xs \<noteq> [] \<Longrightarrow> concat (map (\<lambda>x. f x @ sep) xs) = Join (map f xs) sep @ sep"
proof (induction xs)
  case (Cons a xs)
  then show ?case by (cases xs) (auto simp: Join_Cons)
qed simp

lemma last_Join:
  "xs \<noteq> [] \<Longrightarrow> (\<And>x. x \<in> set xs \<Longrightarrow> x \<noteq> []) \<Longrightarrow>
     Join xs sep \<noteq> [] \<and> last (Join xs sep) = last (last xs)"
  by (induction xs sep rule: Join.induct) auto

lemma TrimRight_last: "s \<noteq> [] \<Longrightarrow> last s \<noteq> c \<Longrightarrow> TrimRight (s @ [c]) [c] = s"
  by (simp add: TrimRight_def dropWhile_hd hd_rev)

lemma KeyValuesToString_Join:
  assumes "kvs \<noteq> []" and "list_all plain_kv kvs"
  shows "KeyValuesToString kvs = Join (map kv_text kvs) '',''"
proof -
  let ?j = "Join (map kv_text kvs) '',''"
  have "x \<in> set (map kv_text kvs) \<Longrightarrow> x \<noteq> []" for x by auto
  from last_Join [of "map kv_text kvs", OF _ this] have "?j \<noteq> [] \<and> last ?j = last (kv_text (last kvs))"
    using assms(1) by (simp add: last_map)
  moreover have "last (kv_text (last kvs)) \<noteq> CHR '',''"
    using kv_text_no_comma [of "last kvs"] assms
    by (metis kv_text_nonempty last_in_set list_all_iff)
  ultimately show ?thesis
    using assms(1) TrimRight_last [of ?j "CHR '',''"]
    unfolding KeyValuesToString_def foldl_kv_text by (simp add: concat_sep_Join)
qed

lemma Split_KeyValuesToString:
  assumes "kvs \<noteq> []" and "list_all plain_kv kvs"
  shows "Split (KeyValuesToString kvs) '','' = map kv_text kvs"
  unfolding KeyValuesToString_Join [OF assms]
  by (rule Split_Join_single) (use assms kv_text_no_comma in \<open>auto simp: list_all_iff\<close>)

lemma key_values_list_loop_plain:
  "list_all plain_kv kvs \<Longrightarrow> key_values_list_loop all (map kv_text kvs) acc = Inr (acc @ kvs)"
  by (induction kvs arbitrary: acc) (auto simp: Let_def plain_kv_def [symmetric], auto simp: plain_kv_def)

lemma key_values_map_loop_plain:
  "list_all plain_kv kvs \<Longrightarrow> \<exists>m'. key_values_map_loop all (map kv_text kvs) m = Inr m' \<and>
     m_load m' = m_load m ++ map_of (rev (map (\<lambda>kv. (kv_Key kv, kv_Value kv)) kvs))"
proof (induction kvs arbitrary: m)
  case (Cons kv kvs)
  then obtain m' where
    "key_values_map_loop all (map kv_text kvs) (m_store (kv_Key kv) (kv_Value kv) m) = Inr m'"
    "m_load m' = m_load (m_store (kv_Key kv) (kv_Value kv) m) ++
       map_of (rev (map (\<lambda>kv. (kv_Key kv, kv_Value kv)) kvs))"
    by fastforce
  moreover have "m_load (m_store (kv_Key kv) (kv_Value kv) m) = (m_load m)(kv_Key kv \<mapsto> kv_Value kv)"
    by (rule ext) simp
  ultimately show ?case using Cons.prems by (auto simp: Let_def plain_kv_def map_add_def split: option.splits)
qed simp

text \<open>
  Printing a non-empty list of named addresses and parsing the text gives the list back, and
  the map parser gives the map in which a later entry for a key wins.
\<close>

theorem key_values_roundtrip:
  assumes "kvs \<noteq> []" and "list_all plain_kv kvs"
  shows "KeyValuesFromString (KeyValuesToString kvs) = Inr kvs \<and>
    (\<exists>m. GetKeyValuesFromString (KeyValuesToString kvs) = Inr m \<and>
       m_load m = map_of (rev (map (\<lambda>kv. (kv_Key kv, kv_Value kv)) kvs)))"
proof (intro conjI)
  show "KeyValuesFromString (KeyValuesToString kvs) = Inr kvs"
    using key_values_list_loop_plain [OF assms(2)]
    by (simp add: KeyValuesFromString_def Split_KeyValuesToString [OF assms])
  have "m_load ([] :: (string, string) gomap) = Map.empty" by (rule ext) simp
  then show "\<exists>m. GetKeyValuesFromString (KeyValuesToString kvs) = Inr m \<and>
       m_load m = map_of (rev (map (\<lambda>kv. (kv_Key kv, kv_Value kv)) kvs))"
    using key_values_map_loop_plain [OF assms(2), of "KeyValuesToString kvs" "[]"]
    by (simp add: GetKeyValuesFromString_def Split_KeyValuesToString [OF assms])
qed

definition demo_kvs :: "KeyValue list" where
  "demo_kvs = [mk_kv (''hello'', ''0x1''), mk_kv (''std'', ''_'')]"

theorem key_values_roundtrip_witness:
  "KeyValuesFromString (KeyValuesToString demo_kvs) = Inr demo_kvs"
  using key_values_roundtrip [of demo_kvs]
  by (simp add: demo_kvs_def mk_kv_def plain_kv_def plain_token_def is_space_def)

lemma default_address_loop_Join:
  "acc \<noteq> [] \<Longrightarrow> default_address_loop ss acc =
     acc @ concat (map (\<lambda>s. '','' @ s @ ''=default'') ss)"
  by (induction ss arbitrary: acc) auto

lemma default_address_loop_print:
  assumes "ss \<noteq> []" and "list_all plain_token ss"
  shows "default_address_loop ss [] = KeyValuesToString (map (\<lambda>s. mk_kv (s, ''default'')) ss)"
proof -
  have "list_all plain_kv (map (\<lambda>s. mk_kv (s, ''default'')) ss)"
    using assms(2) by (auto simp: list_all_iff plain_kv_def mk_kv_def plain_token_def is_space_def)
  moreover have "default_address_loop ss [] = Join (map (\<lambda>s. s @ ''=default'') ss) '',''"
  proof (cases ss)
    case (Cons a as)
    have "concat (map (\<lambda>s. '','' @ s @ ''=default'') as) =
        (if as = [] then [] else '','' @ Join (map (\<lambda>s. s @ ''=default'') as) '','')" for as
      by (induction as) (auto simp: Join_Cons)
    then show ?thesis using Cons by (auto simp: default_address_loop_Join Join_Cons)
  qed (use assms in simp)
  ultimately show ?thesis
    using assms(1) by (simp add: KeyValuesToString_Join kv_text_def mk_kv_def comp_def)
qed

text \<open>
  The default named addresses of a package are its addresses whose value is the placeholder
  \<open>_\<close>, each bound to \<open>default\<close>, in a text that the address parser reads back.
\<close>

theorem default_addresses_parse:
  assumes "list = filter (\<lambda>k. m_load addresses k = Some ''_'') (ord (m_keys addresses))"
    and "list \<noteq> []" and "list_all plain_token list"
    and "GetDefaultNamedAddress ord (Inr addresses) = Inr out"
  shows "KeyValuesFromString out = Inr (map (\<lambda>k. mk_kv (k, ''default'')) list)"
proof -
  let ?kvs = "map (\<lambda>k. mk_kv (k, ''default'')) list"
  have "out = KeyValuesToString ?kvs"
    using assms default_address_loop_print [of list] by (auto simp: GetDefaultNamedAddress_def Let_def)
  moreover have "list_all plain_kv ?kvs"
    using assms(3) by (auto simp: list_all_iff plain_kv_def mk_kv_def plain_token_def is_space_def)
  ultimately show ?thesis
    using key_values_list_loop_plain [of ?kvs out "[]"] Split_KeyValuesToString [of ?kvs] assms(2)
    by (simp add: KeyValuesFromString_def)
qed

theorem default_addresses_parse_witness:
  "KeyValuesFromString ''a=default,c=default'' =
     Inr (map (\<lambda>k. mk_kv (k, ''default'')) [''a'', ''c''])"
proof (rule default_addresses_parse
    [where addresses = "[(''a'', ''_''), (''b'', ''0x2''), (''c'', ''_'')]" and ord = "\<lambda>ks. ks"])
  show "GetDefaultNamedAddress (\<lambda>ks. ks) (Inr [(''a'', ''_''), (''b'', ''0x2''), (''c'', ''_'')]) =
      Inr ''a=default,c=default''" by code_simp
qed (auto simp: m_keys_def m_load_def plain_token_def is_space_def)

end
