(* ===== verification/FileStore.thy ===== *)
theory FileStore
  imports GoPath Utils "HOL-Library.List_Lexorder" "HOL-Library.Char_ord" "HOL-Library.Sublist"
begin

text \<open>
  The file system the program stores its jobs in, and the file helpers of \<open>job/util.go\<close>.

  A file system is a finite map from paths (lists of ordinary components, the root is \<open>[]\<close>) to
  files and directories; paths in \<open>fs_deny\<close> have no permissions: a denied file cannot be opened or
  created, a denied directory cannot be searched, listed or changed.  The system calls return an error
  number, as \<open>os.Stat\<close>, \<open>os.MkdirAll\<close>, \<open>os.WriteFile\<close>, \<open>os.ReadFile\<close>, \<open>os.Remove\<close>, \<open>os.Rename\<close>,
  \<open>os.ReadDir\<close> and \<open>filepath.Walk\<close> do on Linux.
\<close>

section \<open>File system and system calls\<close>

datatype fnode = FFile string | FDir

datatype errno = ENOENT | EACCES | ENOTDIR | EISDIR | EEXIST | ENOTEMPTY | EINVAL

fun errno_msg :: "errno \<Rightarrow> error" where
  "errno_msg ENOENT = ''no such file or directory''"
| "errno_msg EACCES = ''permission denied''"
| "errno_msg ENOTDIR = ''not a directory''"
| "errno_msg EISDIR = ''is a directory''"
| "errno_msg EEXIST = ''file exists''"
| "errno_msg ENOTEMPTY = ''directory not empty''"
| "errno_msg EINVAL = ''invalid argument''"

type_synonym path = "string list"

record fs =
  fs_nodes :: "(path, fnode) gomap"
  fs_deny :: "path list"

definition path_of :: "string \<Rightarrow> path" where
  "path_of s = clean_comps True [] (Split s ''/'')"

definition fs_lookup :: "fs \<Rightarrow> path \<Rightarrow> fnode option" where
  "fs_lookup fs p = (if p = [] then Some FDir else m_load (fs_nodes fs) p)"

definition fs_put :: "path \<Rightarrow> fnode \<Rightarrow> fs \<Rightarrow> fs" where
  "fs_put p n fs = fs\<lparr>fs_nodes := m_store p n (fs_nodes fs)\<rparr>"

definition fs_del :: "path \<Rightarrow> fs \<Rightarrow> fs" where
  "fs_del p fs = fs\<lparr>fs_nodes := m_delete p (fs_nodes fs)\<rparr>"

abbreviation denied :: "fs \<Rightarrow> path \<Rightarrow> bool" where
  "denied fs p \<equiv> p \<in> set (fs_deny fs)"

fun resolve_from :: "fs \<Rightarrow> path \<Rightarrow> path \<Rightarrow> errno + fnode" where
  "resolve_from fs pre [] =
     (case fs_lookup fs pre of None \<Rightarrow> Inl ENOENT | Some n \<Rightarrow> Inr n)"
| "resolve_from fs pre (c # cs) =
     (case fs_lookup fs pre of
        None \<Rightarrow> Inl ENOENT
      | Some (FFile d) \<Rightarrow> Inl ENOTDIR
      | Some FDir \<Rightarrow> if denied fs pre then Inl EACCES else resolve_from fs (pre @ [c]) cs)"

definition Stat :: "fs \<Rightarrow> path \<Rightarrow> errno + fnode" where
  "Stat fs p = resolve_from fs [] p"

fun mkdir_from :: "path \<Rightarrow> path \<Rightarrow> fs \<Rightarrow> errno option \<times> fs" where
  "mkdir_from pre [] fs = (None, fs)"
| "mkdir_from pre (c # cs) fs =
     (case Stat fs (pre @ [c]) of
        Inr FDir \<Rightarrow> mkdir_from (pre @ [c]) cs fs
      | Inr (FFile d) \<Rightarrow> (Some ENOTDIR, fs)
      | Inl e \<Rightarrow> if e = ENOENT then mkdir_from (pre @ [c]) cs (fs_put (pre @ [c]) FDir fs)
                else (Some e, fs))"

definition MkdirAll :: "path \<Rightarrow> fs \<Rightarrow> errno option \<times> fs" where
  "MkdirAll p fs = mkdir_from [] p fs"

definition WriteFile :: "path \<Rightarrow> string \<Rightarrow> fs \<Rightarrow> errno option \<times> fs" where
  "WriteFile p c fs =
     (case Stat fs p of
        Inr FDir \<Rightarrow> (Some EISDIR, fs)
      | Inr (FFile d) \<Rightarrow> if denied fs p then (Some EACCES, fs) else (None, fs_put p (FFile c) fs)
      | Inl e \<Rightarrow> if e = ENOENT \<and> p \<noteq> [] \<and> Stat fs (butlast p) = Inr FDir
                then (if denied fs p then (Some EACCES, fs) else (None, fs_put p (FFile c) fs))
                else (Some e, fs))"

definition ReadFile :: "path \<Rightarrow> fs \<Rightarrow> errno + string" where
  "ReadFile p fs =
     (case Stat fs p of
        Inl e \<Rightarrow> Inl e
      | Inr FDir \<Rightarrow> Inl EISDIR
      | Inr (FFile d) \<Rightarrow> if denied fs p then Inl EACCES else Inr d)"

definition fs_children :: "fs \<Rightarrow> path \<Rightarrow> string list" where
  "fs_children fs p = map last (filter (\<lambda>q. q \<noteq> [] \<and> butlast q = p) (m_keys (fs_nodes fs)))"

definition Remove :: "path \<Rightarrow> fs \<Rightarrow> errno option \<times> fs" where
  "Remove p fs =
     (case Stat fs p of
        Inl e \<Rightarrow> (Some e, fs)
      | Inr n \<Rightarrow>
          if p = [] then (Some EINVAL, fs)
          else if n = FDir \<and> fs_children fs p \<noteq> [] then (Some ENOTEMPTY, fs)
          else (None, fs_del p fs))"

text \<open>\<open>os.Rename\<close>: an existing directory is never replaced; everything below a directory moves with it.\<close>

definition Rename :: "path \<Rightarrow> path \<Rightarrow> fs \<Rightarrow> errno option \<times> fs" where
  "Rename a b fs =
     (case Stat fs a of
        Inl e \<Rightarrow> (Some e, fs)
      | Inr n \<Rightarrow>
          if Stat fs b = Inr FDir then (Some EEXIST, fs)
          else if n = FDir \<and> prefix a b then (Some EINVAL, fs)
          else (case Stat fs (butlast b) of
              Inl e \<Rightarrow> (Some e, fs)
            | Inr (FFile d) \<Rightarrow> (Some ENOTDIR, fs)
            | Inr FDir \<Rightarrow>
                if denied fs (butlast b) then (Some EACCES, fs)
                else if n = FDir \<and> Stat fs b \<noteq> Inl ENOENT then (Some ENOTDIR, fs)
                else if a = b then (None, fs)
                else (None, fs\<lparr>fs_nodes :=
                  map (\<lambda>(q, x). (if prefix a q then b @ drop (length a) q else q, x))
                    (filter (\<lambda>(q, x). q \<noteq> b) (fs_nodes fs))\<rparr>)))"

definition ReadDir :: "path \<Rightarrow> fs \<Rightarrow> errno + string list" where
  "ReadDir p fs =
     (case Stat fs p of
        Inl e \<Rightarrow> Inl e
      | Inr (FFile d) \<Rightarrow> Inl ENOTDIR
      | Inr FDir \<Rightarrow> if denied fs p then Inl EACCES else Inr (sort (fs_children fs p)))"

text \<open>
  \<open>filepath.Walk\<close> with a callback that collects the regular files and stops at the first error:
  the entries below the root in lexical order, up to the first directory that cannot be read.
\<close>

fun walk_entries :: "fs \<Rightarrow> (path \<times> fnode) list \<Rightarrow> path list \<Rightarrow> path list \<times> errno option" where
  "walk_entries fs [] files = (files, None)"
| "walk_entries fs ((q, n) # es) files =
     (if n = FDir then (if denied fs q then (files, Some EACCES) else walk_entries fs es files)
      else walk_entries fs es (files @ [q]))"

definition Walk :: "path \<Rightarrow> fs \<Rightarrow> path list \<times> errno option" where
  "Walk dir fs =
     (case Stat fs dir of
        Inl e \<Rightarrow> ([], Some e)
      | Inr (FFile d) \<Rightarrow> ([dir], None)
      | Inr FDir \<Rightarrow>
          if denied fs dir then ([], Some EACCES)
          else walk_entries fs
            (sort_key fst (filter (\<lambda>(q, n). strict_prefix dir q) (fs_nodes fs))) [])"

section \<open>job/util.go\<close>

definition go_err :: "errno option \<Rightarrow> error option" where
  "go_err e = map_option errno_msg e"

definition isFileExist :: "string \<Rightarrow> fs \<Rightarrow> bool" where
  "isFileExist p fs \<longleftrightarrow> Stat fs (path_of p) \<noteq> Inl ENOENT"

definition createDirIfNotExist :: "string \<Rightarrow> fs \<Rightarrow> error option \<times> fs" where
  "createDirIfNotExist dir fs =
     (if \<not> isFileExist dir fs
      then (case MkdirAll (path_of dir) fs of (e, fs') \<Rightarrow> (go_err e, fs'))
      else (None, fs))"

definition saveStringToFile :: "string \<Rightarrow> string \<Rightarrow> fs \<Rightarrow> error option \<times> fs" where
  "saveStringToFile filePath content fs =
     (case createDirIfNotExist (Dir filePath) fs of
        (Some e, fs1) \<Rightarrow> (Some e, fs1)
      | (None, fs1) \<Rightarrow> (case WriteFile (path_of filePath) content fs1 of (e, fs2) \<Rightarrow> (go_err e, fs2)))"

definition readStringFromFile :: "string \<Rightarrow> fs \<Rightarrow> string res" where
  "readStringFromFile filePath fs =
     (if \<not> isFileExist filePath fs then Inl ''file not exist''
      else (case ReadFile (path_of filePath) fs of
          Inl e \<Rightarrow> Inl (errno_msg e)
        | Inr content \<Rightarrow> Inr content))"

definition deleteFile :: "string \<Rightarrow> fs \<Rightarrow> error option \<times> fs" where
  "deleteFile filePath fs =
     (if \<not> isFileExist filePath fs then (Some ''file not exist'', fs)
      else (case Remove (path_of filePath) fs of (e, fs') \<Rightarrow> (go_err e, fs')))"

definition renameFile :: "string \<Rightarrow> string \<Rightarrow> fs \<Rightarrow> error option \<times> fs" where
  "renameFile oldPath newPath fs =
     (if oldPath = newPath then (None, fs)
      else if \<not> isFileExist oldPath fs then (Some (''file not exist: '' @ oldPath), fs)
      else (case (if Dir oldPath \<noteq> Dir newPath
                  then Rename (path_of (Dir oldPath)) (path_of (Dir newPath)) fs else (None, fs)) of
          (Some e, fs1) \<Rightarrow> (Some (errno_msg e), fs1)
        | (None, fs1) \<Rightarrow>
            (case Rename (path_of (PathJoin [Dir newPath, Base oldPath])) (path_of newPath) fs1 of
               (e, fs2) \<Rightarrow> (go_err e, fs2))))"

definition ListFilesAbs :: "string \<Rightarrow> fs \<Rightarrow> string list \<times> error option" where
  "ListFilesAbs dir fs =
     (case Walk (path_of dir) fs of (files, e) \<Rightarrow> (map abs_path files, go_err e))"

definition ListFilesRel :: "string \<Rightarrow> fs \<Rightarrow> string list \<times> error option" where
  "ListFilesRel dir fs =
     (case Walk (path_of dir) fs of
        (files, e) \<Rightarrow> (map (\<lambda>p. TrimPrefix (abs_path p) (dir @ ''/'')) files, go_err e))"

definition SaveFile :: "string \<Rightarrow> string \<Rightarrow> fs \<Rightarrow> error option \<times> fs" where
  "SaveFile p data fs =
     (case createDirIfNotExist (Dir p) fs of
        (Some e, fs1) \<Rightarrow> (Some e, fs1)
      | (None, fs1) \<Rightarrow> (case WriteFile (path_of p) data fs1 of (e, fs2) \<Rightarrow> (go_err e, fs2)))"

definition GetFileData :: "string \<Rightarrow> fs \<Rightarrow> string res" where
  "GetFileData p fs =
     (case ReadFile (path_of p) fs of Inl e \<Rightarrow> Inl (errno_msg e) | Inr d \<Rightarrow> Inr d)"

section \<open>What the system calls do\<close>

definition dirs_ok :: "fs \<Rightarrow> path \<Rightarrow> bool" where
  "dirs_ok fs p \<longleftrightarrow> (\<forall>q. strict_prefix q p \<longrightarrow> fs_lookup fs q = Some FDir \<and> \<not> denied fs q)"

lemma fs_lookup_put [simp]:
  "p \<noteq> [] \<Longrightarrow> fs_lookup (fs_put p n fs) q = (if q = p then Some n else fs_lookup fs q)"
  by (simp add: fs_lookup_def fs_put_def)

lemma fs_lookup_del [simp]:
  "p \<noteq> [] \<Longrightarrow> fs_lookup (fs_del p fs) q = (if q = p then None else fs_lookup fs q)"
  by (simp add: fs_lookup_def fs_del_def)

lemma fs_lookup_root [simp]: "fs_lookup fs [] = Some FDir"
  by (simp add: fs_lookup_def)

lemma fs_deny_simps [simp]:
  "fs_deny (fs_put p n fs) = fs_deny fs" "fs_deny (fs_del p fs) = fs_deny fs"
  by (simp_all add: fs_put_def fs_del_def)

lemma resolve_from_Inr:
  "resolve_from fs pre cs = Inr n \<longleftrightarrow>
     fs_lookup fs (pre @ cs) = Some n \<and>
     (\<forall>d. strict_prefix d cs \<longrightarrow> fs_lookup fs (pre @ d) = Some FDir \<and> \<not> denied fs (pre @ d))"
proof (induction fs pre cs rule: resolve_from.induct)
  case (2 fs pre c cs)
  have "strict_prefix d (c # cs) \<longleftrightarrow> d = [] \<or> (\<exists>d'. d = c # d' \<and> strict_prefix d' cs)" for d
    by (cases d) (auto simp: strict_prefix_def)
  then have "(\<forall>d. strict_prefix d (c # cs) \<longrightarrow> P (pre @ d)) \<longleftrightarrow>
      P pre \<and> (\<forall>d. strict_prefix d cs \<longrightarrow> P ((pre @ [c]) @ d))" for P
    by auto
  note split = this [of "\<lambda>q. fs_lookup fs q = Some FDir \<and> \<not> denied fs q"]
  show ?case
    unfolding split
  proof (cases "fs_lookup fs pre")
    case (Some m)
    then show "resolve_from fs pre (c # cs) = Inr n \<longleftrightarrow>
        fs_lookup fs (pre @ c # cs) = Some n \<and> (fs_lookup fs pre = Some FDir \<and> \<not> denied fs pre) \<and>
        (\<forall>d. strict_prefix d cs \<longrightarrow> fs_lookup fs ((pre @ [c]) @ d) = Some FDir \<and> \<not> denied fs ((pre @ [c]) @ d))"
      using 2 [OF Some] by (cases m) simp_all
  qed simp
qed (simp split: option.splits)

lemma Stat_Inr: "Stat fs p = Inr n \<longleftrightarrow> fs_lookup fs p = Some n \<and> dirs_ok fs p"
  by (simp add: Stat_def resolve_from_Inr dirs_ok_def)

lemma dirs_ok_Nil [simp]: "dirs_ok fs []"
  by (simp add: dirs_ok_def)

lemma dirs_ok_snoc:
  "dirs_ok fs (p @ [c]) \<longleftrightarrow> dirs_ok fs p \<and> fs_lookup fs p = Some FDir \<and> \<not> denied fs p"
proof -
  have "strict_prefix q (p @ [c]) \<longleftrightarrow> q = p \<or> strict_prefix q p" for q
    by (auto simp add: strict_prefix_def)
  then show ?thesis by (simp add: dirs_ok_def) blast
qed

lemma resolve_from_append:
  "(\<forall>d. strict_prefix d cs \<longrightarrow> fs_lookup fs (pre @ d) = Some FDir \<and> \<not> denied fs (pre @ d)) \<Longrightarrow>
     resolve_from fs pre (cs @ ds) = resolve_from fs (pre @ cs) ds"
proof (induction cs arbitrary: pre)
  case (Cons c cs)
  from Cons.prems have "fs_lookup fs pre = Some FDir \<and> \<not> denied fs pre" by (drule_tac x="[]" in spec) simp
  moreover have "\<forall>d. strict_prefix d cs \<longrightarrow>
      fs_lookup fs ((pre @ [c]) @ d) = Some FDir \<and> \<not> denied fs ((pre @ [c]) @ d)"
    using Cons.prems by (metis append.assoc append_Cons append_Nil strict_prefix_simps(3))
  ultimately show ?case using Cons.IH [of "pre @ [c]"] by simp
qed simp

lemma Stat_snoc:
  assumes "dirs_ok fs p" and "fs_lookup fs p = Some FDir"
  shows "Stat fs (p @ [c]) =
    (if denied fs p then Inl EACCES
     else case fs_lookup fs (p @ [c]) of None \<Rightarrow> Inl ENOENT | Some n \<Rightarrow> Inr n)"
  using assms resolve_from_append [of p fs "[]" "[c]"] by (simp add: Stat_def dirs_ok_def)

lemma dirs_ok_put:
  "dirs_ok fs p \<Longrightarrow> fs_lookup fs q \<noteq> Some FDir \<Longrightarrow> q \<noteq> [] \<Longrightarrow> dirs_ok (fs_put q n fs) p"
  by (auto simp: dirs_ok_def)

text \<open>Directories are created where nothing was; everything else stays.\<close>

definition adds_dirs :: "path \<Rightarrow> fs \<Rightarrow> fs \<Rightarrow> bool" where
  "adds_dirs p fs fs' \<longleftrightarrow>
     fs_deny fs' = fs_deny fs \<and>
     (\<forall>q. fs_lookup fs' q = fs_lookup fs q \<or>
          fs_lookup fs q = None \<and> fs_lookup fs' q = Some FDir \<and> prefix q p)"

lemma adds_dirs_refl [simp]: "adds_dirs p fs fs"
  by (simp add: adds_dirs_def)

lemma adds_dirs_put:
  assumes "adds_dirs p (fs_put q FDir fs) fs'" and "fs_lookup fs q = None" and "prefix q p"
  shows "adds_dirs p fs fs'"
proof -
  from assms(2) have "q \<noteq> []" by auto
  with assms show ?thesis
    by (auto simp: adds_dirs_def split: if_splits)
qed

lemma mkdir_from_adds:
  "mkdir_from pre cs fs = (e, fs') \<Longrightarrow> dirs_ok fs pre \<Longrightarrow> fs_lookup fs pre = Some FDir \<Longrightarrow>
     adds_dirs (pre @ cs) fs fs' \<and> (e = None \<longrightarrow> Stat fs' (pre @ cs) = Inr FDir)"
proof (induction pre cs fs arbitrary: e fs' rule: mkdir_from.induct)
  case (2 pre c cs fs)
  note st = Stat_snoc [OF 2(4,5), of c]
  show ?case
  proof (cases "denied fs pre")
    case False
    then have ok: "dirs_ok fs (pre @ [c])" using 2(4,5) by (simp add: dirs_ok_snoc)
    show ?thesis
    proof (cases "fs_lookup fs (pre @ [c])")
      case None
      let ?g = "fs_put (pre @ [c]) FDir fs"
      have S: "Stat fs (pre @ [c]) = Inl ENOENT" using st False None by simp
      then have r: "mkdir_from (pre @ [c]) cs ?g = (e, fs')" using 2(3) by simp
      have "dirs_ok ?g (pre @ [c])" using ok None by (intro dirs_ok_put) auto
      then have "adds_dirs ((pre @ [c]) @ cs) ?g fs' \<and> (e = None \<longrightarrow> Stat fs' ((pre @ [c]) @ cs) = Inr FDir)"
        using 2(1) [OF S refl r] by simp
      moreover have "prefix (pre @ [c]) (pre @ c # cs)" by (simp add: prefix_def)
      ultimately show ?thesis using None adds_dirs_put [of "pre @ c # cs" "pre @ [c]" fs fs'] by simp
    next
      case (Some n)
      then show ?thesis
        using 2(2) [OF _ _ _ ok] 2(3) st False by (cases n) auto
    qed
  qed (use 2 st in auto)
qed (simp add: Stat_Inr)

lemma MkdirAll_adds:
  "MkdirAll p fs = (e, fs') \<Longrightarrow> adds_dirs p fs fs' \<and> (e = None \<longrightarrow> Stat fs' p = Inr FDir)"
  using mkdir_from_adds [of "[]" p fs e fs'] by (simp add: MkdirAll_def)

lemma mkdir_from_free:
  "dirs_ok fs pre \<Longrightarrow> fs_lookup fs pre = Some FDir \<Longrightarrow>
   (\<And>q. prefix q (pre @ cs) \<Longrightarrow> \<not> denied fs q \<and> (\<forall>x. fs_lookup fs q \<noteq> Some (FFile x))) \<Longrightarrow>
     fst (mkdir_from pre cs fs) = None"
proof (induction pre cs fs rule: mkdir_from.induct)
  case (2 pre c cs fs)
  have nd: "\<not> denied fs pre" using 2(5) [of pre] by simp
  note st = Stat_snoc [OF 2(3,4), of c]
  have ok: "dirs_ok fs (pre @ [c])" using 2(3,4) nd by (simp add: dirs_ok_snoc)
  show ?case
  proof (cases "fs_lookup fs (pre @ [c])")
    case None
    let ?g = "fs_put (pre @ [c]) FDir fs"
    have S: "Stat fs (pre @ [c]) = Inl ENOENT" using st nd None by simp
    have "fst (mkdir_from (pre @ [c]) cs ?g) = None"
    proof (rule 2(1) [OF S refl])
      show "dirs_ok ?g (pre @ [c])" using ok None by (intro dirs_ok_put) auto
      fix q assume "prefix q ((pre @ [c]) @ cs)"
      then show "\<not> denied ?g q \<and> (\<forall>x. fs_lookup ?g q \<noteq> Some (FFile x))" using 2(5) [of q] by simp
    qed simp
    then show ?thesis using S by simp
  next
    case (Some n)
    have "n \<noteq> FFile x" for x
      using Some 2(5) [of "pre @ [c]"] by (auto simp: prefix_def)
    then have n: "n = FDir" by (cases n) auto
    have S: "Stat fs (pre @ [c]) = Inr FDir" using st nd Some n by simp
    show ?thesis
      using 2(2) [OF S refl ok] Some n 2(5) S by simp
  qed
qed simp

lemma resolve_free:
  "(\<And>q. prefix q (pre @ cs) \<Longrightarrow> \<not> denied fs q \<and> (\<forall>x. fs_lookup fs q \<noteq> Some (FFile x))) \<Longrightarrow>
    resolve_from fs pre cs = Inr FDir \<or> resolve_from fs pre cs = Inl ENOENT"
proof (induction fs pre cs rule: resolve_from.induct)
  case (1 fs pre)
  then have "\<forall>x. fs_lookup fs pre \<noteq> Some (FFile x)" by simp
  then show ?case by (auto split: option.split) (metis fnode.exhaust)
next
  case (2 fs pre c cs)
  have pre: "\<not> denied fs pre" "fs_lookup fs pre \<noteq> Some (FFile x)" for x using 2(2) [of pre] by simp_all
  show ?case
  proof (cases "fs_lookup fs pre")
    case (Some n)
    then have n: "n = FDir" using pre(2) by (cases n) auto
    then have "resolve_from fs (pre @ [c]) cs = Inr FDir \<or> resolve_from fs (pre @ [c]) cs = Inl ENOENT"
      using 2 Some pre(1) by simp
    then show ?thesis using Some n pre(1) by simp
  qed simp
qed

lemma Stat_root [simp]: "Stat fs [] = Inr FDir"
  by (simp add: Stat_def)

lemma WriteFile_None:
  assumes "WriteFile p c fs = (None, fs')"
  shows "p \<noteq> [] \<and> fs' = fs_put p (FFile c) fs \<and> \<not> denied fs p \<and> fs_lookup fs p \<noteq> Some FDir \<and> dirs_ok fs p"
proof (cases "Stat fs p")
  case (Inr n)
  then have "p \<noteq> []" using assms by (auto simp: WriteFile_def)
  then show ?thesis
    using assms Inr by (auto simp: WriteFile_def Stat_Inr split: fnode.splits if_splits)
next
  case (Inl e)
  then have e: "e = ENOENT" "p \<noteq> []" "Stat fs (butlast p) = Inr FDir" "\<not> denied fs p"
    "fs' = fs_put p (FFile c) fs"
    using assms by (auto simp: WriteFile_def split: if_splits)
  define q where "q = butlast p"
  have p: "p = q @ [last p]" using e(2) by (simp add: q_def)
  have q: "dirs_ok fs q" "fs_lookup fs q = Some FDir" using e(3) by (simp_all add: Stat_Inr q_def)
  from Stat_snoc [OF q, of "last p"] Inl e(1) p have "\<not> denied fs q" "fs_lookup fs p = None"
    by (auto split: if_splits option.splits)
  moreover from this q have "dirs_ok fs (q @ [last p])" by (simp add: dirs_ok_snoc)
  ultimately show ?thesis using e p by simp
qed

lemma WriteFile_cases:
  "WriteFile p c fs = (e, fs') \<Longrightarrow> e = None \<or> fs' = fs"
  by (auto simp: WriteFile_def split: sum.splits fnode.splits if_splits)

lemma WriteFile_ok:
  assumes "dirs_ok fs p" and "\<not> denied fs p" and "p \<noteq> []" and "fs_lookup fs p \<noteq> Some FDir"
  shows "WriteFile p c fs = (None, fs_put p (FFile c) fs)"
proof (cases "fs_lookup fs p")
  case None
  obtain q d where p: "p = q @ [d]" using assms(3) by (metis rev_exhaust)
  with assms(1) have q: "dirs_ok fs q" "fs_lookup fs q = Some FDir" "\<not> denied fs q"
    by (simp_all add: dirs_ok_snoc)
  have "Stat fs p = Inl ENOENT" using Stat_snoc [OF q(1,2), of d] q(3) None p by simp
  moreover have "Stat fs (butlast p) = Inr FDir" using q p by (simp add: Stat_Inr)
  ultimately show ?thesis using assms by (simp add: WriteFile_def)
next
  case (Some n)
  with assms have "Stat fs p = Inr n" by (simp add: Stat_Inr)
  then show ?thesis using assms Some by (cases n) (simp_all add: WriteFile_def)
qed

lemma adds_dirs_dirs_ok: "adds_dirs p fs fs' \<Longrightarrow> dirs_ok fs q \<Longrightarrow> dirs_ok fs' q"
  unfolding adds_dirs_def dirs_ok_def by (metis option.distinct(1))

lemma adds_dirs_Some: "adds_dirs p fs fs' \<Longrightarrow> fs_lookup fs q = Some n \<Longrightarrow> fs_lookup fs' q = Some n"
  unfolding adds_dirs_def by (metis option.distinct(1))

lemma createDirIfNotExist_adds:
  "createDirIfNotExist dir fs = (e, fs') \<Longrightarrow> adds_dirs (path_of dir) fs fs'"
  by (auto simp: createDirIfNotExist_def dest!: MkdirAll_adds split: if_splits prod.splits)

lemma save_cases:
  assumes "saveStringToFile p c fs = (e, fs')"
  obtains fs1 where "adds_dirs (path_of (Dir p)) fs fs1" "e \<noteq> None" "fs' = fs1"
  | fs1 where "adds_dirs (path_of (Dir p)) fs fs1" "e = None"
      "WriteFile (path_of p) c fs1 = (None, fs')"
proof -
  obtain e1 fs1 where 1: "createDirIfNotExist (Dir p) fs = (e1, fs1)" by fastforce
  note ad = createDirIfNotExist_adds [OF 1]
  obtain e2 fs2 where 2: "WriteFile (path_of p) c fs1 = (e2, fs2)" by fastforce
  show ?thesis
    using assms 1 2 ad that WriteFile_cases [OF 2]
    by (cases e1; cases e2) (auto simp: saveStringToFile_def go_err_def)
qed

lemma isFileExist_read: "readStringFromFile p fs = Inr d \<Longrightarrow> isFileExist p fs"
  by (auto simp: readStringFromFile_def split: if_splits)

lemma read_iff:
  "readStringFromFile p fs = Inr d \<longleftrightarrow>
     fs_lookup fs (path_of p) = Some (FFile d) \<and> dirs_ok fs (path_of p) \<and> \<not> denied fs (path_of p)"
proof (cases "Stat fs (path_of p)")
  case (Inl e)
  then have "\<not> (fs_lookup fs (path_of p) = Some (FFile d) \<and> dirs_ok fs (path_of p))"
    using Stat_Inr [of fs "path_of p" "FFile d"] by auto
  then show ?thesis using Inl by (auto simp: readStringFromFile_def ReadFile_def)
next
  case (Inr n)
  then show ?thesis
    using Stat_Inr [of fs "path_of p" n]
    by (cases n) (auto simp: readStringFromFile_def ReadFile_def isFileExist_def)
qed

lemma GetFileData_iff: "GetFileData p fs = Inr d \<longleftrightarrow> readStringFromFile p fs = Inr d"
  by (cases "Stat fs (path_of p)")
    (auto simp: GetFileData_def readStringFromFile_def isFileExist_def ReadFile_def
      split: fnode.splits if_splits sum.splits)

lemma SaveFile_eq: "SaveFile = saveStringToFile"
  by (intro ext) (simp add: SaveFile_def saveStringToFile_def)

text \<open>\<open>os.WriteFile\<close> with parents, as the stores use it: a text saved is the text read.\<close>

locale text_store =
  fixes at :: "string \<Rightarrow> 'p"
    and save :: "string \<Rightarrow> string \<Rightarrow> 's \<Rightarrow> error option \<times> 's"
    and load :: "string \<Rightarrow> 's \<Rightarrow> string res"
    and del :: "string \<Rightarrow> 's \<Rightarrow> error option \<times> 's"
    and exists :: "string \<Rightarrow> 's \<Rightarrow> bool"
  assumes save_load: "save p c s = (None, s') \<Longrightarrow> load p s' = Inr c"
    and save_other: "save p c s = (e, s') \<Longrightarrow> at q \<noteq> at p \<Longrightarrow> load q s = Inr d \<Longrightarrow> load q s' = Inr d"
    and save_failed: "save p c s = (Some err, s') \<Longrightarrow> load q s = Inr d \<Longrightarrow> load q s' = Inr d"
    and load_exists: "load p s = Inr d \<Longrightarrow> exists p s"
    and del_gone: "del p s = (None, s') \<Longrightarrow> \<not> exists p s'"
    and del_other: "del p s = (e, s') \<Longrightarrow> at q \<noteq> at p \<Longrightarrow> load q s = Inr d \<Longrightarrow> load q s' = Inr d"
begin

lemma del_load: "del p s = (None, s') \<Longrightarrow> load p s' \<noteq> Inr d"
  using del_gone load_exists by blast

lemma save_twice:
  "save p c s = (None, s') \<Longrightarrow> save q d s' = (None, s'') \<Longrightarrow> at p \<noteq> at q \<Longrightarrow>
     load p s'' = Inr c \<and> load q s'' = Inr d"
  using save_load save_other by metis

lemma overwrite: "save p c s = (None, s') \<Longrightarrow> save p d s' = (None, s'') \<Longrightarrow> load p s'' = Inr d"
  by (rule save_load)

end

lemma save_other_read:
  assumes "saveStringToFile p c s = (e, s')" and "path_of q \<noteq> path_of p"
    and "readStringFromFile q s = Inr d"
  shows "readStringFromFile q s' = Inr d"
  using assms(1)
proof (cases rule: save_cases)
  case (1 fs1)
  then show ?thesis
    using assms(3) adds_dirs_dirs_ok [OF 1(1)] adds_dirs_Some [OF 1(1)]
    by (auto simp: read_iff) (auto simp: adds_dirs_def)
next
  case (2 fs1)
  note w = WriteFile_None [OF 2(3)]
  have "dirs_ok fs1 (path_of q)" "fs_lookup fs1 (path_of q) = Some (FFile d)"
    "\<not> denied fs1 (path_of q)"
    using assms(3) adds_dirs_dirs_ok [OF 2(1)] adds_dirs_Some [OF 2(1)] 2(1)
    by (auto simp: read_iff adds_dirs_def)
  then show ?thesis
    using w assms(2) dirs_ok_put [of fs1 "path_of q" "path_of p" "FFile c"]
    by (simp add: read_iff)
qed

lemma save_read:
  assumes "saveStringToFile p c s = (None, s')"
  shows "readStringFromFile p s' = Inr c"
  using assms
proof (cases rule: save_cases)
  case (2 fs1)
  note w = WriteFile_None [OF 2(3)]
  then show ?thesis using dirs_ok_put [of fs1 "path_of p" "path_of p" "FFile c"] by (simp add: read_iff)
qed simp

lemma save_failed_read:
  assumes "saveStringToFile p c s = (Some e, s')" and "readStringFromFile q s = Inr d"
  shows "readStringFromFile q s' = Inr d"
  using assms(1)
proof (cases rule: save_cases)
  case (1 fs1)
  then show ?thesis
    using assms(2) adds_dirs_dirs_ok [OF 1(1)] adds_dirs_Some [OF 1(1)]
    by (auto simp: read_iff adds_dirs_def)
qed simp

lemma dirs_ok_child:
  assumes "strict_prefix p q" and "dirs_ok fs q" and "fs_lookup fs q \<noteq> None"
  shows "fs_children fs p \<noteq> []"
proof -
  obtain c r where "q = p @ c # r" using assms(1) by (rule strict_prefixE')
  then have q: "q = (p @ [c]) @ r" by simp
  have "fs_lookup fs (p @ [c]) \<noteq> None"
  proof (cases "r = []")
    case False
    then have "strict_prefix (p @ [c]) q" using q by (auto simp: strict_prefix_def)
    then show ?thesis using assms(2) by (simp add: dirs_ok_def)
  qed (use q assms(3) in simp)
  then have "p @ [c] \<in> set (m_keys (fs_nodes fs))" by (simp add: fs_lookup_def gm.keys_load)
  then have "p @ [c] \<in> set (filter (\<lambda>q. q \<noteq> [] \<and> butlast q = p) (m_keys (fs_nodes fs)))" by simp
  then show ?thesis by (auto simp: fs_children_def filter_empty_conv intro!: bexI [of _ "p @ [c]"])
qed

lemma delete_None:
  "deleteFile p fs = (None, fs') \<Longrightarrow>
     path_of p \<noteq> [] \<and> fs' = fs_del (path_of p) fs \<and>
     (fs_lookup fs (path_of p) = Some FDir \<longrightarrow> fs_children fs (path_of p) = [])"
  using Stat_Inr [of fs "path_of p"]
  by (auto simp: deleteFile_def Remove_def go_err_def split: if_splits sum.splits prod.splits)

lemma delete_Some: "deleteFile p fs = (Some e, fs') \<Longrightarrow> fs' = fs"
  by (auto simp: deleteFile_def Remove_def go_err_def split: if_splits sum.splits prod.splits)

lemma delete_other:
  assumes "deleteFile p s = (e, s')" and "path_of q \<noteq> path_of p" and "readStringFromFile q s = Inr d"
  shows "readStringFromFile q s' = Inr d"
proof (cases e)
  case None
  note dl = delete_None [OF assms(1) [unfolded None]]
  have q: "fs_lookup s (path_of q) = Some (FFile d)" "dirs_ok s (path_of q)" "\<not> denied s (path_of q)"
    using assms(3) by (simp_all add: read_iff)
  have "\<not> strict_prefix (path_of p) (path_of q)"
    using q dl dirs_ok_child [of "path_of p" "path_of q" s] by (auto simp: dirs_ok_def)
  then have "dirs_ok (fs_del (path_of p) s) (path_of q)"
    using q(2) dl by (auto simp: dirs_ok_def)
  then show ?thesis using q dl assms(2) by (simp add: read_iff)
qed (use assms delete_Some in blast)

lemma fs_del_absent:
  assumes "p \<noteq> []" and "dirs_ok fs p"
  shows "Stat (fs_del p fs) p = Inl ENOENT"
proof -
  obtain q d where p: "p = q @ [d]" using assms(1) by (metis rev_exhaust)
  have q: "dirs_ok fs q" "fs_lookup fs q = Some FDir" "\<not> denied fs q"
    using assms(2) p by (simp_all add: dirs_ok_snoc)
  have "dirs_ok (fs_del p fs) q" "fs_lookup (fs_del p fs) q = Some FDir"
    using q p by (auto simp: dirs_ok_def dest: prefix_length_less)
  from Stat_snoc [OF this, of d] show ?thesis using q p by simp
qed

lemma delete_gone:
  assumes "deleteFile p s = (None, s')"
  shows "\<not> isFileExist p s'"
proof -
  have "dirs_ok s (path_of p)"
    using assms Stat_Inr [of s "path_of p"]
    by (auto simp: deleteFile_def Remove_def go_err_def split: if_splits sum.splits prod.splits)
  then show ?thesis
    using delete_None [OF assms] fs_del_absent [of "path_of p" s] by (simp add: isFileExist_def)
qed

interpretation ts: text_store path_of saveStringToFile readStringFromFile deleteFile isFileExist
  by unfold_locales
    (erule save_read save_other_read save_failed_read isFileExist_read delete_gone delete_other; assumption)+

section \<open>Paths of ordinary components\<close>

lemma path_of_abs [simp]: "list_all good_comp cs \<Longrightarrow> path_of (abs_path cs) = cs"
  by (simp add: path_of_def Split_abs_path clean_comps_good_all)

text \<open>A store where every entry's parent is a directory and nothing is denied.\<close>

definition fs_ok :: "fs \<Rightarrow> bool" where
  "fs_ok fs \<longleftrightarrow> fs_deny fs = [] \<and>
     (\<forall>q n. fs_lookup fs q = Some n \<longrightarrow> q \<noteq> [] \<longrightarrow> fs_lookup fs (butlast q) = Some FDir)"

lemma fs_ok_prefix:
  "fs_ok fs \<Longrightarrow> fs_lookup fs (p @ r) = Some n \<Longrightarrow> r \<noteq> [] \<Longrightarrow> fs_lookup fs p = Some FDir"
proof (induction r arbitrary: n rule: rev_induct)
  case (snoc x r)
  then have "fs_lookup fs (p @ r) = Some FDir" by (auto simp: fs_ok_def butlast_append)
  with snoc show ?case by (cases "r = []") auto
qed simp

lemma fs_ok_dirs: "fs_ok fs \<Longrightarrow> fs_lookup fs p = Some n \<Longrightarrow> dirs_ok fs p"
  unfolding dirs_ok_def
proof (intro allI impI)
  fix q assume "fs_ok fs" "fs_lookup fs p = Some n" "strict_prefix q p"
  then show "fs_lookup fs q = Some FDir \<and> \<not> denied fs q"
    using fs_ok_prefix [of fs q _ n] by (auto simp: fs_ok_def elim!: strict_prefixE')
qed

lemma fs_ok_Stat:
  assumes "fs_ok fs" and "p \<noteq> []" and "fs_lookup fs (butlast p) = Some FDir"
  shows "Stat fs p = (case fs_lookup fs p of None \<Rightarrow> Inl ENOENT | Some n \<Rightarrow> Inr n)"
  using Stat_snoc [of fs "butlast p" "last p"] fs_ok_dirs [OF assms(1,3)] assms
  by (simp add: fs_ok_def)

lemma fs_ok_Stat_Some: "fs_ok fs \<Longrightarrow> fs_lookup fs p = Some n \<Longrightarrow> Stat fs p = Inr n"
  by (simp add: Stat_Inr fs_ok_dirs)

lemma fs_ok_read: "fs_ok fs \<Longrightarrow> readStringFromFile p fs = Inr d \<longleftrightarrow> fs_lookup fs (path_of p) = Some (FFile d)"
  using fs_ok_dirs by (auto simp: read_iff fs_ok_def)

definition renamed :: "path \<Rightarrow> path \<Rightarrow> fs \<Rightarrow> fs \<Rightarrow> bool" where
  "renamed a b fs fs' \<longleftrightarrow> fs_deny fs' = fs_deny fs \<and>
     (\<forall>q. fs_lookup fs' q =
        (if prefix b q then fs_lookup fs (a @ drop (length b) q)
         else if prefix a q then None else fs_lookup fs q))"

lemma map_of_renamed:
  assumes "\<And>q x. (q, x) \<in> set ns \<Longrightarrow> \<not> prefix b q"
  shows "map_of (map (\<lambda>(q, x). (if prefix a q then b @ drop (length a) q else q, x)) ns) q =
    (if prefix b q then map_of ns (a @ drop (length b) q)
     else if prefix a q then None else map_of ns q)"
  using assms
proof (induction ns)
  case (Cons e ns)
  obtain r x where e: "e = (r, x)" by force
  have nb: "\<not> prefix b r" using Cons.prems [of r x] e by simp
  have IH: "map_of (map (\<lambda>(q, x). (if prefix a q then b @ drop (length a) q else q, x)) ns) q =
    (if prefix b q then map_of ns (a @ drop (length b) q)
     else if prefix a q then None else map_of ns q)"
    by (rule Cons.IH) (use Cons.prems in auto)
  show ?case
  proof (cases "prefix a r")
    case True
    then obtain s where "r = a @ s" by (auto simp: prefix_def)
    then show ?thesis using IH e by (auto simp: prefix_def)
  next
    case False
    then show ?thesis using IH e nb by (auto simp: prefix_def)
  qed
qed simp

lemma Rename_renamed:
  assumes ok: "fs_ok fs" and a: "fs_lookup fs a = Some n" and "a \<noteq> []" and "b \<noteq> []"
    and parent: "fs_lookup fs (butlast b) = Some FDir"
    and free: "\<And>q. prefix b q \<Longrightarrow> fs_lookup fs q = None" and "\<not> prefix a b"
  shows "\<exists>fs'. Rename a b fs = (None, fs') \<and> renamed a b fs fs'"
proof -
  have sa: "Stat fs a = Inr n" using ok a by (rule fs_ok_Stat_Some)
  have sb: "Stat fs b = Inl ENOENT"
    using fs_ok_Stat [OF ok assms(4) parent] free [of b] by simp
  have sp: "Stat fs (butlast b) = Inr FDir" using ok parent by (rule fs_ok_Stat_Some)
  have nd: "\<not> denied fs q" for q using ok by (simp add: fs_ok_def)
  have keys: "\<not> prefix b q" if "(q, x) \<in> set (fs_nodes fs)" for q x
  proof
    assume p: "prefix b q"
    then have "q \<noteq> []" using assms(4) by auto
    with free [OF p] have "q \<notin> set (m_keys (fs_nodes fs))" by (simp add: fs_lookup_def gm.keys_load)
    with that show False by (force simp: m_keys_def)
  qed
  then have flt: "filter (\<lambda>(q, x). q \<noteq> b) (fs_nodes fs) = fs_nodes fs"
    by (auto simp: filter_id_conv)
  let ?g = "fs\<lparr>fs_nodes := map (\<lambda>(q, x). (if prefix a q then b @ drop (length a) q else q, x)) (fs_nodes fs)\<rparr>"
  have "a \<noteq> b" using assms(7) by auto
  then have r: "Rename a b fs = (None, ?g)"
    using sa sb sp nd assms(7) flt by (simp add: Rename_def)
  have look: "fs_lookup ?g q =
      (if prefix b q then fs_lookup fs (a @ drop (length b) q)
       else if prefix a q then None else fs_lookup fs q)" for q
    using map_of_renamed [of "fs_nodes fs" b a q] keys assms(3,4)
    by (auto simp: fs_lookup_def m_load_def)
  show ?thesis
    by (intro exI [of _ ?g]) (simp add: r renamed_def look)
qed

lemma prefix_butlast: "q \<noteq> [] \<Longrightarrow> prefix a (butlast q) \<Longrightarrow> prefix a q"
  by (metis append_butlast_last_id prefix_snoc)

lemma renamed_ok:
  assumes ok: "fs_ok fs" and ren: "renamed a b fs fs'" and "b \<noteq> []"
    and parent: "fs_lookup fs (butlast b) = Some FDir" and ab: "\<not> prefix a b"
  shows "fs_ok fs'"
proof -
  have look: "fs_lookup fs' q = (if prefix b q then fs_lookup fs (a @ drop (length b) q)
      else if prefix a q then None else fs_lookup fs q)" for q
    using ren by (simp add: renamed_def)
  have "fs_lookup fs' (butlast q) = Some FDir" if q: "fs_lookup fs' q = Some n" "q \<noteq> []" for q n
  proof (cases "prefix b q")
    case True
    then obtain s where s: "q = b @ s" by (auto simp: prefix_def)
    show ?thesis
    proof (cases "s = []")
      case True
      have "\<not> prefix b (butlast b)" using assms(3) prefix_length_le [of b "butlast b"] by (cases "length b") auto
      moreover have "\<not> prefix a (butlast b)" using ab prefix_butlast assms(3) by blast
      ultimately show ?thesis using s True parent look [of "butlast b"] by simp
    next
      case False
      have "fs_lookup fs (a @ s) = Some n" using q(1) look [of q] s by simp
      then have "fs_lookup fs (butlast (a @ s)) = Some FDir"
        using ok False unfolding fs_ok_def by blast
      then show ?thesis using s False look [of "butlast q"] by (simp add: butlast_append)
    qed
  next
    case False
    then have "fs_lookup fs q = Some n" "\<not> prefix a q" using q(1) look [of q] by (auto split: if_splits)
    moreover from this ok q(2) have "fs_lookup fs (butlast q) = Some FDir" by (simp add: fs_ok_def)
    ultimately show ?thesis
      using False q(2) look [of "butlast q"] prefix_butlast by auto
  qed
  moreover have "fs_deny fs' = []" using ok ren by (simp add: fs_ok_def renamed_def)
  ultimately show ?thesis by (simp add: fs_ok_def)
qed

text \<open>Saving into a directory that exists replaces one file.\<close>

lemma save_into:
  assumes "fs_ok fs" and "list_all good_comp (cs @ [c])" and "fs_lookup fs cs = Some FDir"
    and "fs_lookup fs (cs @ [c]) \<noteq> Some FDir"
  shows "saveStringToFile (abs_path (cs @ [c])) t fs = (None, fs_put (cs @ [c]) (FFile t) fs)"
proof -
  have p: "path_of (abs_path (cs @ [c])) = cs @ [c]" "path_of (Dir (abs_path (cs @ [c]))) = cs"
    using assms(2) by (simp_all add: Dir_abs_path)
  have "Stat fs cs = Inr FDir" using assms(1,3) by (rule fs_ok_Stat_Some)
  then have "createDirIfNotExist (Dir (abs_path (cs @ [c]))) fs = (None, fs)"
    using p(2) by (simp add: createDirIfNotExist_def isFileExist_def)
  moreover have "WriteFile (cs @ [c]) t fs = (None, fs_put (cs @ [c]) (FFile t) fs)"
    using assms fs_ok_dirs [OF assms(1,3)] by (intro WriteFile_ok) (auto simp: dirs_ok_snoc fs_ok_def)
  ultimately show ?thesis using p(1) by (simp add: saveStringToFile_def go_err_def)
qed

lemma fs_ok_put:
  "fs_ok fs \<Longrightarrow> fs_lookup fs (butlast p) = Some FDir \<Longrightarrow> p \<noteq> [] \<Longrightarrow> fs_lookup fs p \<noteq> Some FDir \<Longrightarrow>
     fs_ok (fs_put p n fs)"
  by (auto simp: fs_ok_def)

end
