(* ===== verification/Output.thy ===== *)
theory Output
  imports FileStore Model
begin

text \<open>
  \<open>output/output.go\<close>: the log of a job run.  The first part is the \<open>Output\<close> object and its
  operations; the second the parser that reads a log file back into stages and steps; the third
  the interleaving of the background writer of \<open>timedWriteFile\<close> with the job's own goroutine,
  as a step relation.

  Times are nanoseconds since Go's zero time.  The calendar formats of package \<open>time\<close> (RFC 3339
  and \<open>Duration.String\<close>) are the argument \<open>C\<close>; every time reading is an argument.
\<close>

section \<open>Types\<close>

record time_format =
  tf_format :: "time \<Rightarrow> string"
  tf_parse :: "string \<Rightarrow> time option"
  tf_dformat :: "int \<Rightarrow> string"
  tf_dparse :: "string \<Rightarrow> int option"

text \<open>\<open>t, _ = time.Parse(...)\<close> leaves the zero value when the text does not parse.\<close>

definition or_zero :: "int option \<Rightarrow> int" where
  "or_zero v = (case v of Some x \<Rightarrow> x | None \<Rightarrow> 0)"

record TimeConsuming =
  tc_Done :: bool
  tc_StartTime :: time
  tc_EndTime :: time
  tc_Duration :: int

definition started_at :: "time \<Rightarrow> TimeConsuming" where
  "started_at t = \<lparr>tc_Done = False, tc_StartTime = t, tc_EndTime = 0, tc_Duration = 0\<rparr>"

datatype file_handle = NoFile | OpenFile | ClosedFile

record Output =
  o_Name :: string
  o_ID :: int
  o_buffer :: "string list"
  o_f :: file_handle
  o_filename :: string
  o_fileCursor :: nat
  o_bufferCursor :: nat
  o_stageTimeConsuming :: "(string, TimeConsuming) gomap"
  o_timeConsuming :: TimeConsuming

record LogStage =
  ls_StartTime :: time
  ls_EndTime :: time
  ls_Duration :: int
  ls_Name :: string
  ls_Lines :: "string list"

record Log =
  log_StartTime :: time
  log_EndTime :: time
  log_Duration :: int
  log_Stages :: "LogStage list"
  log_Lines :: "string list"

record LogStep =
  lstep_Name :: string
  lstep_lines :: "string list"
  lstep_Content :: string

definition fillContent :: "LogStep \<Rightarrow> LogStep" where
  "fillContent s = s\<lparr>lstep_Content := Join (lstep_lines s) nl\<rparr>"

section \<open>The Output object\<close>

definition end_line :: "string \<Rightarrow> string" where
  "end_line line = (if HasSuffix line nl then line else line @ nl)"

definition WriteLineWithNoTime :: "string \<Rightarrow> Output \<Rightarrow> Output" where
  "WriteLineWithNoTime line out = out\<lparr>o_buffer := o_buffer out @ [end_line line]\<rparr>"

definition WriteLine :: "time_format \<Rightarrow> time \<Rightarrow> string \<Rightarrow> Output \<Rightarrow> Output" where
  "WriteLine C now line out =
     out\<lparr>o_buffer := o_buffer out @ [''['' @ tf_format C now @ ''] '' @ end_line line]\<rparr>"

definition WriteCommandLine :: "time_format \<Rightarrow> time \<Rightarrow> string \<Rightarrow> Output \<Rightarrow> Output" where
  "WriteCommandLine C now line out = WriteLine C now (''> '' @ line) out"

definition Content :: "Output \<Rightarrow> string \<times> Output" where
  "Content out =
     (let out' = out\<lparr>o_bufferCursor := length (o_buffer out)\<rparr> in
      (Join (take (o_bufferCursor out') (o_buffer out')) [], out'))"

definition NewContent :: "Output \<Rightarrow> string \<times> Output" where
  "NewContent out =
     (if o_bufferCursor out \<ge> length (o_buffer out) then ([], out)
      else (let endIndex = length (o_buffer out) in
        (Join (drop (o_bufferCursor out) (take endIndex (o_buffer out))) [],
         out\<lparr>o_bufferCursor := endIndex\<rparr>)))"

definition Duration :: "time \<Rightarrow> Output \<Rightarrow> int" where
  "Duration now out =
     (if tc_Done (o_timeConsuming out) then tc_Duration (o_timeConsuming out)
      else now - tc_StartTime (o_timeConsuming out))"

definition StageDuration :: "time \<Rightarrow> string \<Rightarrow> Output \<Rightarrow> int" where
  "StageDuration now name out =
     (case m_load (o_stageTimeConsuming out) name of
        None \<Rightarrow> 0
      | Some tc \<Rightarrow>
          if tc_Done tc then tc_Duration tc
          else if tc_StartTime tc = 0 then 0
          else now - tc_StartTime tc)"

text \<open>\<open>initFile\<close>: the directories, then the log file opened for appending.\<close>

definition log_path :: "string \<Rightarrow> string \<Rightarrow> int \<Rightarrow> string" where
  "log_path cfg name jid = PathJoin [cfg, ''jobs'', name, ''job-details-log'', Itoa jid @ ''.log'']"

definition OpenAppend :: "path \<Rightarrow> fs \<Rightarrow> errno option \<times> fs" where
  "OpenAppend p fs =
     (case Stat fs p of Inr (FFile d) \<Rightarrow> WriteFile p d fs | _ \<Rightarrow> WriteFile p [] fs)"

definition initFile :: "string \<Rightarrow> Output \<Rightarrow> fs \<Rightarrow> error option \<times> Output \<times> fs" where
  "initFile cfg out fs =
     (if o_f out \<noteq> NoFile then (None, out, fs)
      else (let out1 = (if o_filename out = []
                        then out\<lparr>o_filename := log_path cfg (o_Name out) (o_ID out)\<rparr> else out) in
        case MkdirAll (path_of (Dir (o_filename out1))) fs of
          (Some e, fs1) \<Rightarrow> (Some (errno_msg e), out1, fs1)
        | (None, fs1) \<Rightarrow>
            (case OpenAppend (path_of (o_filename out1)) fs1 of
               (Some e, fs2) \<Rightarrow> (Some (errno_msg e), out1, fs2)
             | (None, fs2) \<Rightarrow> (None, out1\<lparr>o_f := OpenFile\<rparr>, fs2))))"

text \<open>\<open>flush\<close> writes line by line; a closed file is an error.\<close>

definition WriteString :: "path \<Rightarrow> string \<Rightarrow> fs \<Rightarrow> fs" where
  "WriteString p s fs =
     (case fs_lookup fs p of Some (FFile c) \<Rightarrow> fs_put p (FFile (c @ s)) fs | _ \<Rightarrow> fs)"

fun flush_loop :: "file_handle \<Rightarrow> path \<Rightarrow> string list \<Rightarrow> fs \<Rightarrow> error option \<times> fs" where
  "flush_loop h p [] fs = (None, fs)"
| "flush_loop h p (line # arr) fs =
     (if h = ClosedFile then (Some ''file already closed'', fs)
      else flush_loop h p arr (WriteString p line fs))"

definition flush :: "string list \<Rightarrow> Output \<Rightarrow> fs \<Rightarrow> error option \<times> fs" where
  "flush arr out fs =
     (if o_f out = NoFile then (None, fs) else flush_loop (o_f out) (path_of (o_filename out)) arr fs)"

definition NewOutput :: "time_format \<Rightarrow> string \<Rightarrow> time \<Rightarrow> string \<Rightarrow> int \<Rightarrow> fs \<Rightarrow> Output \<times> fs" where
  "NewOutput C cfg now name jid fs =
     (let out = \<lparr>o_Name = name, o_ID = jid, o_buffer = [], o_f = NoFile, o_filename = [],
                 o_fileCursor = 0, o_bufferCursor = 0, o_stageTimeConsuming = [],
                 o_timeConsuming = started_at now\<rparr> in
      case initFile cfg out fs of
        (Some err, out1, fs1) \<Rightarrow> (out1, fs1)
      | (None, out1, fs1) \<Rightarrow>
          (WriteLineWithNoTime
             (''[Job] Started on '' @ tf_format C (tc_StartTime (o_timeConsuming out1))) out1, fs1))"

text \<open>
  Both \<open>NewStage\<close> and \<open>Done\<close> close the stages that are still open, ranging over the map in some
  order; \<open>now k\<close> is the time read for the stage \<open>k\<close>.
\<close>

fun close_stages :: "time_format \<Rightarrow> (string \<Rightarrow> time) \<Rightarrow> string list \<Rightarrow> Output \<Rightarrow> Output" where
  "close_stages C now [] out = out"
| "close_stages C now (k # ks) out =
     (case m_load (o_stageTimeConsuming out) k of
        None \<Rightarrow> close_stages C now ks out
      | Some v \<Rightarrow>
          if \<not> tc_Done v then
            (let v' = v\<lparr>tc_EndTime := now k, tc_Duration := now k - tc_StartTime v, tc_Done := True\<rparr>;
                 out1 = out\<lparr>o_stageTimeConsuming := m_store k v' (o_stageTimeConsuming out)\<rparr> in
             close_stages C now ks
               (WriteLineWithNoTime (''[TimeConsuming] EndTime: '' @ tf_format C (tc_EndTime v') @
                  '', Duration: '' @ tf_dformat C (tc_Duration v')) out1))
          else close_stages C now ks out)"

definition stage_header :: string where
  "stage_header = ''[Pipeline] Stage: ''"

definition step_header :: string where
  "step_header = ''[Pipeline] Step: ''"

definition NewStage :: "time_format \<Rightarrow> (string list \<Rightarrow> string list) \<Rightarrow> (string \<Rightarrow> time) \<Rightarrow> time \<Rightarrow>
    string \<Rightarrow> Output \<Rightarrow> Output" where
  "NewStage C ord now startTime name out =
     (let out1 = close_stages C now (ord (m_keys (o_stageTimeConsuming out))) out;
          out2 = WriteLineWithNoTime (stage_header @ name) (WriteLineWithNoTime nl out1);
          out3 = WriteLineWithNoTime (''[TimeConsuming] StartTime: '' @ tf_format C startTime) out2 in
      out3\<lparr>o_stageTimeConsuming := m_store name (started_at startTime) (o_stageTimeConsuming out3)\<rparr>)"

definition NewStep :: "string \<Rightarrow> Output \<Rightarrow> Output" where
  "NewStep name out = WriteLineWithNoTime (step_header @ name) out"

definition job_trailer :: "time_format \<Rightarrow> time \<Rightarrow> int \<Rightarrow> string" where
  "job_trailer C now d =
     nl @ ''[Job] Finished on '' @ tf_format C now @ '', Duration: '' @ tf_dformat C d @ nl @ nl"

definition Done :: "time_format \<Rightarrow> (string list \<Rightarrow> string list) \<Rightarrow> time \<Rightarrow> Output \<Rightarrow> fs \<Rightarrow> Output \<times> fs" where
  "Done C ord now out fs =
     (let out1 = close_stages C (\<lambda>_. now) (ord (m_keys (o_stageTimeConsuming out))) out;
          tc = o_timeConsuming out1;
          out2 = out1\<lparr>o_timeConsuming := tc\<lparr>tc_Done := True, tc_EndTime := now,
                        tc_Duration := now - tc_StartTime tc\<rparr>\<rparr>;
          fs1 = snd (flush (drop (o_fileCursor out2) (o_buffer out2)) out2 fs);
          fs2 = snd (flush [job_trailer C now (tc_Duration (o_timeConsuming out2))] out2 fs1) in
      (out2\<lparr>o_f := (if o_f out2 = NoFile then NoFile else ClosedFile)\<rparr>, fs2))"

text \<open>One round of the background writer with nothing in between: flush, then move the cursor.\<close>

definition write_round :: "Output \<Rightarrow> fs \<Rightarrow> Output \<times> fs" where
  "write_round out fs =
     (let endIndex = length (o_buffer out) in
      (out\<lparr>o_fileCursor := endIndex\<rparr>,
       snd (flush (drop (o_fileCursor out) (take endIndex (o_buffer out))) out fs)))"

section \<open>Reading a log back\<close>

definition ReadFileLines :: "string \<Rightarrow> fs \<Rightarrow> string list res" where
  "ReadFileLines filename fs =
     (case GetFileData filename fs of Inl e \<Rightarrow> Inl e | Inr content \<Rightarrow> Inr (scan_lines content))"

definition skipped :: "string \<Rightarrow> bool" where
  "skipped line \<longleftrightarrow> HasPrefix line ''[Job]'' \<or> line = nl \<or> line = []"

definition parse_times :: "time_format \<Rightarrow> string \<Rightarrow> string \<Rightarrow> time \<times> int \<Rightarrow> time \<times> int" where
  "parse_times C mark line acc =
     (let parts = Split (TrimPrefix line mark) '','' in
      (or_zero (tf_parse C (hd parts)),
       if length parts > 1 then or_zero (tf_dparse C (TrimPrefix (parts ! 1) '' Duration: '')) else snd acc))"

definition job_line :: "time_format \<Rightarrow> string \<Rightarrow> Log \<Rightarrow> Log" where
  "job_line C line log =
     (let log1 = (if HasPrefix line ''[Job] Started on ''
                  then log\<lparr>log_StartTime := or_zero (tf_parse C (TrimPrefix line ''[Job] Started on ''))\<rparr>
                  else log) in
      if HasPrefix line ''[Job] Finished on ''
      then (case parse_times C ''[Job] Finished on '' line (log_EndTime log1, log_Duration log1) of
              (t, d) \<Rightarrow> log1\<lparr>log_EndTime := t, log_Duration := d\<rparr>)
      else log1)"

text \<open>State of the first loop: the log, the current stage, the stage names in order, the map.\<close>

type_synonym parse_state = "Log \<times> string \<times> string list \<times> (string, string list) gomap"

definition m_append :: "string \<Rightarrow> string \<Rightarrow> (string, string list) gomap \<Rightarrow> (string, string list) gomap" where
  "m_append k line m = m_store k ((case m_load m k of Some ls \<Rightarrow> ls | None \<Rightarrow> []) @ [line]) m"

fun parse_line :: "time_format \<Rightarrow> string \<Rightarrow> parse_state \<Rightarrow> parse_state" where
  "parse_line C line (log, stageName, names, m) =
     (if skipped line then (job_line C line log, stageName, names, m)
      else if HasPrefix line stage_header
      then (let n = TrimPrefix line stage_header in
            (log, n, names @ [n], m_append n line (m_store n [] m)))
      else (log, stageName, names, m_append stageName line m))"

fun stage_times :: "time_format \<Rightarrow> string list \<Rightarrow> LogStage \<Rightarrow> LogStage" where
  "stage_times C [] st = st"
| "stage_times C (line # ls) st =
     stage_times C ls
       (let st1 = (if HasPrefix line ''[TimeConsuming] StartTime: ''
                   then st\<lparr>ls_StartTime := or_zero (tf_parse C (TrimPrefix line ''[TimeConsuming] StartTime: ''))\<rparr>
                   else st) in
        if HasPrefix line ''[TimeConsuming] EndTime: ''
        then (case parse_times C ''[TimeConsuming] EndTime: '' line (ls_EndTime st1, ls_Duration st1) of
                (t, d) \<Rightarrow> st1\<lparr>ls_EndTime := t, ls_Duration := d\<rparr>)
        else st1)"

definition log_stage :: "time_format \<Rightarrow> string \<Rightarrow> string list \<Rightarrow> LogStage" where
  "log_stage C k v =
     stage_times C v \<lparr>ls_StartTime = 0, ls_EndTime = 0, ls_Duration = 0, ls_Name = k, ls_Lines = v\<rparr>"

text \<open>The second loop ranges over the map, in the order \<open>ord\<close>, and over the stage names.\<close>

fun collect_stages :: "time_format \<Rightarrow> string list \<Rightarrow> string list \<Rightarrow> (string, string list) gomap \<Rightarrow>
    LogStage list" where
  "collect_stages C [] names m = []"
| "collect_stages C (k # ks) names m =
     (case m_load m k of
        None \<Rightarrow> collect_stages C ks names m
      | Some v \<Rightarrow> map (\<lambda>_. log_stage C k v) (filter (\<lambda>n. n = k) names) @ collect_stages C ks names m)"

definition empty_log :: "string list \<Rightarrow> Log" where
  "empty_log lines = \<lparr>log_StartTime = 0, log_EndTime = 0, log_Duration = 0, log_Stages = [], log_Lines = lines\<rparr>"

definition parseLogLines :: "time_format \<Rightarrow> (string list \<Rightarrow> string list) \<Rightarrow> string list \<Rightarrow> Log" where
  "parseLogLines C ord lines =
     (case fold (parse_line C) lines (empty_log lines, ''unknown'', [], []) of
        (log, stageName, names, m) \<Rightarrow>
          log\<lparr>log_Stages := collect_stages C (ord (m_keys m)) names m\<rparr>)"

definition ParseLogFile :: "time_format \<Rightarrow> (string list \<Rightarrow> string list) \<Rightarrow> string \<Rightarrow> fs \<Rightarrow> Log res" where
  "ParseLogFile C ord filename fs =
     (case ReadFileLines filename fs of Inl e \<Rightarrow> Inl e | Inr lines \<Rightarrow> Inr (parseLogLines C ord lines))"

definition StageOutputList :: "time_format \<Rightarrow> (string list \<Rightarrow> string list) \<Rightarrow> Output \<Rightarrow> LogStage list" where
  "StageOutputList C ord out = log_Stages (parseLogLines C ord (o_buffer out))"

fun step_line :: "string \<Rightarrow> string list \<times> (string, LogStep) gomap \<Rightarrow>
    string list \<times> (string, LogStep) gomap" where
  "step_line s (names, m) =
     (if HasPrefix s ''[TimeConsuming]'' then (names, m)
      else if HasPrefix s step_header
      then (let n = TrimPrefix s step_header in
            (names @ [n], m_store n \<lparr>lstep_Name = n, lstep_lines = [], lstep_Content = []\<rparr> m))
      else if names = [] then (names, m)
      else (case m_load m (last names) of
              None \<Rightarrow> (names, m)
            | Some st \<Rightarrow> (names, m_store (last names) (st\<lparr>lstep_lines := lstep_lines st @ [s]\<rparr>) m)))"

text \<open>The inner range over the map appends the one entry with the name, in any order.\<close>

definition ParseStageSteps :: "LogStage \<Rightarrow> LogStep list" where
  "ParseStageSteps stage =
     (case fold step_line (ls_Lines stage) ([], []) of
        (names, m) \<Rightarrow> map fillContent (concat (map (\<lambda>n.
           case m_load m n of Some v \<Rightarrow> [v] | None \<Rightarrow> []) names)))"

section \<open>The log file holds the buffer\<close>

text \<open>What an operation of the job's goroutine does to the object: it only appends lines.\<close>

definition appends :: "Output \<Rightarrow> Output \<Rightarrow> bool" where
  "appends out out' \<longleftrightarrow>
     (\<exists>ls. o_buffer out' = o_buffer out @ ls) \<and> o_f out' = o_f out \<and>
     o_filename out' = o_filename out \<and> o_fileCursor out' = o_fileCursor out \<and>
     o_bufferCursor out' = o_bufferCursor out \<and> o_timeConsuming out' = o_timeConsuming out"

lemma appends_refl [simp]: "appends out out"
  by (simp add: appends_def)

lemma appends_trans: "appends a b \<Longrightarrow> appends b c \<Longrightarrow> appends a c"
  by (auto simp: appends_def)

lemma appends_line [simp]: "appends out (WriteLineWithNoTime l out)" "appends out (WriteLine C t l out)"
  "appends out (WriteCommandLine C t l out)" "appends out (NewStep l out)"
  by (simp_all add: appends_def WriteLineWithNoTime_def WriteLine_def WriteCommandLine_def NewStep_def)

lemma appends_stages [simp]: "appends out (out\<lparr>o_stageTimeConsuming := m\<rparr>)"
  by (simp add: appends_def)

lemma appends_intros:
  "appends a b \<Longrightarrow> appends a (WriteLineWithNoTime l b)"
  "appends a b \<Longrightarrow> appends a (b\<lparr>o_stageTimeConsuming := m\<rparr>)"
  by (erule appends_trans, simp)+

lemma appends_close_stages: "appends out0 out \<Longrightarrow> appends out0 (close_stages C now ks out)"
  by (induction C now ks out rule: close_stages.induct)
    (simp_all add: Let_def appends_intros split: option.split)

lemma appends_NewStage [simp]: "appends out (NewStage C ord now t name out)"
  unfolding NewStage_def Let_def by (intro appends_intros appends_close_stages appends_refl)

datatype out_op =
    Op_line time string
  | Op_command time string
  | Op_stage "string \<Rightarrow> time" time string
  | Op_step string
  | Op_round

text \<open>A run of the object's operations, rounds of the background writer in between.\<close>

fun out_step :: "time_format \<Rightarrow> (string list \<Rightarrow> string list) \<Rightarrow> out_op \<Rightarrow> Output \<times> fs \<Rightarrow> Output \<times> fs" where
  "out_step C ord (Op_line t l) (out, fs) = (WriteLine C t l out, fs)"
| "out_step C ord (Op_command t l) (out, fs) = (WriteCommandLine C t l out, fs)"
| "out_step C ord (Op_stage now t n) (out, fs) = (NewStage C ord now t n out, fs)"
| "out_step C ord (Op_step n) (out, fs) = (NewStep n out, fs)"
| "out_step C ord Op_round (out, fs) = write_round out fs"

definition log_inv :: "string \<Rightarrow> string \<Rightarrow> Output \<times> fs \<Rightarrow> bool" where
  "log_inv old p s \<longleftrightarrow>
     o_f (fst s) = OpenFile \<and> o_filename (fst s) = p \<and>
     o_fileCursor (fst s) \<le> length (o_buffer (fst s)) \<and>
     readStringFromFile p (snd s) = Inr (old @ concat (take (o_fileCursor (fst s)) (o_buffer (fst s))))"

lemma flush_loop_read:
  "readStringFromFile p fs = Inr c \<Longrightarrow>
     fst (flush_loop OpenFile (path_of p) arr fs) = None \<and>
     readStringFromFile p (snd (flush_loop OpenFile (path_of p) arr fs)) = Inr (c @ concat arr)"
proof (induction arr arbitrary: c fs)
  case (Cons a arr)
  have ne: "path_of p \<noteq> []" using Cons.prems by (auto simp: read_iff)
  have "readStringFromFile p (WriteString (path_of p) a fs) = Inr (c @ a)"
    using Cons.prems ne dirs_ok_put [of fs "path_of p" "path_of p" "FFile (c @ a)"]
    by (simp add: read_iff WriteString_def)
  from Cons.IH [OF this] show ?case by simp
qed simp

lemma log_inv_appends:
  "log_inv old p (out, fs) \<Longrightarrow> appends out out' \<Longrightarrow> log_inv old p (out', fs)"
  by (auto simp: log_inv_def appends_def)

lemma flush_read:
  assumes "o_f out = OpenFile" and "readStringFromFile (o_filename out) fs = Inr c"
  shows "readStringFromFile (o_filename out) (snd (flush arr out fs)) = Inr (c @ concat arr)"
  using flush_loop_read [OF assms(2), of arr] assms(1) by (simp add: flush_def)

lemma log_inv_round:
  assumes "log_inv old p (out, fs)"
  shows "log_inv old p (write_round out fs)"
proof -
  let ?c = "o_fileCursor out" and ?b = "o_buffer out"
  have "take ?c ?b @ drop ?c (take (length ?b) ?b) = ?b" by simp
  then have "concat (take ?c ?b) @ concat (drop ?c (take (length ?b) ?b)) = concat ?b"
    by (metis concat_append)
  then show ?thesis
    using assms flush_read [of out fs "old @ concat (take ?c ?b)" "drop ?c (take (length ?b) ?b)"]
    by (auto simp: log_inv_def write_round_def Let_def)
qed

lemma log_inv_run:
  "log_inv old p s \<Longrightarrow> log_inv old p (fold (out_step C ord) ops s)"
proof (induction ops arbitrary: s)
  case (Cons a ops)
  obtain out fs where s: "s = (out, fs)" by force
  have "log_inv old p (out_step C ord a s)"
    using Cons.prems s
    by (cases a) (auto intro: log_inv_appends log_inv_round)
  then show ?case using Cons.IH by simp
qed simp

lemma log_inv_start:
  assumes "log_inv old p (out, fs)"
  shows "readStringFromFile p (snd (Done C ord now out fs)) =
    Inr (old @ concat (o_buffer (close_stages C (\<lambda>_. now) (ord (m_keys (o_stageTimeConsuming out))) out)) @
         job_trailer C now (now - tc_StartTime (o_timeConsuming out)))"
proof -
  define out1 where "out1 = close_stages C (\<lambda>_. now) (ord (m_keys (o_stageTimeConsuming out))) out"
  have ap: "appends out out1" by (simp add: out1_def appends_close_stages)
  with assms have inv: "log_inv old p (out1, fs)" by (rule log_inv_appends)
  define out2 where "out2 = out1\<lparr>o_timeConsuming := (o_timeConsuming out1)\<lparr>tc_Done := True,
     tc_EndTime := now, tc_Duration := now - tc_StartTime (o_timeConsuming out1)\<rparr>\<rparr>"
  let ?c = "o_fileCursor out1" and ?b = "o_buffer out1"
  let ?fs1 = "snd (flush (drop ?c ?b) out2 fs)"
  have o2: "o_f out2 = OpenFile" "o_filename out2 = p" "o_buffer out2 = ?b" "o_fileCursor out2 = ?c"
    using inv by (simp_all add: out2_def log_inv_def)
  have "readStringFromFile p ?fs1 = Inr ((old @ concat (take ?c ?b)) @ concat (drop ?c ?b))"
    using flush_read [of out2 fs "old @ concat (take ?c ?b)" "drop ?c ?b"] o2 inv
    by (simp add: log_inv_def)
  then have "readStringFromFile p ?fs1 = Inr (old @ concat ?b)"
    by (metis append.assoc append_take_drop_id concat_append)
  from flush_read [OF o2(1) this [folded o2(2)], of "[job_trailer C now (now - tc_StartTime (o_timeConsuming out))]"]
  show ?thesis
    using ap o2 by (simp add: Done_def Let_def out1_def [symmetric] out2_def [symmetric] appends_def)
      (simp add: out2_def)
qed

lemma WriteFile_read:
  "WriteFile (path_of p) c fs = (None, fs') \<Longrightarrow> readStringFromFile p fs' = Inr c"
  using WriteFile_None [of "path_of p" c fs fs'] dirs_ok_put [of fs "path_of p" "path_of p" "FFile c"]
  by (simp add: read_iff)

lemma OpenAppend_read:
  assumes "OpenAppend (path_of p) fs = (None, fs')"
  shows "readStringFromFile p fs' =
    Inr (case fs_lookup fs (path_of p) of Some (FFile d) \<Rightarrow> d | _ \<Rightarrow> [])"
proof (cases "Stat fs (path_of p)")
  case (Inl e)
  with assms have w: "WriteFile (path_of p) [] fs = (None, fs')" by (simp add: OpenAppend_def)
  from WriteFile_None [OF w] Inl Stat_Inr [of fs "path_of p"]
  have "fs_lookup fs (path_of p) = None" by (cases "fs_lookup fs (path_of p)") auto
  with WriteFile_read [OF w] show ?thesis by simp
next
  case (Inr n)
  with assms show ?thesis
    using WriteFile_read [of p _ fs fs'] Inr
    by (cases n) (auto simp: OpenAppend_def Stat_Inr)
qed

lemma NewOutput_open:
  assumes "NewOutput C cfg t name jid fs = (out, fs1)" and "o_f out = OpenFile"
  shows "\<exists>old. log_inv old (log_path cfg name jid) (out, fs1) \<and>
    old = (case fs_lookup fs (path_of (log_path cfg name jid)) of Some (FFile d) \<Rightarrow> d | _ \<Rightarrow> [])"
proof -
  let ?p = "log_path cfg name jid"
  obtain e m fsm where m: "MkdirAll (path_of (Dir ?p)) fs = (e, fsm)" by force
  obtain e2 fs2 where op: "OpenAppend (path_of ?p) fsm = (e2, fs2)" by force
  have none: "e = None" "e2 = None" "fs1 = fs2"
    using assms m op
    by (auto simp: NewOutput_def initFile_def Let_def WriteLineWithNoTime_def split: option.splits)
  from MkdirAll_adds [OF m] have ad: "adds_dirs (path_of (Dir ?p)) fs fsm" by simp
  have nd: "fs_lookup fsm (path_of ?p) \<noteq> Some FDir"
    using op none WriteFile_None [of "path_of ?p"] Stat_Inr [of fsm "path_of ?p"]
    by (auto simp: OpenAppend_def split: sum.splits fnode.splits)
  then have same: "fs_lookup fsm (path_of ?p) = fs_lookup fs (path_of ?p)"
    using ad by (auto simp: adds_dirs_def)
  have "readStringFromFile ?p fs1 =
      Inr (case fs_lookup fs (path_of ?p) of Some (FFile d) \<Rightarrow> d | _ \<Rightarrow> [])"
    using OpenAppend_read [of ?p fsm fs2] op none same by simp
  then show ?thesis
    using assms m op none
    by (auto simp: NewOutput_def initFile_def Let_def WriteLineWithNoTime_def log_inv_def
        split: option.splits)
qed


definition demo_format :: time_format where
  "demo_format = \<lparr>tf_format = (\<lambda>t. Itoa t), tf_parse = (\<lambda>s. None),
     tf_dformat = (\<lambda>d. Itoa d), tf_dparse = (\<lambda>s. None)\<rparr>"

definition demo_fs :: fs where
  "demo_fs = \<lparr>fs_nodes = [], fs_deny = []\<rparr>"

definition demo_out :: "Output \<times> fs" where
  "demo_out = NewOutput demo_format ''/p'' 5 ''j'' 1 demo_fs"

definition demo_ops :: "out_op list" where
  "demo_ops = [Op_stage (\<lambda>_. 6) 6 ''s'', Op_round, Op_line 7 ''x'', Op_round, Op_step ''t'']"

lemma demo_out_open: "o_f (fst demo_out) = OpenFile"
  by code_simp


section \<open>Reading new content\<close>

fun write_and_read :: "string list list \<Rightarrow> Output \<Rightarrow> string list \<times> Output" where
  "write_and_read [] out = ([], out)"
| "write_and_read (ls # lss) out =
     (case NewContent (fold WriteLineWithNoTime ls out) of
        (r, out1) \<Rightarrow> (case write_and_read lss out1 of (rs, out2) \<Rightarrow> (r # rs, out2)))"

lemma Join_empty_sep: "Join xs [] = concat xs"
  by (induction xs "[] :: string" rule: Join.induct) auto

lemma fold_lines: "fold WriteLineWithNoTime ls out = out\<lparr>o_buffer := o_buffer out @ map end_line ls\<rparr>"
  by (induction ls arbitrary: out) (simp_all add: WriteLineWithNoTime_def)

lemma write_and_read_all:
  "o_bufferCursor out \<le> length (o_buffer out) \<Longrightarrow> lss \<noteq> [] \<Longrightarrow>
     concat (fst (write_and_read lss out)) =
       concat (drop (o_bufferCursor out) (o_buffer (snd (write_and_read lss out)))) \<and>
     o_buffer (snd (write_and_read lss out)) = o_buffer out @ map end_line (concat lss)"
proof (induction lss arbitrary: out)
  case (Cons ls lss)
  define out1 where "out1 = fold WriteLineWithNoTime ls out"
  define r where "r = fst (NewContent out1)"
  define out2 where "out2 = snd (NewContent out1)"
  have b1: "o_buffer out1 = o_buffer out @ map end_line ls" "o_bufferCursor out1 = o_bufferCursor out"
    by (simp_all add: out1_def fold_lines)
  have nc: "NewContent out1 = (r, out2)" by (simp add: r_def out2_def)
  have r: "r = concat (drop (o_bufferCursor out) (o_buffer out1))"
    and o2: "o_buffer out2 = o_buffer out1" "o_bufferCursor out2 = length (o_buffer out2)"
    using Cons.prems(1) b1
    by (cases ls; auto simp: r_def out2_def NewContent_def Let_def Join_empty_sep)+
  show ?case
  proof (cases "lss = []")
    case True
    then show ?thesis using nc r o2 b1 by (simp add: out1_def [symmetric])
  next
    case False
    from Cons.IH [OF _ False, of out2] o2
    have IH: "concat (fst (write_and_read lss out2)) = concat (map end_line (concat lss))"
      "o_buffer (snd (write_and_read lss out2)) = o_buffer out2 @ map end_line (concat lss)"
      by auto
    have "drop (o_bufferCursor out) (o_buffer out1 @ map end_line (concat lss)) =
        drop (o_bufferCursor out) (o_buffer out1) @ map end_line (concat lss)"
      using Cons.prems(1) b1 by simp
    then show ?thesis
      using nc r o2 b1 IH by (simp add: out1_def [symmetric] split_beta)
  qed
qed simp

text \<open>
  C13. A reader that calls \<open>NewContent\<close> after each batch of writes has read, after any number of
  batches, exactly the lines written since its last reading: nothing twice, nothing missing.
\<close>

theorem new_content_stream:
  assumes "o_bufferCursor out \<le> length (o_buffer out)" and "lss \<noteq> []"
  shows "concat (fst (write_and_read lss out)) =
      concat (drop (o_bufferCursor out) (o_buffer out @ map end_line (concat lss))) \<and>
    fst (Content (snd (write_and_read lss out))) = concat (o_buffer out @ map end_line (concat lss))"
  using write_and_read_all [OF assms] by (simp add: Content_def Let_def Join_empty_sep)

theorem new_content_stream_witness:
  "concat (fst (write_and_read [[''a'', ''b''], [''c'']] (fst demo_out))) =
      concat (drop (o_bufferCursor (fst demo_out)) (o_buffer (fst demo_out) @ map end_line [''a'', ''b'', ''c''])) \<and>
    fst (Content (snd (write_and_read [[''a'', ''b''], [''c'']] (fst demo_out)))) =
      concat (o_buffer (fst demo_out) @ map end_line [''a'', ''b'', ''c''])"
  using new_content_stream [of "fst demo_out" "[[''a'', ''b''], [''c'']]"]
  by (simp add: demo_out_def NewOutput_def Let_def initFile_def WriteLineWithNoTime_def
      split: option.splits prod.splits)

section \<open>The background writer and \<open>Done\<close>, interleaved\<close>

text \<open>
  The writer's program counter: before the check of \<open>Done\<close> under the lock, between the check and
  the flush, in the flush (the lines still to write and the new cursor), stopped.  \<open>Done\<close>: not
  called yet, flushing under the lock, closed.  Lines are written to the file one at a time.
\<close>

datatype writer_pc = W_Check | W_Ready | W_Flush "string list" nat | W_Stopped

datatype done_pc = D_NotCalled | D_Flush "string list" | D_Closed

record shared_log =
  sl_out :: Output
  sl_end :: nat
  sl_writer :: writer_pc
  sl_done :: done_pc
  sl_file :: string

definition begin_done :: "string \<Rightarrow> shared_log \<Rightarrow> shared_log" where
  "begin_done trailer s =
     (let out = sl_out s in
      s\<lparr>sl_out := out\<lparr>o_timeConsuming := (o_timeConsuming out)\<lparr>tc_Done := True\<rparr>\<rparr>,
        sl_done := D_Flush (drop (o_fileCursor out) (o_buffer out) @ [trailer])\<rparr>)"

inductive log_step :: "string \<Rightarrow> shared_log \<Rightarrow> shared_log \<Rightarrow> bool" for trailer where
  write_line: "sl_done s = D_NotCalled \<Longrightarrow>
    log_step trailer s (s\<lparr>sl_out := WriteLineWithNoTime l (sl_out s)\<rparr>)"
| check_done: "sl_writer s = W_Check \<Longrightarrow> tc_Done (o_timeConsuming (sl_out s)) \<Longrightarrow> sl_done s = D_Closed \<Longrightarrow>
    log_step trailer s (s\<lparr>sl_writer := W_Stopped\<rparr>)"
| check_go_on: "sl_writer s = W_Check \<Longrightarrow> \<not> tc_Done (o_timeConsuming (sl_out s)) \<Longrightarrow>
    log_step trailer s (s\<lparr>sl_writer := W_Ready\<rparr>)"
| sleep: "sl_writer s = W_Ready \<Longrightarrow> length (o_buffer (sl_out s)) \<le> sl_end s \<Longrightarrow>
    log_step trailer s (s\<lparr>sl_writer := W_Check\<rparr>)"
| start_flush: "sl_writer s = W_Ready \<Longrightarrow> sl_end s < length (o_buffer (sl_out s)) \<Longrightarrow>
    log_step trailer s (s\<lparr>sl_end := length (o_buffer (sl_out s)),
      sl_writer := W_Flush (drop (o_fileCursor (sl_out s)) (o_buffer (sl_out s)))
                           (length (o_buffer (sl_out s)))\<rparr>)"
| flush_line: "sl_writer s = W_Flush (l # ls) n \<Longrightarrow> sl_done s \<noteq> D_Closed \<Longrightarrow>
    log_step trailer s (s\<lparr>sl_writer := W_Flush ls n, sl_file := sl_file s @ l\<rparr>)"
| flush_closed: "sl_writer s = W_Flush (l # ls) n \<Longrightarrow> sl_done s = D_Closed \<Longrightarrow>
    log_step trailer s (s\<lparr>sl_writer := W_Flush [] n\<rparr>)"
| move_cursor: "sl_writer s = W_Flush [] n \<Longrightarrow>
    log_step trailer s (s\<lparr>sl_writer := W_Check, sl_out := (sl_out s)\<lparr>o_fileCursor := n\<rparr>\<rparr>)"
| done_begin: "sl_done s = D_NotCalled \<Longrightarrow> log_step trailer s (begin_done trailer s)"
| done_line: "sl_done s = D_Flush (l # ls) \<Longrightarrow>
    log_step trailer s (s\<lparr>sl_done := D_Flush ls, sl_file := sl_file s @ l\<rparr>)"
| done_close: "sl_done s = D_Flush [] \<Longrightarrow> log_step trailer s (s\<lparr>sl_done := D_Closed\<rparr>)"

abbreviation log_steps :: "string \<Rightarrow> shared_log \<Rightarrow> shared_log \<Rightarrow> bool" where
  "log_steps trailer \<equiv> (log_step trailer)\<^sup>*\<^sup>*"

definition new_log :: "Output \<Rightarrow> shared_log" where
  "new_log out = \<lparr>sl_out = out\<lparr>o_buffer := [], o_fileCursor := 0,
       o_timeConsuming := (o_timeConsuming out)\<lparr>tc_Done := False\<rparr>\<rparr>,
     sl_end = 0, sl_writer = W_Check, sl_done = D_NotCalled, sl_file = []\<rparr>"

text \<open>Before \<open>Done\<close>: the file and the lines being flushed are a prefix of the buffer.\<close>

definition flushed :: "shared_log \<Rightarrow> bool" where
  "flushed s \<longleftrightarrow>
     \<not> tc_Done (o_timeConsuming (sl_out s)) \<and> o_fileCursor (sl_out s) \<le> length (o_buffer (sl_out s)) \<and>
     (case sl_writer s of
        W_Flush ls n \<Rightarrow> n \<le> length (o_buffer (sl_out s)) \<and>
          sl_file s @ concat ls = concat (take n (o_buffer (sl_out s)))
      | W_Stopped \<Rightarrow> False
      | _ \<Rightarrow> sl_file s = concat (take (o_fileCursor (sl_out s)) (o_buffer (sl_out s))))"

lemma concat_take_drop: "concat (take n xs) @ concat (drop n xs) = concat xs"
  by (metis append_take_drop_id concat_append)

lemma flushed_step:
  "log_step trailer s s' \<Longrightarrow> sl_done s = D_NotCalled \<longrightarrow> flushed s \<Longrightarrow>
     sl_done s' = D_NotCalled \<longrightarrow> flushed s'"
  by (induction rule: log_step.induct)
    (auto simp: flushed_def WriteLineWithNoTime_def begin_done_def Let_def concat_take_drop
      split: writer_pc.splits)

lemma flushed_steps:
  "log_steps trailer s s' \<Longrightarrow> sl_done s = D_NotCalled \<longrightarrow> flushed s \<Longrightarrow>
     sl_done s' = D_NotCalled \<longrightarrow> flushed s'"
  by (induction rule: rtranclp_induct) (blast dest: flushed_step)+

text \<open>After a \<open>Done\<close> that found the writer asleep: what is written plus what is left is everything.\<close>

definition closing :: "string list \<Rightarrow> string \<Rightarrow> shared_log \<Rightarrow> bool" where
  "closing buf trailer s \<longleftrightarrow>
     tc_Done (o_timeConsuming (sl_out s)) \<and> o_buffer (sl_out s) = buf \<and>
     sl_writer s \<in> {W_Check, W_Stopped} \<and>
     (case sl_done s of
        D_NotCalled \<Rightarrow> False
      | D_Flush ls \<Rightarrow> sl_file s @ concat ls = concat buf @ trailer
      | D_Closed \<Rightarrow> sl_file s = concat buf @ trailer)"

lemma closing_step: "log_step trailer s s' \<Longrightarrow> closing buf trailer s \<Longrightarrow> closing buf trailer s'"
  by (induction rule: log_step.induct) (auto simp: closing_def split: done_pc.splits)

lemma closing_steps: "log_steps trailer s s' \<Longrightarrow> closing buf trailer s \<Longrightarrow> closing buf trailer s'"
  by (induction rule: rtranclp_induct) (blast dest: closing_step)+

text \<open>
  C12. In every interleaving, until \<open>Done\<close> is called the file is a prefix of the written lines; and
  when \<open>Done\<close> is called while the writer sleeps, the file that is closed holds every line of the
  buffer exactly once, followed by the closing line.
\<close>

theorem writer_interleaving_safe:
  assumes "log_steps trailer (new_log out) s" and "sl_done s = D_NotCalled"
  shows "(\<exists>rest. concat (o_buffer (sl_out s)) = sl_file s @ rest) \<and>
    (sl_writer s = W_Check \<and> log_steps trailer (begin_done trailer s) s' \<and> sl_done s' = D_Closed \<longrightarrow>
       sl_file s' = concat (o_buffer (sl_out s)) @ trailer)"
proof
  have f: "flushed s"
    using flushed_steps [OF assms(1)] assms(2) by (simp add: new_log_def flushed_def)
  then show "\<exists>rest. concat (o_buffer (sl_out s)) = sl_file s @ rest"
    by (auto simp: flushed_def split: writer_pc.splits)
      (metis append.assoc concat_take_drop)+
  show "sl_writer s = W_Check \<and> log_steps trailer (begin_done trailer s) s' \<and> sl_done s' = D_Closed \<longrightarrow>
      sl_file s' = concat (o_buffer (sl_out s)) @ trailer"
  proof clarify
    assume w: "sl_writer s = W_Check" and st: "log_steps trailer (begin_done trailer s) s'"
      and c: "sl_done s' = D_Closed"
    have "closing (o_buffer (sl_out s)) trailer (begin_done trailer s)"
      using f w
      by (simp add: closing_def begin_done_def Let_def flushed_def append.assoc [symmetric] concat_take_drop
          del: append.assoc)
    from closing_steps [OF st this] c show "sl_file s' = concat (o_buffer (sl_out s)) @ trailer"
      by (simp add: closing_def)
  qed
qed

lemma one_line_closed:
  fixes out :: Output and l trailer :: string
  defines "w \<equiv> (new_log out)\<lparr>sl_out := WriteLineWithNoTime l (sl_out (new_log out))\<rparr>"
  shows "log_steps trailer (new_log out) w" and "sl_done w = D_NotCalled" and "sl_writer w = W_Check"
    and "sl_file w = []" and "o_buffer (sl_out w) = [end_line l]" and "o_fileCursor (sl_out w) = 0"
    and "\<not> tc_Done (o_timeConsuming (sl_out w))" and "sl_end w = 0"
proof -
  have "sl_done (new_log out) = D_NotCalled" by (simp add: new_log_def)
  then have "log_step trailer (new_log out) w" unfolding w_def by (rule log_step.write_line)
  then show "log_steps trailer (new_log out) w" by (rule r_into_rtranclp)
qed (simp_all add: w_def new_log_def WriteLineWithNoTime_def)

theorem writer_interleaving_safe_witness:
  "\<exists>s s'. log_steps ''end'' (new_log (fst demo_out)) s \<and>
     log_steps ''end'' (begin_done ''end'' s) s' \<and> sl_done s' = D_Closed \<and>
     sl_file s' = concat (o_buffer (sl_out s)) @ ''end''"
proof -
  let ?s = "(new_log (fst demo_out))\<lparr>sl_out := WriteLineWithNoTime ''a'' (sl_out (new_log (fst demo_out)))\<rparr>"
  note w = one_line_closed [where out = "fst demo_out" and l = "''a''"]
  define b where "b = begin_done ''end'' ?s"
  have b: "sl_done b = D_Flush [end_line ''a'', ''end'']" using w(5,6) by (simp add: b_def begin_done_def Let_def)
  define b1 where "b1 = b\<lparr>sl_done := D_Flush [''end''], sl_file := sl_file b @ end_line ''a''\<rparr>"
  define b2 where "b2 = b1\<lparr>sl_done := D_Flush [], sl_file := sl_file b1 @ ''end''\<rparr>"
  define b3 where "b3 = b2\<lparr>sl_done := D_Closed\<rparr>"
  have "log_step ''end'' b b1" unfolding b1_def using b by (rule log_step.done_line)
  moreover have "log_step ''end'' b1 b2" unfolding b2_def by (rule log_step.done_line) (simp add: b1_def)
  moreover have "log_step ''end'' b2 b3" unfolding b3_def by (rule log_step.done_close) (simp add: b2_def)
  ultimately have st: "log_steps ''end'' (begin_done ''end'' ?s) b3"
    unfolding b_def [symmetric] by (meson r_into_rtranclp rtranclp_trans)
  have c: "sl_done b3 = D_Closed" by (simp add: b3_def)
  from writer_interleaving_safe [OF w(1) [of "''end''"] w(2), of b3] w(3) st c
  have "sl_file b3 = concat (o_buffer (sl_out ?s)) @ ''end''" by blast
  with w(1) st c show ?thesis by blast
qed

text \<open>
  When \<open>Done\<close> is called after the writer has written a line and before it has moved its cursor,
  the line is written a second time: the closed log holds it twice.
\<close>

theorem writer_race_duplicates:
  "\<exists>s. log_steps trailer (new_log out) s \<and> sl_done s = D_Closed \<and>
     o_buffer (sl_out s) = [end_line l] \<and> sl_file s = end_line l @ end_line l @ trailer"
proof -
  define s0 where "s0 = (new_log out)\<lparr>sl_out := WriteLineWithNoTime l (sl_out (new_log out))\<rparr>"
  note w = one_line_closed [where out = out and l = l, folded s0_def]
  let ?l = "end_line l"
  define s1 where "s1 = s0\<lparr>sl_writer := W_Ready\<rparr>"
  define s2 where "s2 = s1\<lparr>sl_end := 1, sl_writer := W_Flush [?l] 1\<rparr>"
  define s3 where "s3 = s2\<lparr>sl_writer := W_Flush [] 1, sl_file := ?l\<rparr>"
  define s4 where "s4 = begin_done trailer s3"
  define s5 where "s5 = s4\<lparr>sl_done := D_Flush [trailer], sl_file := ?l @ ?l\<rparr>"
  define s6 where "s6 = s5\<lparr>sl_done := D_Flush [], sl_file := (?l @ ?l) @ trailer\<rparr>"
  define s7 where "s7 = s6\<lparr>sl_done := D_Closed\<rparr>"
  have "log_step trailer s0 s1" unfolding s1_def using w(3,7) by (rule log_step.check_go_on)
  moreover have "log_step trailer s1 s2"
    using log_step.start_flush [of s1 trailer] w(5,6,8) by (simp add: s1_def s2_def)
  moreover have "log_step trailer s2 s3"
    using log_step.flush_line [of s2 ?l "[]" 1 trailer] w(2,4) by (simp add: s1_def s2_def s3_def)
  moreover have "log_step trailer s3 s4"
    unfolding s4_def by (rule log_step.done_begin) (simp add: s3_def s2_def s1_def w(2))
  moreover have "log_step trailer s4 s5"
    using log_step.done_line [of s4 ?l "[trailer]" trailer] w(5,6)
    by (simp add: s5_def s4_def begin_done_def Let_def s3_def s2_def s1_def)
  moreover have "log_step trailer s5 s6"
    using log_step.done_line [of s5 trailer "[]" trailer] by (simp add: s6_def s5_def)
  moreover have "log_step trailer s6 s7"
    unfolding s7_def by (rule log_step.done_close) (simp add: s6_def)
  ultimately have "log_steps trailer s0 s7"
    by (meson r_into_rtranclp rtranclp_trans)
  with w(1) have "log_steps trailer (new_log out) s7" by (rule rtranclp_trans)
  moreover have "sl_done s7 = D_Closed" "sl_file s7 = ?l @ ?l @ trailer" "o_buffer (sl_out s7) = [?l]"
    using w(5) by (simp_all add: s7_def s6_def s5_def s4_def begin_done_def Let_def s3_def s2_def s1_def)
  ultimately show ?thesis by blast
qed

section \<open>What the parser returns\<close>

text \<open>A log as sections: a stage's header line and its body, bodies without header lines.\<close>

definition section_lines :: "(string \<times> string list) list \<Rightarrow> string list" where
  "section_lines secs = concat (map (\<lambda>(n, ls). (stage_header @ n) # ls) secs)"

definition no_header :: "string list \<Rightarrow> bool" where
  "no_header ls \<longleftrightarrow> (\<forall>l \<in> set ls. \<not> HasPrefix l stage_header)"

definition kept :: "string list \<Rightarrow> string list" where
  "kept ls = filter (\<lambda>l. \<not> skipped l) ls"

definition last_body :: "string \<Rightarrow> (string \<times> string list) list \<Rightarrow> string list" where
  "last_body n secs = snd (last (filter (\<lambda>s. fst s = n) secs))"

lemma stage_header_not_skipped: "\<not> skipped (stage_header @ n)"
  by (simp add: skipped_def stage_header_def nl_def)

lemma m_load_append [simp]:
  "m_load (m_append n line m) k =
     (if k = n then Some ((case m_load m n of Some ls \<Rightarrow> ls | None \<Rightarrow> []) @ [line]) else m_load m k)"
  by (simp add: m_append_def)

lemma m_wf_append [simp]: "m_wf m \<Longrightarrow> m_wf (m_append n line m)"
  by (simp add: m_append_def)

lemma parse_body:
  assumes "no_header ls" and "m_wf m"
  shows "\<exists>log' m'. fold (parse_line C) ls (log, n, names, m) = (log', n, names, m') \<and> m_wf m' \<and>
    log_Stages log' = log_Stages log \<and>
    (\<forall>k. m_load m' k = (if k = n \<and> (kept ls \<noteq> [] \<or> m_load m n \<noteq> None)
       then Some ((case m_load m n of Some l \<Rightarrow> l | None \<Rightarrow> []) @ kept ls) else m_load m k))"
  using assms
proof (induction ls arbitrary: log m)
  case Nil
  then show ?case by (auto simp: kept_def)
next
  case (Cons l ls)
  then have nh: "\<not> HasPrefix l stage_header" "no_header ls" by (simp_all add: no_header_def)
  show ?case
  proof (cases "skipped l")
    case True
    have "log_Stages (job_line C l log) = log_Stages log"
      by (simp add: job_line_def Let_def split: prod.split)
    moreover have "kept (l # ls) = kept ls" using True by (simp add: kept_def)
    moreover have "fold (parse_line C) (l # ls) (log, n, names, m) =
        fold (parse_line C) ls (job_line C l log, n, names, m)"
      using True by simp
    ultimately show ?thesis using Cons.IH [OF nh(2) Cons.prems(2), of "job_line C l log"]
      by (simp only:)
  next
    case False
    have k: "kept (l # ls) = l # kept ls" using False by (simp add: kept_def)
    from Cons.IH [OF nh(2) m_wf_append [OF Cons.prems(2)], of log n l]
    show ?thesis using False nh(1) k by (auto split: option.splits)
  qed
qed

lemma parse_section:
  assumes "no_header ls" and "m_wf m"
  shows "\<exists>log' m'. fold (parse_line C) ((stage_header @ n) # ls) (log, n0, names, m) =
      (log', n, names @ [n], m') \<and> m_wf m' \<and> log_Stages log' = log_Stages log \<and>
    (\<forall>k. m_load m' k = (if k = n then Some ((stage_header @ n) # kept ls) else m_load m k))"
  using parse_body [OF assms(1), of "m_append n (stage_header @ n) (m_store n [] m)" C log n "names @ [n]"]
    assms(2) stage_header_not_skipped
  by (auto simp: Let_def)

lemma parse_sections:
  assumes "\<forall>s \<in> set secs. no_header (snd s)" and "m_wf m"
  shows "\<exists>log' n' m'. fold (parse_line C) (section_lines secs) (log, n0, names, m) =
      (log', n', names @ map fst secs, m') \<and> m_wf m' \<and> log_Stages log' = log_Stages log \<and>
    (\<forall>k. m_load m' k = (if k \<in> fst ` set secs then Some ((stage_header @ k) # kept (last_body k secs))
                        else m_load m k))"
  using assms(1)
proof (induction secs rule: rev_induct)
  case Nil
  then show ?case using assms(2) by (auto simp: section_lines_def)
next
  case (snoc sec secs)
  obtain n ls where sec: "sec = (n, ls)" by force
  from snoc obtain log1 n1 m1 where 1:
    "fold (parse_line C) (section_lines secs) (log, n0, names, m) = (log1, n1, names @ map fst secs, m1)"
    "m_wf m1" "log_Stages log1 = log_Stages log"
    "\<And>k. m_load m1 k = (if k \<in> fst ` set secs then Some ((stage_header @ k) # kept (last_body k secs))
                        else m_load m k)"
    by auto
  have "no_header ls" using snoc.prems sec by simp
  from parse_section [OF this 1(2), of C n log1 n1 "names @ map fst secs"] obtain log2 m2 where 2:
    "fold (parse_line C) ((stage_header @ n) # ls) (log1, n1, names @ map fst secs, m1) =
      (log2, n, (names @ map fst secs) @ [n], m2)" "m_wf m2" "log_Stages log2 = log_Stages log1"
    "\<And>k. m_load m2 k = (if k = n then Some ((stage_header @ n) # kept ls) else m_load m1 k)"
    by blast
  have sl: "section_lines (secs @ [sec]) = section_lines secs @ ((stage_header @ n) # ls)"
    by (simp add: section_lines_def sec)
  have lb: "last_body k (secs @ [sec]) = (if k = n then ls else last_body k secs)" for k
    by (simp add: last_body_def sec)
  have "fold (parse_line C) (section_lines (secs @ [sec])) (log, n0, names, m) =
      (log2, n, names @ map fst (secs @ [sec]), m2)"
    unfolding sl fold_append comp_def 1(1) using 2(1) by (simp add: sec)
  then show ?case
    using 1(3,4) 2(2,3,4) lb by (auto simp: sec)
qed

lemma collect_stages_eq:
  "collect_stages C ks names m =
     concat (map (\<lambda>k. case m_load m k of None \<Rightarrow> []
       | Some v \<Rightarrow> map (\<lambda>_. log_stage C k v) (filter (\<lambda>n. n = k) names)) ks)"
  by (induction ks) (simp_all split: option.split)

lemma mset_concat_filter:
  "distinct ks \<Longrightarrow>
     mset (concat (map (\<lambda>k. map (\<lambda>_. f k) (filter (\<lambda>n. n = k) names)) ks)) =
     mset (map f (filter (\<lambda>n. n \<in> set ks) names))"
proof (induction ks)
  case (Cons k ks)
  have "map (\<lambda>_. f k) (filter (\<lambda>n. n = k) names) = map f (filter (\<lambda>n. n = k) names)" by auto
  then have "mset (map (\<lambda>_. f k) (filter (\<lambda>n. n = k) names)) =
      image_mset f (filter_mset (\<lambda>n. n = k) (mset names))"
    by (simp only: mset_map mset_filter)
  moreover have "filter_mset (\<lambda>n. n \<in> set (k # ks)) (mset names) =
      filter_mset (\<lambda>n. n = k) (mset names) + filter_mset (\<lambda>n. n \<in> set ks) (mset names)"
    using Cons.prems by (intro multiset_eqI) auto
  moreover have "mset (concat (map (\<lambda>k. map (\<lambda>_. f k) (filter (\<lambda>n. n = k) names)) ks)) =
      image_mset f (filter_mset (\<lambda>n. n \<in> set ks) (mset names))"
    using Cons by (simp add: mset_filter)
  ultimately show ?case
    by (simp only: list.map concat.simps mset_append mset_map mset_filter image_mset_union)
qed simp

lemma stage_times_frame [simp]:
  "ls_Name (stage_times C ls st) = ls_Name st" "ls_Lines (stage_times C ls st) = ls_Lines st"
  by (induction C ls st rule: stage_times.induct) (simp_all add: Let_def split: prod.splits)

lemma log_stage_simps [simp]: "ls_Name (log_stage C k v) = k" "ls_Lines (log_stage C k v) = v"
  by (simp_all add: log_stage_def)

text \<open>
  Parsing a log made of stage sections returns, in whatever order Go ranges over the map, one
  entry per header line, and each entry for a name holds the lines of the last section with that
  name: a log that holds two runs of a stage lists the last run twice.
\<close>

theorem parse_log_sections:
  assumes "\<forall>s \<in> set secs. no_header (snd s)" and "no_header pre"
    and "\<And>ks. mset (ord ks) = mset ks"
  shows "mset (log_Stages (parseLogLines C ord (pre @ section_lines secs))) =
      mset (map (\<lambda>s. log_stage C (fst s) ((stage_header @ fst s) # kept (last_body (fst s) secs))) secs)"
proof -
  let ?st = "\<lambda>k. (stage_header @ k) # kept (last_body k secs)"
  obtain log1 m1 where 1:
    "fold (parse_line C) pre (empty_log (pre @ section_lines secs), ''unknown'', [], []) =
      (log1, ''unknown'', [], m1)" "m_wf m1"
    using parse_body [OF assms(2), of "[]" C "empty_log (pre @ section_lines secs)" "''unknown''" "[]"] by auto
  obtain log2 n2 m2 where 2:
    "fold (parse_line C) (section_lines secs) (log1, ''unknown'', [], m1) =
      (log2, n2, map fst secs, m2)" "m_wf m2"
    "\<And>k. m_load m2 k = (if k \<in> fst ` set secs then Some (?st k) else m_load m1 k)"
    using parse_sections [OF assms(1) 1(2), of C log1 "''unknown''" "[]"] by auto
  have d: "distinct (ord (m_keys m2))" "set (ord (m_keys m2)) = set (m_keys m2)"
    using assms(3) [of "m_keys m2"] gm.wf_distinct [OF 2(2)]
    by (metis mset_eq_imp_distinct_iff) (metis assms(3) mset_eq_setD)
  have "k \<in> set (m_keys m2)" if "k \<in> fst ` set secs" for k
    using 2(3) [of k] that by (simp add: gm.keys_load)
  then have sub: "set (map fst secs) \<subseteq> set (ord (m_keys m2))"
    using d(2) by (simp add: subset_iff)
  have e: "map (\<lambda>k. case m_load m2 k of None \<Rightarrow> []
       | Some v \<Rightarrow> map (\<lambda>_. log_stage C k v) (filter (\<lambda>n. n = k) (map fst secs))) (ord (m_keys m2)) =
     map (\<lambda>k. map (\<lambda>_. log_stage C k (?st k)) (filter (\<lambda>n. n = k) (map fst secs))) (ord (m_keys m2))"
  proof (rule map_cong [OF refl])
    fix k assume "k \<in> set (ord (m_keys m2))"
    then obtain v where v: "m_load m2 k = Some v" using d(2) gm.keys_load [of k m2] by auto
    show "(case m_load m2 k of None \<Rightarrow> []
         | Some v \<Rightarrow> map (\<lambda>_. log_stage C k v) (filter (\<lambda>n. n = k) (map fst secs))) =
       map (\<lambda>_. log_stage C k (?st k)) (filter (\<lambda>n. n = k) (map fst secs))"
    proof (cases "k \<in> fst ` set secs")
      case False
      then have "filter (\<lambda>n. n = k) (map fst secs) = []" by (auto simp: filter_empty_conv)
      then show ?thesis using v by simp
    qed (use v 2(3) [of k] in simp)
  qed
  have "mset (collect_stages C (ord (m_keys m2)) (map fst secs) m2) =
      mset (map (\<lambda>k. log_stage C k (?st k)) (filter (\<lambda>n. n \<in> set (ord (m_keys m2))) (map fst secs)))"
    unfolding collect_stages_eq e by (rule mset_concat_filter [OF d(1)])
  moreover have "filter (\<lambda>n. n \<in> set (ord (m_keys m2))) (map fst secs) = map fst secs"
    using sub by (auto simp: filter_id_conv)
  ultimately show ?thesis
    using 1(1) 2(1) by (simp add: parseLogLines_def comp_def)
qed

theorem parse_log_sections_witness:
  "mset (log_Stages (parseLogLines demo_format rev ([''[Job] Started on 5''] @
       section_lines [(''a'', [''x'']), (''b'', [''y'']), (''a'', [''z''])]))) =
   mset [log_stage demo_format ''a'' [stage_header @ ''a'', ''z''],
         log_stage demo_format ''b'' [stage_header @ ''b'', ''y''],
         log_stage demo_format ''a'' [stage_header @ ''a'', ''z'']]"
proof -
  have h: "no_header [''x'']" "no_header [''y'']" "no_header [''z'']" "no_header [''[Job] Started on 5'']"
    by code_simp+
  have k: "kept [''z''] = [''z'']" "kept [''y''] = [''y'']" by code_simp+
  from parse_log_sections [of "[(''a'', [''x'']), (''b'', [''y'']), (''a'', [''z''])]"
      "[''[Job] Started on 5'']" rev demo_format]
  show ?thesis using h by (simp add: last_body_def k)
qed

end
