(* ===== verification/JobStore.thy ===== *)
theory JobStore
  imports Output Api
begin

text \<open>
  \<open>job/job.go\<close> and the path functions of \<open>job/util.go\<close>: job files, job details, logs and the files
  of a run, under the configuration directory \<open>cfg\<close> (\<open>utils.DefaultConfigDir()\<close>).

  YAML and \<open>copier\<close> are third-party code: the record \<open>yaml_lib\<close> holds the functions the store calls.
  \<open>sort.Sort\<close> is not stable: the orders it may give are the functions \<open>srt\<close> with \<open>sorts\<close>.
\<close>

section \<open>Parameters\<close>

record yaml_lib =
  y_Marshal_Job :: "Job \<Rightarrow> string res"
  y_Unmarshal_Job :: "string \<Rightarrow> Job res"
  y_Marshal_Detail :: "JobDetail \<Rightarrow> string res"
  y_Unmarshal_Detail :: "string \<Rightarrow> JobDetail res"
  y_Copy :: "Job \<Rightarrow> JobVo"

definition sorts :: "('a \<Rightarrow> 'a \<Rightarrow> bool) \<Rightarrow> ('a list \<Rightarrow> 'a list) \<Rightarrow> bool" where
  "sorts lt srt \<longleftrightarrow> (\<forall>xs. mset (srt xs) = mset xs \<and> sorted_wrt (\<lambda>a b. \<not> lt b a) (srt xs))"

section \<open>Paths (job/util.go)\<close>

definition getJobFileDir :: "string \<Rightarrow> string \<Rightarrow> string" where
  "getJobFileDir cfg name = PathJoin [cfg, ''jobs'', name]"

definition getJobFileName :: "string \<Rightarrow> string" where
  "getJobFileName name = name @ ''.yml''"

definition getJobFilePath :: "string \<Rightarrow> string \<Rightarrow> string" where
  "getJobFilePath cfg name =
     (if name = [] then getJobFileDir cfg [] else PathJoin [getJobFileDir cfg name, getJobFileName name])"

definition getJobDetailFileDir :: "string \<Rightarrow> string \<Rightarrow> string" where
  "getJobDetailFileDir cfg name = PathJoin [cfg, ''jobs'', name, ''job-details'']"

definition getJobDetailFileName :: "int \<Rightarrow> string" where
  "getJobDetailFileName jid = Itoa jid @ ''.yml''"

definition GetJobDetailFilePath :: "string \<Rightarrow> string \<Rightarrow> int \<Rightarrow> string" where
  "GetJobDetailFilePath cfg name jid =
     PathJoin [getJobDetailFileDir cfg name, getJobDetailFileName jid]"

definition getJobDetailLogDir :: "string \<Rightarrow> string \<Rightarrow> string" where
  "getJobDetailLogDir cfg name = PathJoin [cfg, ''jobs'', name, ''job-details-log'']"

definition getJobDetailLogPath :: "string \<Rightarrow> string \<Rightarrow> int \<Rightarrow> string" where
  "getJobDetailLogPath cfg name jid = PathJoin [getJobDetailLogDir cfg name, Itoa jid @ ''.log'']"

definition GetJobsDir :: "string \<Rightarrow> string" where
  "GetJobsDir cfg = PathJoin [cfg, ''jobs'']"

definition GetJobArtifactoryDir :: "string \<Rightarrow> string \<Rightarrow> string \<Rightarrow> string" where
  "GetJobArtifactoryDir cfg jobName jobID = PathJoin [cfg, ''jobs'', jobName, ''/artifactory'', jobID]"

definition GetJobCheckDir :: "string \<Rightarrow> string \<Rightarrow> string \<Rightarrow> string" where
  "GetJobCheckDir cfg jobName jobID = PathJoin [cfg, ''jobs'', jobName, ''/check'', jobID]"

section \<open>Job files\<close>

definition SaveJob :: "string \<Rightarrow> string \<Rightarrow> string \<Rightarrow> fs \<Rightarrow> error option \<times> fs" where
  "SaveJob cfg name y fs = saveStringToFile (getJobFilePath cfg name) y fs"

definition GetJob :: "string \<Rightarrow> string \<Rightarrow> fs \<Rightarrow> string res" where
  "GetJob cfg name fs = readStringFromFile (getJobFilePath cfg name) fs"

definition GetJobObject :: "yaml_lib \<Rightarrow> string \<Rightarrow> string \<Rightarrow> fs \<Rightarrow> Job res" where
  "GetJobObject Y cfg name fs =
     (let p = getJobFilePath cfg name in
      if \<not> isFileExist p fs then Inl (''get job failed, job file not exist: '' @ p)
      else then_do (GetFileData p fs) (\<lambda>content. y_Unmarshal_Job Y content))"

definition SaveJobParams :: "yaml_lib \<Rightarrow> string \<Rightarrow> string \<Rightarrow> (string, string) gomap option \<Rightarrow> fs \<Rightarrow>
    error option \<times> fs" where
  "SaveJobParams Y cfg name params fs =
     (case GetJobObject Y cfg name fs of
        Inl e \<Rightarrow> (Some e, fs)
      | Inr job \<Rightarrow> (let job' = job\<lparr>job_Parameter := params\<rparr> in
          case y_Marshal_Job Y job' of
            Inl e \<Rightarrow> (Some e, fs)
          | Inr content \<Rightarrow> SaveJob cfg (job_Name job') content fs))"

text \<open>\<open>SaveJobUserId\<close> assigns to the job before it looks at the error: the job is nil then.\<close>

definition SaveJobUserId :: "yaml_lib \<Rightarrow> string \<Rightarrow> string \<Rightarrow> string \<Rightarrow> fs \<Rightarrow> (error option \<times> fs) go" where
  "SaveJobUserId Y cfg name userId fs =
     (case GetJobObject Y cfg name fs of
        Inl e \<Rightarrow> Inl PanicNil
      | Inr job \<Rightarrow> (let job' = job\<lparr>job_UserId := userId\<rparr> in
          case y_Marshal_Job Y job' of
            Inl e \<Rightarrow> Inr (Some e, fs)
          | Inr content \<Rightarrow> Inr (SaveJob cfg (job_Name job') content fs)))"

definition UpdateJob :: "string \<Rightarrow> string \<Rightarrow> string \<Rightarrow> string \<Rightarrow> fs \<Rightarrow> error option \<times> fs" where
  "UpdateJob cfg oldName newName y fs =
     (case renameFile (getJobFilePath cfg oldName) (getJobFilePath cfg newName) fs of
        (Some e, fs1) \<Rightarrow> (Some e, fs1)
      | (None, fs1) \<Rightarrow> SaveJob cfg newName y fs1)"

definition DeleteJob :: "string \<Rightarrow> string \<Rightarrow> fs \<Rightarrow> error option \<times> fs" where
  "DeleteJob cfg name fs = deleteFile (getJobFilePath cfg name) fs"

section \<open>Job details\<close>

text \<open>\<open>SaveJobDetail\<close> drops the error of the write.\<close>

definition SaveJobDetail :: "yaml_lib \<Rightarrow> string \<Rightarrow> string \<Rightarrow> JobDetail \<Rightarrow> fs \<Rightarrow> error option \<times> JobDetail \<times> fs" where
  "SaveJobDetail Y cfg name jd fs =
     (let jd' = jd\<lparr>jd_TriggerMode := ''Manual trigger''\<rparr> in
      case y_Marshal_Detail Y jd' of
        Inl e \<Rightarrow> (Some e, jd', fs)
      | Inr dat \<Rightarrow> (None, jd', snd (saveStringToFile (GetJobDetailFilePath cfg name (jd_Id jd')) dat fs)))"

definition UpdateJobDetail :: "yaml_lib \<Rightarrow> string \<Rightarrow> string \<Rightarrow> JobDetail \<Rightarrow> fs \<Rightarrow> error option \<times> JobDetail \<times> fs" where
  "UpdateJobDetail Y cfg name jd fs = SaveJobDetail Y cfg name jd fs"

definition SaveStringJobDetail :: "string \<Rightarrow> string \<Rightarrow> int \<Rightarrow> string \<Rightarrow> fs \<Rightarrow> error option \<times> fs" where
  "SaveStringJobDetail cfg name jid content fs =
     saveStringToFile (GetJobDetailFilePath cfg name jid) content fs"

definition ReadStringJobDetail :: "string \<Rightarrow> string \<Rightarrow> int \<Rightarrow> fs \<Rightarrow> string res" where
  "ReadStringJobDetail cfg name jid fs = readStringFromFile (GetJobDetailFilePath cfg name jid) fs"

text \<open>\<open>time.Duration.Milliseconds\<close>.\<close>

definition Milliseconds :: "int \<Rightarrow> int" where
  "Milliseconds d = (if 0 \<le> d then d div 1000000 else - ((- d) div 1000000))"

fun running_stage :: "nat \<Rightarrow> StageDetail list \<Rightarrow> nat option \<Rightarrow> nat option" where
  "running_stage i [] r = r"
| "running_stage i (st # sts) r =
     running_stage (Suc i) sts (if sd_Status st = STATUS_RUNNING then Some i else r)"

definition refresh_duration :: "time \<Rightarrow> JobDetail \<Rightarrow> JobDetail" where
  "refresh_duration now jd =
     (case running_stage 0 (jd_Stages jd) None of
        None \<Rightarrow> jd
      | Some i \<Rightarrow> jd\<lparr>jd_Stages := (jd_Stages jd)[i := (jd_Stages jd ! i)
          \<lparr>sd_Duration := Milliseconds (now - sd_StartTime (jd_Stages jd ! i))\<rparr>]\<rparr>)"

definition GetJobDetail :: "yaml_lib \<Rightarrow> string \<Rightarrow> time \<Rightarrow> string \<Rightarrow> int \<Rightarrow> fs \<Rightarrow> JobDetail res" where
  "GetJobDetail Y cfg now name jid fs =
     then_do (readStringFromFile (GetJobDetailFilePath cfg name jid) fs) (\<lambda>str.
     then_do (y_Unmarshal_Detail Y str) (\<lambda>jd. Inr (refresh_duration now jd)))"

definition DeleteJobDetail :: "string \<Rightarrow> string \<Rightarrow> int \<Rightarrow> fs \<Rightarrow> error option \<times> fs" where
  "DeleteJobDetail cfg name jid fs =
     (let p = GetJobDetailFilePath cfg name jid in
      if \<not> isFileExist p fs then (Some ''delete job detail failed,job detail file not exist'', fs)
      else deleteFile p fs)"

definition CreateJobDetail :: "yaml_lib \<Rightarrow> string \<Rightarrow> range_order \<Rightarrow> time \<Rightarrow> string \<Rightarrow> int \<Rightarrow> fs \<Rightarrow>
    (JobDetail \<times> error option) res \<times> fs" where
  "CreateJobDetail Y cfg ord now name jid fs =
     (case GetJobObject Y cfg name fs of
        Inl e \<Rightarrow> (Inl e, fs)
      | Inr jobData \<Rightarrow>
          (case createDirIfNotExist (getJobDetailFileDir cfg name) fs of
             (Some e, fs1) \<Rightarrow> (Inl e, fs1)
           | (None, fs1) \<Rightarrow>
               (case StageSort ord jobData of
                  Inl e \<Rightarrow> (Inl e, fs1)
                | Inr stageDetail \<Rightarrow>
                    (let jd = \<lparr>jd_Id = jid, jd_Job = jobData, jd_Status = STATUS_NOTRUN,
                        jd_TriggerMode = ''Manual trigger'', jd_Stages = stageDetail,
                        jd_StartTime = now, jd_Duration = 0, jd_ActionResult = empty_ActionResult,
                        jd_Error = []\<rparr> in
                     case SaveJobDetail Y cfg name jd fs1 of
                       (err, jd', fs2) \<Rightarrow> (Inr (jd', err), fs2)))))"

definition MakeJobStop :: "yaml_lib \<Rightarrow> string \<Rightarrow> time \<Rightarrow> string \<Rightarrow> int \<Rightarrow> string \<Rightarrow> fs \<Rightarrow> error option \<times> fs" where
  "MakeJobStop Y cfg now jobName jid errorString fs =
     (case GetJobDetail Y cfg now jobName jid fs of
        Inl e \<Rightarrow> (Some e, fs)
      | Inr jd \<Rightarrow>
          (case SaveJobDetail Y cfg jobName (jd\<lparr>jd_Status := STATUS_STOP, jd_Error := errorString\<rparr>) fs of
             (e, jd', fs1) \<Rightarrow> (e, fs1)))"

section \<open>Lists\<close>

definition page_slice :: "'a list \<Rightarrow> int \<Rightarrow> int \<Rightarrow> (int \<times> int \<times> 'a list) go" where
  "page_slice xs page psize =
     (case SlicePage page psize (int (length xs)) of
        (pageNum, sz, a, b) \<Rightarrow> then_do (slice xs a b) (\<lambda>dat. Inr (pageNum, sz, dat)))"

fun detail_files :: "yaml_lib \<Rightarrow> string \<Rightarrow> fs \<Rightarrow> string list \<Rightarrow> JobDetail list" where
  "detail_files Y dir fs [] = []"
| "detail_files Y dir fs (f # files) =
     (let p = PathJoin [dir, f] in
      if \<not> isFileExist p fs then detail_files Y dir fs files
      else (case GetFileData p fs of
          Inl e \<Rightarrow> detail_files Y dir fs files
        | Inr content \<Rightarrow> (case y_Unmarshal_Detail Y content of
            Inl e \<Rightarrow> detail_files Y dir fs files
          | Inr jd \<Rightarrow> jd # detail_files Y dir fs files)))"

definition JobDetailList :: "yaml_lib \<Rightarrow> string \<Rightarrow> (JobDetail list \<Rightarrow> JobDetail list) \<Rightarrow> string \<Rightarrow> int \<Rightarrow>
    int \<Rightarrow> fs \<Rightarrow> JobDetailPage res go" where
  "JobDetailList Y cfg srt name page psize fs =
     (let dir = getJobDetailFileDir cfg name in
      if \<not> isFileExist dir fs then Inr (Inl ''job-details folder does not exist'')
      else (case ReadDir (path_of dir) fs of
          Inl e \<Rightarrow> Inr (Inl (errno_msg e))
        | Inr files \<Rightarrow>
            (let jobDetails = srt (detail_files Y dir fs files) in
             then_do (page_slice jobDetails page psize) (\<lambda>(pageNum, sz, dat).
               Inr (Inr \<lparr>jdp_Data = dat, jdp_Total = int (length jobDetails), jdp_Page = pageNum,
                         jdp_PageSize = sz\<rparr>)))))"

text \<open>The numbers of the files of a run directory: \<open>file.Name()[0:index]\<close> panics without a dot.\<close>

fun file_ids :: "string list \<Rightarrow> int list go" where
  "file_ids [] = Inr []"
| "file_ids (f # files) =
     then_do (slice f 0 (Index f ''.'')) (\<lambda>stem.
     then_do (file_ids files) (\<lambda>ids.
       Inr (case Atoi stem of Inl e \<Rightarrow> ids | Inr i \<Rightarrow> i # ids)))"

definition updateJobInfo :: "yaml_lib \<Rightarrow> string \<Rightarrow> time \<Rightarrow> JobVo \<Rightarrow> fs \<Rightarrow> (error option \<times> JobVo) go" where
  "updateJobInfo Y cfg now vo fs =
     (let dir = getJobDetailFileDir cfg (vo_Name vo) in
      if \<not> isFileExist dir fs then Inr (Some ''job-details folder does not exist'', vo)
      else (case ReadDir (path_of dir) fs of
          Inl e \<Rightarrow> Inr (Some (errno_msg e), vo)
        | Inr files \<Rightarrow>
            then_do (file_ids files) (\<lambda>ids.
              if ids = [] then Inr (None, vo)
              else (case GetJobDetail Y cfg now (vo_Name vo) (hd (rev (sort ids))) fs of
                  Inl e \<Rightarrow> Inr (Some e, vo)
                | Inr jd \<Rightarrow> Inr (None, vo\<lparr>vo_Duration := jd_Duration jd, vo_Status := jd_Status jd,
                    vo_TriggerMode := jd_TriggerMode jd, vo_StartTime := jd_StartTime jd,
                    vo_PipelineDetailId := jd_Id jd, vo_Error := jd_Error jd\<rparr>)))))"

text \<open>\<open>ctime\<close> is \<open>platform.GetFileCreateTime\<close>.\<close>

fun job_files :: "yaml_lib \<Rightarrow> string \<Rightarrow> time \<Rightarrow> (string \<Rightarrow> time) \<Rightarrow> string \<Rightarrow> fs \<Rightarrow> string list \<Rightarrow>
    JobVo list go" where
  "job_files Y cfg now ctime keyword fs [] = Inr []"
| "job_files Y cfg now ctime keyword fs (f # files) =
     (let p = getJobFilePath cfg f; rest = job_files Y cfg now ctime keyword fs files in
      if keyword \<noteq> [] \<and> \<not> Contains f keyword then rest
      else if \<not> isFileExist p fs then rest
      else (case GetFileData p fs of
          Inl e \<Rightarrow> rest
        | Inr content \<Rightarrow> (case y_Unmarshal_Job Y content of
            Inl e \<Rightarrow> rest
          | Inr jobData \<Rightarrow>
              then_do (updateJobInfo Y cfg now (y_Copy Y jobData) fs) (\<lambda>(err, vo).
              then_do rest (\<lambda>vos. Inr (vo\<lparr>vo_CreateTime := ctime p\<rparr> # vos))))))"

definition JobList :: "yaml_lib \<Rightarrow> string \<Rightarrow> time \<Rightarrow> (string \<Rightarrow> time) \<Rightarrow> (JobVo list \<Rightarrow> JobVo list) \<Rightarrow>
    string \<Rightarrow> int \<Rightarrow> int \<Rightarrow> fs \<Rightarrow> JobPage res go" where
  "JobList Y cfg now ctime srt keyword page psize fs =
     (let jobsDir = getJobFilePath cfg [] in
      if \<not> isFileExist jobsDir fs then Inr (Inl (''jobs folder not exist: '' @ jobsDir))
      else (case ReadDir (path_of jobsDir) fs of
          Inl e \<Rightarrow> Inr (Inl (errno_msg e))
        | Inr files \<Rightarrow>
            then_do (job_files Y cfg now ctime keyword fs files) (\<lambda>vos.
              let jobs = srt vos in
              then_do (page_slice jobs page psize) (\<lambda>(pageNum, sz, dat).
                Inr (Inr \<lparr>jp_Data = dat, jp_Total = int (length jobs), jp_Page = pageNum,
                          jp_PageSize = sz\<rparr>)))))"

section \<open>Logs\<close>

definition cr :: string where
  "cr = [CHR 0x0D]"

definition GetJobLog :: "time_format \<Rightarrow> (string list \<Rightarrow> string list) \<Rightarrow> string \<Rightarrow> string \<Rightarrow> int \<Rightarrow> fs \<Rightarrow>
    JobLog res" where
  "GetJobLog C ord cfg name jid fs =
     then_do (ParseLogFile C ord (getJobDetailLogPath cfg name jid) fs) (\<lambda>l.
       Inr \<lparr>jl_StartTime = log_StartTime l, jl_Duration = log_Duration l,
            jl_Content = Join (log_Lines l) cr, jl_LastLine = int (length (log_Lines l))\<rparr>)"

definition GetJobLogString :: "string \<Rightarrow> string \<Rightarrow> int \<Rightarrow> fs \<Rightarrow> string res" where
  "GetJobLogString cfg name jid fs = readStringFromFile (getJobDetailLogPath cfg name jid) fs"

definition SaveJobLogString :: "string \<Rightarrow> string \<Rightarrow> int \<Rightarrow> string \<Rightarrow> fs \<Rightarrow> error option \<times> fs" where
  "SaveJobLogString cfg name jid content fs =
     saveStringToFile (getJobDetailLogPath cfg name jid) content fs"

fun find_step :: "string \<Rightarrow> string \<Rightarrow> LogStage list \<Rightarrow> LogStep option" where
  "find_step stageName stepName [] = None"
| "find_step stageName stepName (st # sts) =
     (if ls_Name st = stageName
      then (case find (\<lambda>sp. lstep_Name sp = stepName) (ParseStageSteps st) of
              Some sp \<Rightarrow> Some sp
            | None \<Rightarrow> find_step stageName stepName sts)
      else find_step stageName stepName sts)"

definition GetJobStepLog :: "time_format \<Rightarrow> (string list \<Rightarrow> string list) \<Rightarrow> string \<Rightarrow> string \<Rightarrow> int \<Rightarrow>
    string \<Rightarrow> string \<Rightarrow> fs \<Rightarrow> LogStep option res" where
  "GetJobStepLog C ord cfg name jid stageName stepName fs =
     then_do (ParseLogFile C ord (getJobDetailLogPath cfg name jid) fs) (\<lambda>l.
       Inr (find_step stageName stepName (log_Stages l)))"

definition GetJobStageLog :: "yaml_lib \<Rightarrow> time_format \<Rightarrow> (string list \<Rightarrow> string list) \<Rightarrow> string \<Rightarrow> time \<Rightarrow>
    string \<Rightarrow> int \<Rightarrow> string \<Rightarrow> int \<Rightarrow> fs \<Rightarrow> JobStageLog res" where
  "GetJobStageLog Y C ord cfg now name jid stageName start fs =
     then_do (ParseLogFile C ord (getJobDetailLogPath cfg name jid) fs) (\<lambda>l.
     then_do (GetJobDetail Y cfg now name jid fs) (\<lambda>detail.
       let status = fold (\<lambda>st acc. if sd_Name st = stageName then sd_Status st else acc)
                      (jd_Stages detail) STATUS_NOTRUN in
       case find (\<lambda>st. ls_Name st = stageName) (log_Stages l) of
         None \<Rightarrow> Inl (''stage '' @ stageName @ '' not found'')
       | Some st \<Rightarrow>
           Inr \<lparr>jsl_StartTime = ls_StartTime st, jsl_Duration = ls_Duration st,
                jsl_Content = (if 0 \<le> start \<and> start \<le> int (length (ls_Lines st))
                               then Join (drop (nat start) (ls_Lines st)) cr else []),
                jsl_LastLine = int (length (ls_Lines st)),
                jsl_End = (status = STATUS_SUCCESS \<or> status = STATUS_FAIL)\<rparr>))"

section \<open>Files of a run\<close>

text \<open>\<open>path[len(jobsDir)+1:]\<close> panics when the path is the directory itself.\<close>

definition getRelativeJobsPath :: "string \<Rightarrow> string \<Rightarrow> string go" where
  "getRelativeJobsPath cfg p =
     (let jobsDir = GetJobsDir cfg in
      if HasPrefix p jobsDir then slice p (int (length jobsDir) + 1) (int (length p)) else Inr p)"

fun files_data :: "string \<Rightarrow> string list \<Rightarrow> fs \<Rightarrow> ApiFile list res go" where
  "files_data cfg [] fs = Inr (Inr [])"
| "files_data cfg (p # ps) fs =
     (case GetFileData p fs of
        Inl e \<Rightarrow> Inr (Inl e)
      | Inr dat \<Rightarrow>
          then_do (getRelativeJobsPath cfg p) (\<lambda>rel.
          then_do (files_data cfg ps fs) (\<lambda>rest.
            Inr (then_do rest (\<lambda>fs'. Inr (\<lparr>file_Path = rel, file_Data = dat\<rparr> # fs'))))))"

definition list_res :: "string list \<times> error option \<Rightarrow> string list res" where
  "list_res r = (case r of (files, Some e) \<Rightarrow> Inl e | (files, None) \<Rightarrow> Inr files)"

definition GetJobArtifactoryFiles :: "string \<Rightarrow> string \<Rightarrow> string \<Rightarrow> fs \<Rightarrow> string list \<times> error option" where
  "GetJobArtifactoryFiles cfg jobName jobID fs = ListFilesAbs (GetJobArtifactoryDir cfg jobName jobID) fs"

definition GetJobCheckFiles :: "string \<Rightarrow> string \<Rightarrow> string \<Rightarrow> fs \<Rightarrow> string list \<times> error option" where
  "GetJobCheckFiles cfg jobName jobID fs = ListFilesAbs (GetJobCheckDir cfg jobName jobID) fs"

definition GetJobArtifactoryFilesData :: "string \<Rightarrow> string \<Rightarrow> string \<Rightarrow> fs \<Rightarrow> ApiFile list res go" where
  "GetJobArtifactoryFilesData cfg jobName jobID fs =
     (case list_res (GetJobArtifactoryFiles cfg jobName jobID fs) of
        Inl e \<Rightarrow> Inr (Inl e) | Inr files \<Rightarrow> files_data cfg files fs)"

definition GetJobCheckFilesData :: "string \<Rightarrow> string \<Rightarrow> string \<Rightarrow> fs \<Rightarrow> ApiFile list res go" where
  "GetJobCheckFilesData cfg jobName jobID fs =
     (case list_res (GetJobCheckFiles cfg jobName jobID fs) of
        Inl e \<Rightarrow> Inr (Inl e) | Inr files \<Rightarrow> files_data cfg files fs)"

definition WriteFileToJobsDir :: "string \<Rightarrow> string \<Rightarrow> string \<Rightarrow> fs \<Rightarrow> error option \<times> fs" where
  "WriteFileToJobsDir cfg fileName content fs =
     SaveFile (PathJoin [GetJobsDir cfg, fileName]) content fs"

section \<open>Where things are kept\<close>

lemma good_comp_ext: "CHR ''/'' \<notin> set n \<Longrightarrow> good_comp (n @ ''.yml'') \<and> good_comp (n @ ''.log'')"
  by (auto simp: good_comp_def dot_def dotdot_def append_eq_Cons_conv)

lemma good_comp_consts [simp]:
  "good_comp ''jobs''" "good_comp ''job-details''" "good_comp ''job-details-log''"
  by (simp_all add: good_comp_def dot_def dotdot_def)

lemma good_comp_Itoa [simp]: "good_comp (Itoa i @ ''.yml'')" "good_comp (Itoa i @ ''.log'')"
  using good_comp_ext [of "Itoa i"] by simp_all

lemma store_paths:
  assumes "list_all good_comp cs" and "good_comp n"
  shows "getJobFilePath (abs_path cs) n = abs_path (cs @ [''jobs'', n, n @ ''.yml''])"
    and "GetJobDetailFilePath (abs_path cs) n jid =
      abs_path (cs @ [''jobs'', n, ''job-details'', Itoa jid @ ''.yml''])"
    and "getJobDetailLogPath (abs_path cs) n jid =
      abs_path (cs @ [''jobs'', n, ''job-details-log'', Itoa jid @ ''.log''])"
proof -
  have n: "n \<noteq> []" "good_comp (n @ ''.yml'')"
    using assms(2) good_comp_ext [of n] by (auto simp: good_comp_def)
  have d: "getJobFileDir (abs_path cs) n = abs_path (cs @ [''jobs'', n])"
    using assms by (simp add: getJobFileDir_def PathJoin_abs)
  show "getJobFilePath (abs_path cs) n = abs_path (cs @ [''jobs'', n, n @ ''.yml''])"
    using assms n d PathJoin_abs [of "cs @ [''jobs'', n]" "[n @ ''.yml'']"]
    by (simp add: getJobFilePath_def getJobFileName_def)
  have "getJobDetailFileDir (abs_path cs) n = abs_path (cs @ [''jobs'', n, ''job-details''])"
    using assms by (simp add: getJobDetailFileDir_def PathJoin_abs)
  then show "GetJobDetailFilePath (abs_path cs) n jid =
      abs_path (cs @ [''jobs'', n, ''job-details'', Itoa jid @ ''.yml''])"
    using assms PathJoin_abs [of "cs @ [''jobs'', n, ''job-details'']" "[Itoa jid @ ''.yml'']"]
    by (simp add: GetJobDetailFilePath_def getJobDetailFileName_def)
  have "getJobDetailLogDir (abs_path cs) n = abs_path (cs @ [''jobs'', n, ''job-details-log''])"
    using assms by (simp add: getJobDetailLogDir_def PathJoin_abs)
  then show "getJobDetailLogPath (abs_path cs) n jid =
      abs_path (cs @ [''jobs'', n, ''job-details-log'', Itoa jid @ ''.log''])"
    using assms PathJoin_abs [of "cs @ [''jobs'', n, ''job-details-log'']" "[Itoa jid @ ''.log'']"]
    by (simp add: getJobDetailLogPath_def)
qed

lemma store_keys:
  assumes "list_all good_comp cs" and "good_comp n"
  shows "path_of (getJobFilePath (abs_path cs) n) = cs @ [''jobs'', n, n @ ''.yml'']"
    and "path_of (GetJobDetailFilePath (abs_path cs) n jid) =
      cs @ [''jobs'', n, ''job-details'', Itoa jid @ ''.yml'']"
    and "path_of (getJobDetailLogPath (abs_path cs) n jid) =
      cs @ [''jobs'', n, ''job-details-log'', Itoa jid @ ''.log'']"
  using assms good_comp_ext [of n]
  by (simp_all add: store_paths good_comp_def [of n])

section \<open>Job files and details\<close>

text \<open>
  A job detail that was saved is read back, with the fresh trigger mode and with the duration of
  the last running stage recomputed; every other detail, job file and log that could be read
  before can still be read, unchanged.
\<close>

theorem job_detail_roundtrip:
  assumes "list_all good_comp cs" and "good_comp n" and "good_comp m"
    and "y_Marshal_Detail Y (jd\<lparr>jd_TriggerMode := ''Manual trigger''\<rparr>) = Inr dat"
    and "y_Unmarshal_Detail Y dat = Inr jd'"
    and "saveStringToFile (GetJobDetailFilePath (abs_path cs) n (jd_Id jd)) dat fs = (None, fs')"
  shows "SaveJobDetail Y (abs_path cs) n jd fs = (None, jd\<lparr>jd_TriggerMode := ''Manual trigger''\<rparr>, fs') \<and>
    GetJobDetail Y (abs_path cs) now n (jd_Id jd) fs' = Inr (refresh_duration now jd') \<and>
    (\<forall>t. GetJob (abs_path cs) m fs = Inr t \<longrightarrow> GetJob (abs_path cs) m fs' = Inr t) \<and>
    (\<forall>i t. GetJobLogString (abs_path cs) m i fs = Inr t \<longrightarrow> GetJobLogString (abs_path cs) m i fs' = Inr t) \<and>
    (\<forall>i t. (m, i) \<noteq> (n, jd_Id jd) \<longrightarrow> ReadStringJobDetail (abs_path cs) m i fs = Inr t \<longrightarrow>
       ReadStringJobDetail (abs_path cs) m i fs' = Inr t)"
proof -
  note frame = ts.save_other [OF assms(6)]
  have "readStringFromFile (GetJobDetailFilePath (abs_path cs) n (jd_Id jd)) fs' = Inr dat"
    by (rule ts.save_load [OF assms(6)])
  then have "GetJobDetail Y (abs_path cs) now n (jd_Id jd) fs' = Inr (refresh_duration now jd')"
    using assms(5) by (simp add: GetJobDetail_def)
  moreover have "SaveJobDetail Y (abs_path cs) n jd fs = (None, jd\<lparr>jd_TriggerMode := ''Manual trigger''\<rparr>, fs')"
    using assms(4,6) by (simp add: SaveJobDetail_def Let_def)
  moreover have "\<forall>t. GetJob (abs_path cs) m fs = Inr t \<longrightarrow> GetJob (abs_path cs) m fs' = Inr t"
    using frame [of "getJobFilePath (abs_path cs) m"] assms(1-3)
    by (simp add: store_keys GetJob_def)
  moreover have "\<forall>i t. GetJobLogString (abs_path cs) m i fs = Inr t \<longrightarrow>
      GetJobLogString (abs_path cs) m i fs' = Inr t"
    using frame [of "getJobDetailLogPath (abs_path cs) m _"] assms(1-3)
    by (simp add: store_keys GetJobLogString_def)
  moreover have "\<forall>i t. (m, i) \<noteq> (n, jd_Id jd) \<longrightarrow> ReadStringJobDetail (abs_path cs) m i fs = Inr t \<longrightarrow>
       ReadStringJobDetail (abs_path cs) m i fs' = Inr t"
    using frame [of "GetJobDetailFilePath (abs_path cs) m _"] assms(1-3)
    by (simp add: store_keys ReadStringJobDetail_def)
  ultimately show ?thesis by blast
qed

definition demo_detail :: JobDetail where
  "demo_detail = \<lparr>jd_Id = 1, jd_Job = demo_job, jd_Status = STATUS_RUNNING,
     jd_TriggerMode = ''Manual trigger'', jd_Stages = [], jd_StartTime = 0, jd_Duration = 0,
     jd_ActionResult = empty_ActionResult, jd_Error = []\<rparr>"

definition demo_yaml :: yaml_lib where
  "demo_yaml = \<lparr>y_Marshal_Job = (\<lambda>j. Inr ''job''), y_Unmarshal_Job = (\<lambda>s. Inr demo_job),
     y_Marshal_Detail = (\<lambda>d. Inr ''detail''), y_Unmarshal_Detail = (\<lambda>s. Inr demo_detail),
     y_Copy = (\<lambda>j. \<lparr>vo_Version = job_Version j, vo_Name = job_Name j, vo_Stages = job_Stages j,
       vo_Status = STATUS_NOTRUN, vo_StartTime = 0, vo_Duration = 0, vo_TriggerMode = [],
       vo_PipelineDetailId = 0, vo_Error = [], vo_CreateTime = 0\<rparr>)\<rparr>"

definition demo_saved :: fs where
  "demo_saved = snd (saveStringToFile (GetJobDetailFilePath (abs_path [''p'']) ''j'' 1) ''detail'' demo_fs)"

lemma demo_save: "saveStringToFile (GetJobDetailFilePath (abs_path [''p'']) ''j'' 1) ''detail'' demo_fs =
    (None, demo_saved)"
  by code_simp

theorem job_detail_roundtrip_witness:
  "GetJobDetail demo_yaml (abs_path [''p'']) 7 ''j'' 1 demo_saved = Inr (refresh_duration 7 demo_detail)"
  using job_detail_roundtrip [of "[''p'']" "''j''" "''k''" demo_yaml demo_detail "''detail''" demo_detail
      demo_fs demo_saved 7] demo_save
  by (simp add: good_comp_def dot_def dotdot_def demo_yaml_def demo_detail_def)

text \<open>
  For a job that cannot be read, \<open>SaveJobParams\<close> returns the error and changes nothing, while
  \<open>SaveJobUserId\<close> panics with a nil dereference; for a job that can be read it never panics.
\<close>

theorem SaveJobUserId_panics_iff:
  "(SaveJobUserId Y cfg name userId fs = Inl PanicNil \<longleftrightarrow> (\<exists>e. GetJobObject Y cfg name fs = Inl e)) \<and>
   (\<forall>e. GetJobObject Y cfg name fs = Inl e \<longrightarrow> SaveJobParams Y cfg name params fs = (Some e, fs)) \<and>
   (\<forall>q. SaveJobUserId Y cfg name userId fs = Inl q \<longrightarrow> q = PanicNil)"
  by (auto simp: SaveJobUserId_def SaveJobParams_def Let_def split: sum.splits)

theorem SaveJobUserId_panics_iff_witness:
  "SaveJobUserId demo_yaml ''/p'' ''j'' ''u'' demo_fs = Inl PanicNil"
proof -
  have "GetJobObject demo_yaml ''/p'' ''j'' demo_fs =
      Inl (''get job failed, job file not exist: '' @ ''/p/jobs/j/j.yml'')" by code_simp
  then show ?thesis using SaveJobUserId_panics_iff [of demo_yaml "''/p''" "''j''" "''u''" demo_fs] by blast
qed

section \<open>Lists\<close>

lemma Index_ge_iff: "0 \<le> Index f ''.'' \<longleftrightarrow> CHR ''.'' \<in> set f"
  by (simp add: Index_ge_0_iff)

lemma slice_stem: "CHR ''.'' \<in> set f \<Longrightarrow> slice f 0 (Index f ''.'') = Inr (take (nat (Index f ''.'')) f)"
proof -
  assume "CHR ''.'' \<in> set f"
  then have "0 \<le> Index f ''.''" by (simp add: Index_ge_iff)
  then obtain n where n: "str_index f ''.'' = Some n" "Index f ''.'' = int n"
    by (auto simp: Index_def split: option.splits)
  from str_index_Some [OF n(1)] have "n \<le> length f" by auto
  then show ?thesis using n(2) by (simp add: slice_def)
qed

lemma slice_no_stem: "CHR ''.'' \<notin> set f \<Longrightarrow> slice f 0 (Index f ''.'') = Inl PanicIndex"
  using Index_ge_iff [of f] by (auto simp: slice_def)

lemma file_ids_total:
  "\<forall>f \<in> set files. CHR ''.'' \<in> set f \<Longrightarrow> \<exists>ids. file_ids files = Inr ids"
  by (induction files) (auto simp: slice_stem)

lemma file_ids_panic: "\<exists>f \<in> set files. CHR ''.'' \<notin> set f \<Longrightarrow> file_ids files = Inl PanicIndex"
proof (induction files)
  case (Cons f files)
  then show ?case by (cases "CHR ''.'' \<in> set f") (auto simp: slice_stem slice_no_stem)
qed simp

text \<open>
  Listing the jobs reads the run directory of each of them: one entry without a dot in its name
  (a subdirectory, an editor's backup) makes the whole listing panic, and only that can.
\<close>

theorem updateJobInfo_panics_iff:
  assumes "ReadDir (path_of (getJobDetailFileDir cfg (vo_Name vo))) fs = Inr files"
  shows "(updateJobInfo Y cfg now vo fs = Inl PanicIndex \<longleftrightarrow> (\<exists>f \<in> set files. CHR ''.'' \<notin> set f)) \<and>
    (\<forall>q. updateJobInfo Y cfg now vo fs = Inl q \<longrightarrow> q = PanicIndex)"
proof -
  have ex: "isFileExist (getJobDetailFileDir cfg (vo_Name vo)) fs"
    using assms by (auto simp: ReadDir_def isFileExist_def split: sum.splits)
  show ?thesis
  proof (cases "\<exists>f \<in> set files. CHR ''.'' \<notin> set f")
    case True
    then show ?thesis using ex assms by (simp add: updateJobInfo_def Let_def file_ids_panic)
  next
    case False
    then obtain ids where "file_ids files = Inr ids" using file_ids_total [of files] by blast
    then have "\<exists>r. updateJobInfo Y cfg now vo fs = Inr r"
      using ex assms by (simp add: updateJobInfo_def Let_def split: sum.split)
    then show ?thesis using False by auto
  qed
qed

definition demo_vo :: JobVo where
  "demo_vo = (y_Copy demo_yaml demo_job)\<lparr>vo_Name := ''j''\<rparr>"

definition demo_backup :: fs where
  "demo_backup = \<lparr>fs_nodes = [([''p''], FDir), ([''p'', ''jobs''], FDir), ([''p'', ''jobs'', ''j''], FDir),
     ([''p'', ''jobs'', ''j'', ''job-details''], FDir),
     ([''p'', ''jobs'', ''j'', ''job-details'', ''1.yml''], FFile ''x''),
     ([''p'', ''jobs'', ''j'', ''job-details'', ''backup''], FFile ''y'')], fs_deny = []\<rparr>"

lemma demo_backup_files:
  "ReadDir (path_of (getJobDetailFileDir ''/p'' (vo_Name demo_vo))) demo_backup = Inr [''1.yml'', ''backup'']"
  by code_simp

theorem updateJobInfo_panics_iff_witness:
  "updateJobInfo demo_yaml ''/p'' 7 demo_vo demo_backup = Inl PanicIndex"
  using updateJobInfo_panics_iff [OF demo_backup_files] by auto

lemma sorts_mset: "sorts lt srt \<Longrightarrow> mset (srt xs) = mset xs"
  by (simp add: sorts_def)

lemma page_slice_total:
  "\<exists>p sz ys. page_slice xs page psize = Inr (p, sz, ys) \<and> 1 \<le> p \<and> int (length ys) \<le> sz \<and>
     (\<exists>us vs. xs = us @ ys @ vs)"
proof -
  obtain p sz a b where sp: "SlicePage page psize (int (length xs)) = (p, sz, a, b)"
    by (cases "SlicePage page psize (int (length xs))") auto
  then have r: "1 \<le> p" "0 \<le> a" "a \<le> b" "b \<le> int (length xs)" "b - a \<le> sz"
    using SlicePage_range [of "int (length xs)" page psize] by auto
  let ?ys = "drop (nat a) (take (nat b) xs)"
  have "xs = take (nat a) (take (nat b) xs) @ ?ys @ drop (nat b) xs"
    by (metis append.assoc append_take_drop_id)
  moreover have "int (length ?ys) \<le> sz" using r by auto
  ultimately show ?thesis using sp r by (auto simp: page_slice_def slice_def)
qed


lemma sort_by_id: "sorts JobDetailDecrement_Less (sort_key (\<lambda>d. - jd_Id d))"
proof -
  have "sorted (map (\<lambda>d. - jd_Id d) (sort_key (\<lambda>d. - jd_Id d) xs))" for xs :: "JobDetail list"
    by simp
  then have "sorted_wrt (\<lambda>a b. - jd_Id a \<le> - jd_Id b) (sort_key (\<lambda>d. - jd_Id d) xs)" for xs :: "JobDetail list"
    by (simp only: sorted_map)
  then show ?thesis by (auto simp: sorts_def JobDetailDecrement_Less_def not_less)
qed


section \<open>Renaming a job\<close>

lemma readStringFromFile_absent:
  "Stat fs (path_of p) = Inl ENOENT \<Longrightarrow> readStringFromFile p fs = Inl ''file not exist''"
  by (simp add: readStringFromFile_def isFileExist_def)

lemma renameFile_moves:
  assumes ok: "fs_ok fs" and cs: "list_all good_comp cs"
    and names: "good_comp old" "good_comp new" "good_comp ofile" "good_comp nfile" "old \<noteq> new" "ofile \<noteq> nfile"
    and stored: "fs_lookup fs (cs @ [old, ofile]) = Some (FFile c)"
    and free: "\<And>r. fs_lookup fs (cs @ new # r) = None" and nofile: "fs_lookup fs (cs @ [old, nfile]) = None"
  shows "\<exists>fs1. renameFile (abs_path (cs @ [old, ofile])) (abs_path (cs @ [new, nfile])) fs = (None, fs1) \<and>
    fs_ok fs1 \<and> fs_lookup fs1 (cs @ [new]) = Some FDir \<and>
    fs_lookup fs1 (cs @ [new, nfile]) = Some (FFile c) \<and>
    (\<forall>r. r \<noteq> [] \<longrightarrow> hd r \<noteq> ofile \<longrightarrow> hd r \<noteq> nfile \<longrightarrow>
       fs_lookup fs1 (cs @ new # r) = fs_lookup fs (cs @ old # r)) \<and>
    (\<forall>r. fs_lookup fs1 (cs @ old # r) = None)"
proof -
  let ?D = "cs @ [old]" and ?E = "cs @ [new]"
  have dirs: "fs_lookup fs ?D = Some FDir" "fs_lookup fs cs = Some FDir"
    using fs_ok_prefix [OF ok, of ?D "[ofile]"] fs_ok_prefix [OF ok, of cs "[old, ofile]"] stored by simp_all
  obtain fs1 where 1: "Rename ?D ?E fs = (None, fs1)" and r1: "renamed ?D ?E fs fs1"
    using Rename_renamed [OF ok dirs(1), of ?E] dirs(2) free names(5)
    by (force simp: prefix_def)
  have l1: "fs_lookup fs1 (cs @ new # r) = fs_lookup fs (cs @ old # r)"
    "fs_lookup fs1 (cs @ old # r) = None" for r
    using r1 names(5) by (simp_all add: renamed_def)
  have ok1: "fs_ok fs1"
    using renamed_ok [OF ok r1] dirs(2) names(5) by simp
  have under: "fs_lookup fs (cs @ old # nfile # r) = None" for r
  proof (cases "r = []")
    case False
    then show ?thesis
      using fs_ok_prefix [OF ok, of "cs @ [old, nfile]" r] nofile by (cases "fs_lookup fs (cs @ old # nfile # r)") auto
  qed (use nofile in simp)
  have "\<exists>fs'. Rename (cs @ [new, ofile]) (cs @ [new, nfile]) fs1 = (None, fs') \<and>
      renamed (cs @ [new, ofile]) (cs @ [new, nfile]) fs1 fs'"
  proof (rule Rename_renamed [OF ok1])
    show "fs_lookup fs1 (cs @ [new, ofile]) = Some (FFile c)" using l1(1) [of "[ofile]"] stored by simp
    show "fs_lookup fs1 (butlast (cs @ [new, nfile])) = Some FDir"
      using l1(1) [of "[]"] dirs(1) by (simp add: butlast_append)
    show "fs_lookup fs1 q = None" if "prefix (cs @ [new, nfile]) q" for q
      using that l1(1) under by (auto simp: prefix_def)
    show "\<not> prefix (cs @ [new, ofile]) (cs @ [new, nfile])" using names(6) by simp
  qed auto
  then obtain fs2 where 2: "Rename (cs @ [new, ofile]) (cs @ [new, nfile]) fs1 = (None, fs2)"
    and r2: "renamed (cs @ [new, ofile]) (cs @ [new, nfile]) fs1 fs2" by blast
  have look: "fs_lookup fs2 q = (if prefix (cs @ [new, nfile]) q
       then fs_lookup fs1 ((cs @ [new, ofile]) @ drop (length (cs @ [new, nfile])) q)
      else if prefix (cs @ [new, ofile]) q then None else fs_lookup fs1 q)" for q
    using r2 by (simp add: renamed_def)
  have ok2: "fs_ok fs2"
    using renamed_ok [OF ok1 r2] l1(1) [of "[]"] dirs(1) names(6) by (simp add: butlast_append)
  have gD: "list_all good_comp (?D @ [ofile])" "list_all good_comp (?E @ [nfile])"
    using cs names by simp_all
  have paths: "Dir (abs_path (cs @ [old, ofile])) = abs_path ?D" "Dir (abs_path (cs @ [new, nfile])) = abs_path ?E"
    "Base (abs_path (cs @ [old, ofile])) = ofile"
    using Dir_abs_path [OF gD(1)] Dir_abs_path [OF gD(2)] Base_abs_path [OF gD(1)] by simp_all
  have j: "PathJoin [abs_path ?E, ofile] = abs_path (cs @ [new, ofile])"
    using PathJoin_abs [of ?E "[ofile]"] cs names by simp
  have "abs_path ?D \<noteq> abs_path ?E" "abs_path (cs @ [old, ofile]) \<noteq> abs_path (cs @ [new, nfile])"
    using cs names by (simp_all add: abs_path_inject)
  moreover have "isFileExist (abs_path (cs @ [old, ofile])) fs"
    using fs_ok_Stat_Some [OF ok stored] cs names by (simp add: isFileExist_def)
  ultimately have "renameFile (abs_path (cs @ [old, ofile])) (abs_path (cs @ [new, nfile])) fs = (None, fs2)"
    using 1 2 cs names by (simp add: renameFile_def paths j go_err_def)
  moreover have "fs_lookup fs2 ?E = Some FDir" using look [of ?E] l1(1) [of "[]"] dirs(1) by simp
  moreover have "fs_lookup fs2 (cs @ [new, nfile]) = Some (FFile c)"
    using look [of "cs @ [new, nfile]"] l1(1) [of "[ofile]"] stored by simp
  moreover have "fs_lookup fs2 (cs @ new # r) = fs_lookup fs (cs @ old # r)"
    if "r \<noteq> []" "hd r \<noteq> ofile" "hd r \<noteq> nfile" for r
    using look [of "cs @ new # r"] l1(1) that by (cases r) auto
  moreover have "fs_lookup fs2 (cs @ old # r) = None" for r
    using look [of "cs @ old # r"] l1(2) names(5) by simp
  ultimately show ?thesis using ok2 by blast
qed

lemma yml_not_dir: "''job-details'' \<noteq> x @ ''.yml''" "''job-details-log'' \<noteq> x @ ''.yml''"
  by (auto dest: arg_cong [of _ _ last])


definition demo_jobs :: fs where
  "demo_jobs = \<lparr>fs_nodes = [([''p''], FDir), ([''p'', ''jobs''], FDir), ([''p'', ''jobs'', ''j''], FDir),
     ([''p'', ''jobs'', ''j'', ''j.yml''], FFile ''job''),
     ([''p'', ''jobs'', ''j'', ''job-details''], FDir),
     ([''p'', ''jobs'', ''j'', ''job-details'', ''1.yml''], FFile ''run'')], fs_deny = []\<rparr>"

lemma demo_jobs_ok: "fs_ok demo_jobs"
  unfolding fs_ok_def
proof (intro conjI allI impI)
  fix q n assume "fs_lookup demo_jobs q = Some n" "q \<noteq> []"
  then have "(q, n) \<in> set (fs_nodes demo_jobs)"
    by (auto simp: fs_lookup_def dest: m_load_Some_in)
  then show "fs_lookup demo_jobs (butlast q) = Some FDir"
    by (auto simp: demo_jobs_def fs_lookup_def m_load_def)
qed (simp add: demo_jobs_def)


section \<open>Files sent from a worker to the master\<close>

lemma abs_path_under:
  "ds \<noteq> [] \<Longrightarrow> cs \<noteq> [] \<Longrightarrow> abs_path (cs @ ds) = abs_path cs @ CHR ''/'' # Join ds ''/''"
  by (simp add: abs_path_def Join_append_single)

text \<open>
  The relative path a worker computes for a file below its jobs directory, joined by the master to
  its own jobs directory, names the file with the same components below it; for the jobs
  directory itself the worker panics, and a sibling whose name merely starts with \<open>jobs\<close> loses
  the first part of its name.
\<close>

theorem relative_path_roundtrip:
  assumes "list_all good_comp cs" and "list_all good_comp ds" and "list_all good_comp rel" and "rel \<noteq> []"
  shows "\<exists>p. getRelativeJobsPath (abs_path cs) (abs_path (cs @ ''jobs'' # rel)) = Inr p \<and>
      PathJoin [GetJobsDir (abs_path ds), p] = abs_path (ds @ ''jobs'' # rel) \<and>
    getRelativeJobsPath (abs_path cs) (GetJobsDir (abs_path cs)) = Inl PanicIndex \<and>
    getRelativeJobsPath (abs_path cs) (abs_path (cs @ [''jobs2'', ''x''])) = Inr ''/x''"
proof -
  have dir: "GetJobsDir (abs_path es) = abs_path (es @ [''jobs''])" if "list_all good_comp es" for es
    using that by (simp add: GetJobsDir_def PathJoin_abs)
  let ?j = "abs_path (cs @ [''jobs''])"
  have p: "abs_path (cs @ ''jobs'' # rel) = ?j @ CHR ''/'' # Join rel ''/''"
    using abs_path_under [of rel "cs @ [''jobs'']"] assms(4) by simp
  have "slice (?j @ CHR ''/'' # t) (int (length ?j) + 1) (int (length (?j @ CHR ''/'' # t))) = Inr t" for t
  proof -
    have "nat (int (length ?j) + 1) = Suc (length ?j)" by simp
    then show ?thesis by (simp add: slice_def del: of_nat_Suc)
  qed
  then have rel: "getRelativeJobsPath (abs_path cs) (abs_path (cs @ ''jobs'' # rel)) = Inr (Join rel ''/'')"
    using assms(1) dir p by (simp add: getRelativeJobsPath_def)
  have "PathJoin [GetJobsDir (abs_path ds), Join rel ''/''] = PathJoin (abs_path (ds @ [''jobs'']) # rel)"
    using assms(2,4) dir by (simp add: PathJoin_def abs_path_def Join_Cons)
  also have "\<dots> = abs_path (ds @ ''jobs'' # rel)"
    using assms(2,3) PathJoin_abs [of "ds @ [''jobs'']" rel] by simp
  finally have join: "PathJoin [GetJobsDir (abs_path ds), Join rel ''/''] = abs_path (ds @ ''jobs'' # rel)" .
  have self: "getRelativeJobsPath (abs_path cs) (GetJobsDir (abs_path cs)) = Inl PanicIndex"
    using assms(1) dir by (simp add: getRelativeJobsPath_def slice_def)
  have "abs_path (cs @ [''jobs2'', ''x'']) = ?j @ CHR ''2'' # ''/x''"
    using abs_path_snoc [of "cs @ [''jobs2'']" "''x''"] by (simp add: abs_path_snoc)
  moreover have "slice (?j @ CHR ''2'' # t) (int (length ?j) + 1) (int (length (?j @ CHR ''2'' # t))) = Inr t" for t
  proof -
    have "nat (int (length ?j) + 1) = Suc (length ?j)" by simp
    then show ?thesis by (simp add: slice_def del: of_nat_Suc)
  qed
  then have "getRelativeJobsPath (abs_path cs) (?j @ CHR ''2'' # t) = Inr t" for t
    using assms(1) dir by (simp add: getRelativeJobsPath_def)
  ultimately have "getRelativeJobsPath (abs_path cs) (abs_path (cs @ [''jobs2'', ''x''])) = Inr ''/x''"
    by (simp only:)
  with rel join self show ?thesis by blast
qed

theorem relative_path_roundtrip_witness:
  "\<exists>p. getRelativeJobsPath (abs_path [''w'']) (abs_path ([''w''] @ ''jobs'' # [''j'', ''artifactory'', ''a.zip''])) = Inr p \<and>
     PathJoin [GetJobsDir (abs_path [''m'']), p] = abs_path ([''m''] @ ''jobs'' # [''j'', ''artifactory'', ''a.zip''])"
  using relative_path_roundtrip [of "[''w'']" "[''m'']" "[''j'', ''artifactory'', ''a.zip'']"]
  by (auto simp: good_comp_def dot_def dotdot_def)

end
