(* ===== verification/Executor.thy ===== *)
theory Executor
  imports JobStore
begin

text \<open>
  \<open>executor/executor.go\<close> and \<open>executor/client.go\<close>: running a job stage by stage and step by step,
  the maps of cancel functions and step timers, the channel of status messages, and the queue.

  The actions are reached through the interface \<open>ActionHandler\<close> of \<open>action/hander.go\<close>: the record
  \<open>action_lib\<close> holds the constructors and the three methods.  They read and change the world: the
  file system, the run's \<open>Output\<close>, the engine context (the map that \<open>ctx.Value("stack")\<close> returns)
  and whatever lies outside the program.  Time passes inside the actions: \<open>time.Now()\<close> reads the
  world's clock.  A panic outside a \<open>recover\<close> ends the process (\<open>Inl\<close>).  The goroutine that
  refreshes the durations of the running step every two seconds is in theory \<open>RunShape\<close>.
\<close>

section \<open>Actions\<close>

datatype 'a outcome = Returns 'a | RuntimePanic string | OtherPanic

datatype ActionKind =
    K_Shell | K_Git | K_Ipfs | K_PinataIpfs | K_Artifactory | K_ImageBuild | K_ImagePush
  | K_K8sDeploy | K_K8sIngress | K_MetaScanCheck | K_SolProfiler | K_SolHint | K_MythRil | K_Slither
  | K_CheckAggregation | K_Ink | K_Eslint | K_EthGasReporter | K_MoveProver | K_Workdir | K_Openai
  | K_ICPBuild | K_ICPDeploy | K_Remote | K_Docker

datatype ctx_value = CStr string | CStrs "string list" | CMap "(string, string) gomap option"

record 'x world =
  w_fs :: fs
  w_out :: Output
  w_ctx :: "(string, ctx_value) gomap"
  w_time :: time
  w_ext :: 'x

record ('h, 'x) action_lib =
  al_New :: "ActionKind \<Rightarrow> Step \<Rightarrow> 'x world \<Rightarrow> 'h go \<times> 'x world"
  al_Pre :: "'h \<Rightarrow> 'x world \<Rightarrow> error option outcome \<times> 'x world"
  al_Hook :: "'h \<Rightarrow> 'x world \<Rightarrow> (ActionResult option \<times> error option) outcome \<times> 'x world"
  al_Post :: "'h \<Rightarrow> 'x world \<Rightarrow> unit outcome \<times> 'x world"

text \<open>The chain of comparisons on \<open>step.Uses\<close>; \<open>None\<close> when no branch is taken.\<close>

definition action_kind :: "string \<Rightarrow> ActionKind option" where
  "action_kind uses =
     (if uses = [] \<or> uses = ''shell'' then Some K_Shell
      else if uses = ''git-checkout'' then Some K_Git
      else if uses = ''hamster-ipfs'' then Some K_Ipfs
      else if uses = ''hamster-pinata-ipfs'' then Some K_PinataIpfs
      else if uses = ''hamster-artifactory'' then Some K_Artifactory
      else if uses = ''image-build'' then Some K_ImageBuild
      else if uses = ''image-push'' then Some K_ImagePush
      else if uses = ''k8s-frontend-deploy'' then Some K_K8sDeploy
      else if uses = ''k8s-assign-domain'' then Some K_K8sIngress
      else if uses = ''metascan_action'' then Some K_MetaScanCheck
      else if uses = ''sol-profiler-check'' then Some K_SolProfiler
      else if uses = ''solhint-check'' then Some K_SolHint
      else if uses = ''mythril-check'' then Some K_MythRil
      else if uses = ''slither-check'' then Some K_Slither
      else if uses = ''check-aggregation'' then Some K_CheckAggregation
      else if uses = ''deploy-ink-contract'' then Some K_Ink
      else if uses = ''frontend-check'' then Some K_Eslint
      else if uses = ''eth-gas-reporter'' then Some K_EthGasReporter
      else if uses = ''aptos-check'' then Some K_MoveProver
      else if uses = ''workdir'' then Some K_Workdir
      else if uses = ''openai'' then Some K_Openai
      else if uses = ''icp-build'' then Some K_ICPBuild
      else if uses = ''icp-deploy'' then Some K_ICPDeploy
      else if Contains uses ''/'' then Some K_Remote
      else None)"

section \<open>The executor and a run\<close>

text \<open>
  A cancel function is known by the key of its job; \<open>ex_cancelled\<close> lists the contexts that were
  cancelled.  A timer is its start time.
\<close>

record Executor =
  ex_cancelMap :: "(string, string) gomap"
  ex_cancelled :: "string list"
  ex_StatusChan :: "StatusChangeMessage list"
  ex_stepTimerMap :: "(string, time) gomap"

record exec_env =
  e_yaml :: yaml_lib
  e_format :: time_format
  e_cfg :: string
  e_home :: string
  e_stage_order :: range_order
  e_map_order :: "string list \<Rightarrow> string list"

record ('h, 'x) run =
  r_ex :: Executor
  r_job :: JobDetail
  r_stack :: "'h Stack"
  r_err :: "error option"
  r_w :: "'x world"

definition ex_send :: "StatusChangeMessage \<Rightarrow> Executor \<Rightarrow> Executor" where
  "ex_send m ex = ex\<lparr>ex_StatusChan := ex_StatusChan ex @ [m]\<rparr>"

definition set_status :: "Status \<Rightarrow> ('h, 'x) run \<Rightarrow> ('h, 'x) run" where
  "set_status st r = r\<lparr>r_job := (r_job r)\<lparr>jd_Status := st\<rparr>\<rparr>"

definition on_out :: "(Output \<Rightarrow> Output) \<Rightarrow> ('h, 'x) run \<Rightarrow> ('h, 'x) run" where
  "on_out f r = r\<lparr>r_w := (r_w r)\<lparr>w_out := f (w_out (r_w r))\<rparr>\<rparr>"

text \<open>\<open>jober.SaveJobDetail(jobWrapper.Name, jobWrapper)\<close>, its error dropped or only logged.\<close>

definition save_detail :: "exec_env \<Rightarrow> ('h, 'x) run \<Rightarrow> ('h, 'x) run" where
  "save_detail E r =
     (case SaveJobDetail (e_yaml E) (e_cfg E) (job_Name (jd_Job (r_job r))) (r_job r) (w_fs (r_w r)) of
        (err, jd, fs') \<Rightarrow> r\<lparr>r_job := jd, r_w := (r_w r)\<lparr>w_fs := fs'\<rparr>\<rparr>)"

text \<open>What \<open>executeAction\<close> keeps of an action's result.\<close>

definition add_result :: "ActionResult option \<Rightarrow> JobDetail \<Rightarrow> JobDetail" where
  "add_result res jd =
     (case res of
        None \<Rightarrow> jd
      | Some ar \<Rightarrow>
          (let a = jd_ActionResult jd in
           jd\<lparr>jd_ActionResult := a
             \<lparr>ar_Artifactorys := ar_Artifactorys a @ ar_Artifactorys ar,
              ar_Reports := ar_Reports a @ ar_Reports ar,
              ar_CodeInfo := (if ci_CommitId (ar_CodeInfo ar) \<noteq> [] then ar_CodeInfo ar else ar_CodeInfo a),
              ar_Deploys := ar_Deploys a @ ar_Deploys ar,
              ar_BuildData := ar_BuildData a @ ar_BuildData ar,
              ar_MetaScanData := ar_MetaScanData a @ ar_MetaScanData ar\<rparr>\<rparr>))"

definition runtime_error :: "string \<Rightarrow> error" where
  "runtime_error m = ''runtime error: '' @ m"

text \<open>\<open>executeAction\<close>; the returned error is \<open>r_err\<close>.  Only runtime errors survive the \<open>recover\<close>.\<close>

definition executeAction :: "('h, 'x) action_lib \<Rightarrow> 'h option \<Rightarrow> ('h, 'x) run \<Rightarrow> ('h, 'x) run" where
  "executeAction L ah r =
     (if jd_Status (r_job r) \<noteq> STATUS_RUNNING then r\<lparr>r_err := None\<rparr>
      else case ah of
        None \<Rightarrow> r\<lparr>r_err := None\<rparr>
      | Some h \<Rightarrow>
          (case al_Pre L h (r_w r) of
             (RuntimePanic m, w) \<Rightarrow> r\<lparr>r_err := Some (runtime_error m), r_w := w\<rparr>
           | (OtherPanic, w) \<Rightarrow> r\<lparr>r_err := None, r_w := w\<rparr>
           | (Returns (Some e), w) \<Rightarrow> set_status STATUS_FAIL (r\<lparr>r_err := Some e, r_w := w\<rparr>)
           | (Returns None, w) \<Rightarrow>
               (let r1 = r\<lparr>r_stack := Stack_Push h (r_stack r), r_w := w\<rparr> in
                case al_Hook L h w of
                  (RuntimePanic m, w') \<Rightarrow> r1\<lparr>r_err := Some (runtime_error m), r_w := w'\<rparr>
                | (OtherPanic, w') \<Rightarrow> r1\<lparr>r_err := None, r_w := w'\<rparr>
                | (Returns (res, err), w') \<Rightarrow>
                    (let r2 = r1\<lparr>r_job := add_result res (r_job r1), r_err := err, r_w := w'\<rparr> in
                     if err \<noteq> None then set_status STATUS_FAIL r2 else r2))))"

text \<open>
  \<open>for !stack.IsEmpty() { ah, _ := stack.Pop(); _ = ah.Post() }\<close>; nothing recovers a panic here.
\<close>

function drain :: "('h, 'x) action_lib \<Rightarrow> 'h Stack \<Rightarrow> 'x world \<Rightarrow> 'x world go" where
  "drain L s w =
     (if Stack_IsEmpty s then Inr w
      else (case Stack_Pop s of
          (Inl e, s') \<Rightarrow> Inl PanicNil
        | (Inr h, s') \<Rightarrow>
            (case al_Post L h w of
               (Returns u, w') \<Rightarrow> drain L s' w'
             | (RuntimePanic m, w') \<Rightarrow> Inl (PanicMsg m)
             | (OtherPanic, w') \<Rightarrow> Inl (PanicMsg []))))"
  by pat_completeness auto
termination
  by (relation "measure (\<lambda>(L, s, w). length s)")
    (auto simp: Stack_Pop_def Stack_IsEmpty_def split: if_splits)

declare drain.simps [simp del]

text \<open>
  The step \<open>j\<close> of stage \<open>i\<close>.  The stage list and the job's stage map share the slice of steps, so an
  assignment to a step shows in both.
\<close>

definition map_step :: "nat \<Rightarrow> (Step \<Rightarrow> Step) \<Rightarrow> Stage \<Rightarrow> Stage" where
  "map_step j f st =
     st\<lparr>stage_Steps := (stage_Steps st)[j := f (stage_Steps st ! j)]\<rparr>"

definition set_step :: "nat \<Rightarrow> nat \<Rightarrow> (Step \<Rightarrow> Step) \<Rightarrow> ('h, 'x) run \<Rightarrow> ('h, 'x) run" where
  "set_step i j f r =
     (let jd = r_job r; sd = jd_Stages jd ! i; job = jd_Job jd in
      r\<lparr>r_job := jd
        \<lparr>jd_Stages := (jd_Stages jd)[i := sd\<lparr>sd_Stage := map_step j f (sd_Stage sd)\<rparr>],
         jd_Job := (case m_load (job_Stages job) (sd_Name sd) of
             None \<Rightarrow> job
           | Some st \<Rightarrow> job\<lparr>job_Stages := m_store (sd_Name sd) (map_step j f st) (job_Stages job)\<rparr>)\<rparr>\<rparr>)"

definition set_stage :: "nat \<Rightarrow> (StageDetail \<Rightarrow> StageDetail) \<Rightarrow> ('h, 'x) run \<Rightarrow> ('h, 'x) run" where
  "set_stage i f r =
     r\<lparr>r_job := (r_job r)\<lparr>jd_Stages := (jd_Stages (r_job r))[i := f (jd_Stages (r_job r) ! i)]\<rparr>\<rparr>"

definition the_step :: "nat \<Rightarrow> nat \<Rightarrow> ('h, 'x) run \<Rightarrow> Step" where
  "the_step i j r = stage_Steps (sd_Stage (jd_Stages (r_job r) ! i)) ! j"

definition new_action :: "('h, 'x) action_lib \<Rightarrow> ActionKind \<Rightarrow> Step \<Rightarrow> ('h, 'x) run \<Rightarrow>
    ('h \<times> ('h, 'x) run) go" where
  "new_action L k step r =
     (case al_New L k step (r_w r) of
        (Inl p, w) \<Rightarrow> Inl p
      | (Inr h, w) \<Rightarrow> Inr (h, r\<lparr>r_w := w\<rparr>))"

definition run_key :: "('h, 'x) run \<Rightarrow> string" where
  "run_key r = FormatJobToString (job_Name (jd_Job (r_job r))) (jd_Id (r_job r))"

text \<open>After the environment: start the step, run its action, drain the stack, record the outcome.\<close>

definition start_step :: "exec_env \<Rightarrow> nat \<Rightarrow> nat \<Rightarrow> ('h, 'x) run \<Rightarrow> ('h, 'x) run" where
  "start_step E i j r0 =
     (let start = w_time (r_w r0);
          r1 = save_detail E (set_step i j (\<lambda>s. s\<lparr>step_StartTime := start, step_Status := STATUS_RUNNING\<rparr>) r0) in
      r1\<lparr>r_ex := (r_ex r1)\<lparr>ex_stepTimerMap :=
           m_store (run_key r1) (w_time (r_w r1)) (ex_stepTimerMap (r_ex r1))\<rparr>\<rparr>)"

definition choose_action :: "('h, 'x) action_lib \<Rightarrow> Step \<Rightarrow> 'h option \<Rightarrow> ('h, 'x) run \<Rightarrow>
    ('h option \<times> ('h, 'x) run) go" where
  "choose_action L step env r =
     (case action_kind (step_Uses step) of
        None \<Rightarrow> Inr (env, r)
      | Some k \<Rightarrow> then_do (new_action L k step r) (\<lambda>(h, r'). Inr (Some h, r')))"

definition end_step :: "exec_env \<Rightarrow> nat \<Rightarrow> nat \<Rightarrow> 'x world \<Rightarrow> ('h, 'x) run \<Rightarrow> ('h, 'x) run" where
  "end_step E i j w r =
     (let r1 = r\<lparr>r_stack := [], r_w := w\<rparr> in
      save_detail E (set_step i j (\<lambda>s. s\<lparr>step_Status :=
        (if r_err r1 \<noteq> None then STATUS_FAIL else STATUS_SUCCESS)\<rparr>) r1))"

definition run_action :: "exec_env \<Rightarrow> ('h, 'x) action_lib \<Rightarrow> nat \<Rightarrow> nat \<Rightarrow> Step \<Rightarrow> 'h option \<Rightarrow>
    ('h, 'x) run \<Rightarrow> ('h, 'x) run go" where
  "run_action E L i j step env r0 =
     then_do (choose_action L step env (start_step E i j r0)) (\<lambda>(ah, r3).
     let r4 = executeAction L ah (on_out (NewStep (step_Name step)) r3);
         r5 = set_step i j (\<lambda>s. s\<lparr>step_Duration := Milliseconds (w_time (r_w r4) - step_StartTime s)\<rparr>) r4 in
     then_do (drain L (r_stack r5) (r_w r5)) (\<lambda>w. Inr (end_step E i j w r5)))"

fun step_loop :: "exec_env \<Rightarrow> ('h, 'x) action_lib \<Rightarrow> nat \<Rightarrow> nat list \<Rightarrow> ('h, 'x) run \<Rightarrow>
    ('h, 'x) run go" where
  "step_loop E L i [] r = Inr r"
| "step_loop E L i (j # js) r =
     (let step = the_step i j r in
      if step_RunsOn step \<noteq> [] then
        then_do (new_action L K_Docker step r) (\<lambda>(d, r1).
          let r2 = executeAction L (Some d) r1 in
          if r_err r2 \<noteq> None then Inr r2
          else then_do (run_action E L i j step (Some d) r2) (step_loop E L i js))
      else then_do (run_action E L i j step None r) (step_loop E L i js))"

definition start_stage :: "exec_env \<Rightarrow> nat \<Rightarrow> ('h, 'x) run \<Rightarrow> ('h, 'x) run" where
  "start_stage E i r =
     (let t = w_time (r_w r);
          r1 = set_stage i (\<lambda>sd. sd\<lparr>sd_Status := STATUS_RUNNING, sd_StartTime := t\<rparr>) r in
      save_detail E (on_out (NewStage (e_format E) (e_map_order E) (\<lambda>_. t) t
        (sd_Name (jd_Stages (r_job r1) ! i))) r1))"

definition end_stage :: "exec_env \<Rightarrow> nat \<Rightarrow> ('h, 'x) run \<Rightarrow> ('h, 'x) run" where
  "end_stage E i r =
     save_detail E (set_stage i (\<lambda>sd. sd\<lparr>
       sd_Status := (if r_err r \<noteq> None then STATUS_FAIL else STATUS_SUCCESS),
       sd_Duration := Milliseconds (w_time (r_w r) - sd_StartTime sd)\<rparr>) r)"

definition stage_steps :: "nat \<Rightarrow> ('h, 'x) run \<Rightarrow> nat list" where
  "stage_steps i r = [0..<length (stage_Steps (sd_Stage (jd_Stages (r_job r) ! i)))]"

fun stage_loop :: "exec_env \<Rightarrow> ('h, 'x) action_lib \<Rightarrow> string \<Rightarrow> nat list \<Rightarrow> ('h, 'x) run \<Rightarrow>
    ('h, 'x) run go" where
  "stage_loop E L ckey [] r = Inr r"
| "stage_loop E L ckey (i # is) r =
     then_do (step_loop E L i (stage_steps i r) (start_stage E i r)) (\<lambda>r3.
     let r5 = end_stage E i r3 in
     if r_err r5 \<noteq> None
     then Inr (r5\<lparr>r_ex := (r_ex r5)\<lparr>ex_cancelled := ex_cancelled (r_ex r5) @ [ckey]\<rparr>\<rparr>)
     else stage_loop E L ckey is r5)"

section \<open>Execute, Cancel, GetJobStatus\<close>

definition engine_context :: "exec_env \<Rightarrow> int \<Rightarrow> Job \<Rightarrow> (string, ctx_value) gomap" where
  "engine_context E jid job =
     (let root = PathJoin [e_home E, ''workdir''] in
      m_store ''userId'' (CStr (job_UserId job))
     (m_store ''parameter'' (CMap (case job_Parameter job of None \<Rightarrow> Some [] | Some p \<Rightarrow> Some p))
     (m_store ''env'' (CStrs [''PIPELINE_NAME='' @ job_Name job, ''PIPELINE_ID='' @ Itoa jid])
     (m_store ''id'' (CStr (Itoa jid))
     (m_store ''name'' (CStr (job_Name job))
     (m_store ''workdir'' (CStr (PathJoin [root, job_Name job]))
     (m_store ''hamsterRoot'' (CStr root) [])))))))"

definition new_wrapper :: "int \<Rightarrow> Job \<Rightarrow> StageDetail list \<Rightarrow> JobDetail" where
  "new_wrapper jid job stages =
     \<lparr>jd_Id = jid, jd_Job = job, jd_Status = STATUS_NOTRUN, jd_TriggerMode = [],
      jd_Stages = stages, jd_StartTime = 0, jd_Duration = 0, jd_ActionResult = empty_ActionResult,
      jd_Error = []\<rparr>"

text \<open>The deferred function: send the final status, drop the timer.\<close>

definition deferred :: "JobDetail \<Rightarrow> Executor \<Rightarrow> Executor" where
  "deferred jd ex =
     (let ex1 = ex_send (NewStatusChangeMsg (job_Name (jd_Job jd)) (jd_Id jd) (jd_Status jd)) ex in
      ex1\<lparr>ex_stepTimerMap :=
        m_delete (FormatJobToString (job_Name (jd_Job jd)) (jd_Id jd)) (ex_stepTimerMap ex1)\<rparr>)"

definition start_run :: "exec_env \<Rightarrow> int \<Rightarrow> Job \<Rightarrow> StageDetail list \<Rightarrow> Executor \<Rightarrow> 'x world \<Rightarrow>
    ('h, 'x) run" where
  "start_run E jid job stages ex w =
     (let ctx = engine_context E jid job;
          workdir = PathJoin [PathJoin [e_home E, ''workdir''], job_Name job];
          ckey = cancel_key (job_Name job) jid in
      case MkdirAll (path_of workdir) (w_fs w) of (err, fs1) \<Rightarrow>
      (case NewOutput (e_format E) (e_cfg E) (w_time w) (job_Name job) jid fs1 of (out, fs2) \<Rightarrow>
        \<lparr>r_ex = ex\<lparr>ex_cancelMap := m_store ckey ckey (ex_cancelMap ex)\<rparr>,
         r_job = (new_wrapper jid job stages)\<lparr>jd_Status := STATUS_RUNNING, jd_StartTime := w_time w\<rparr>,
         r_stack = [], r_err = go_err err,
         r_w = w\<lparr>w_ctx := ctx, w_fs := fs2, w_out := out\<rparr>\<rparr>))"

definition finish_run :: "exec_env \<Rightarrow> string \<Rightarrow> ('h, 'x) run \<Rightarrow> ('h, 'x) run" where
  "finish_run E name r =
     (case Done (e_format E) (e_map_order E) (w_time (r_w r)) (w_out (r_w r)) (w_fs (r_w r)) of (out, fs1) \<Rightarrow>
      let ex1 = (r_ex r)\<lparr>ex_cancelMap := m_delete name (ex_cancelMap (r_ex r))\<rparr>;
          jd1 = (case r_err r of
                   None \<Rightarrow> (r_job r)\<lparr>jd_Status := STATUS_SUCCESS\<rparr>
                 | Some e \<Rightarrow> (r_job r)\<lparr>jd_Status := STATUS_FAIL, jd_Error := e\<rparr>);
          jd2 = jd1\<lparr>jd_Duration := Milliseconds (w_time (r_w r) - jd_StartTime jd1)\<rparr> in
      save_detail E (r\<lparr>r_ex := ex1, r_job := jd2, r_w := (r_w r)\<lparr>w_out := out, w_fs := fs1\<rparr>\<rparr>))"

definition Execute :: "exec_env \<Rightarrow> ('h, 'x) action_lib \<Rightarrow> int \<Rightarrow> Job \<Rightarrow> Executor \<Rightarrow> 'x world \<Rightarrow>
    (error option \<times> JobDetail \<times> Executor \<times> 'x world) go" where
  "Execute E L jid job ex w =
     (case StageSort (e_stage_order E) job of
        Inl e \<Rightarrow> (let jd = new_wrapper jid job [] in Inr (Some e, jd, deferred jd ex, w))
      | Inr stages \<Rightarrow>
          then_do (stage_loop E L (cancel_key (job_Name job) jid) [0..<length stages]
                     (start_run E jid job stages ex w)) (\<lambda>r.
          let r' = finish_run E (job_Name job) r in
          Inr (r_err r', r_job r', deferred (r_job r') (r_ex r'), r_w r')))"

definition Cancel :: "string \<Rightarrow> int \<Rightarrow> Executor \<Rightarrow> Executor" where
  "Cancel jobName jid ex =
     (let key = cancel_key jobName jid;
          ex1 = (case m_load (ex_cancelMap ex) key of
                   Some c \<Rightarrow> ex\<lparr>ex_cancelled := ex_cancelled ex @ [c],
                               ex_cancelMap := m_delete key (ex_cancelMap ex)\<rparr>
                 | None \<Rightarrow> ex) in
      ex_send (NewStatusChangeMsg jobName jid STATUS_STOP) ex1)"

definition Executor_GetJobStatus :: "string \<Rightarrow> int \<Rightarrow> Executor \<Rightarrow> Status \<times> error option" where
  "Executor_GetJobStatus jobName jid ex =
     (case m_load (ex_cancelMap ex) (cancel_key jobName jid) of
        Some c \<Rightarrow> (STATUS_RUNNING, None)
      | None \<Rightarrow> (STATUS_NOTRUN, Some ''job not found''))"

text \<open>One scan of \<open>handleTimerListener\<close>: a step may take thirty minutes.\<close>

definition isTimeout :: "time \<Rightarrow> time \<Rightarrow> bool" where
  "isTimeout now startTime \<longleftrightarrow> now - startTime > 30 * 60 * 1000000000"

fun timer_scan :: "time \<Rightarrow> string list \<Rightarrow> Executor \<Rightarrow> Executor" where
  "timer_scan now [] ex = ex"
| "timer_scan now (key # keys) ex =
     (case m_load (ex_stepTimerMap ex) key of
        None \<Rightarrow> timer_scan now keys ex
      | Some startTime \<Rightarrow>
          if isTimeout now startTime then
            (case GetJobNameAndIDFromFormatString key of
               Inl e \<Rightarrow> timer_scan now keys ex
             | Inr (name, jid) \<Rightarrow>
                 (let ex1 = Cancel name jid ex in
                  timer_scan now keys
                    (ex1\<lparr>ex_stepTimerMap := m_delete key (ex_stepTimerMap ex1)\<rparr>)))
          else timer_scan now keys ex)"

section \<open>The queue (executor/client.go)\<close>

definition NewExecutor :: Executor where
  "NewExecutor = \<lparr>ex_cancelMap = [], ex_cancelled = [], ex_StatusChan = [], ex_stepTimerMap = []\<rparr>"

text \<open>One message of \<open>handleJobQueue\<close>; the goroutine of a started job is run to its end.\<close>

definition handle_queue_message :: "exec_env \<Rightarrow> ('h, 'x) action_lib \<Rightarrow> QueueMessage \<Rightarrow>
    Executor \<times> 'x world \<Rightarrow> (Executor \<times> 'x world) go" where
  "handle_queue_message E L msg st =
     (case st of (ex, w) \<Rightarrow>
      if qm_Command msg = Command_Stop then Inr (Cancel (qm_JobName msg) (qm_JobId msg) ex, w)
      else (case SaveJob (e_cfg E) (qm_JobName msg) (qm_JobContent msg) (w_fs w) of
          (Some e, fs1) \<Rightarrow> Inr (ex, w\<lparr>w_fs := fs1\<rparr>)
        | (None, fs1) \<Rightarrow>
            (let w1 = w\<lparr>w_fs := fs1\<rparr> in
             case GetJobObject (e_yaml E) (e_cfg E) (qm_JobName msg) fs1 of
               Inl e \<Rightarrow> Inr (ex, w1)
             | Inr job \<Rightarrow>
                 then_do (Execute E L (qm_JobId msg) job ex w1) (\<lambda>(err, jd, ex2, w2).
                   Inr (if err \<noteq> None
                        then ex_send (NewStatusChangeMsg (qm_JobName msg) (qm_JobId msg) STATUS_FAIL) ex2
                        else ex2, w2)))))"

section \<open>What a run leaves alone\<close>

definition frame :: "('h, 'x) run \<Rightarrow> ('h, 'x) run \<Rightarrow> bool" where
  "frame r r' \<longleftrightarrow>
     ex_StatusChan (r_ex r') = ex_StatusChan (r_ex r) \<and> ex_cancelMap (r_ex r') = ex_cancelMap (r_ex r) \<and>
     job_Name (jd_Job (r_job r')) = job_Name (jd_Job (r_job r)) \<and> jd_Id (r_job r') = jd_Id (r_job r)"

lemma frame_refl [simp]: "frame r r"
  by (simp add: frame_def)

lemma frame_trans: "frame a b \<Longrightarrow> frame b c \<Longrightarrow> frame a c"
  by (simp add: frame_def)

lemma save_detail_simps [simp]:
  "r_ex (save_detail E r) = r_ex r" "r_stack (save_detail E r) = r_stack r"
  "r_err (save_detail E r) = r_err r" "jd_Job (r_job (save_detail E r)) = jd_Job (r_job r)"
  "jd_Id (r_job (save_detail E r)) = jd_Id (r_job r)"
  "jd_Status (r_job (save_detail E r)) = jd_Status (r_job r)"
  "jd_Stages (r_job (save_detail E r)) = jd_Stages (r_job r)"
  "w_time (r_w (save_detail E r)) = w_time (r_w r)"
  by (simp_all add: save_detail_def SaveJobDetail_def Let_def split: prod.splits sum.splits)

lemma set_step_simps [simp]:
  "r_ex (set_step i j f r) = r_ex r" "r_stack (set_step i j f r) = r_stack r"
  "r_err (set_step i j f r) = r_err r" "r_w (set_step i j f r) = r_w r"
  "jd_Status (r_job (set_step i j f r)) = jd_Status (r_job r)"
  "jd_Id (r_job (set_step i j f r)) = jd_Id (r_job r)"
  "job_Name (jd_Job (r_job (set_step i j f r))) = job_Name (jd_Job (r_job r))"
  by (simp_all add: set_step_def Let_def split: option.split)

lemma set_stage_simps [simp]:
  "r_ex (set_stage i g r) = r_ex r" "r_stack (set_stage i g r) = r_stack r"
  "r_err (set_stage i g r) = r_err r" "r_w (set_stage i g r) = r_w r"
  "jd_Status (r_job (set_stage i g r)) = jd_Status (r_job r)"
  "jd_Id (r_job (set_stage i g r)) = jd_Id (r_job r)"
  "jd_Job (r_job (set_stage i g r)) = jd_Job (r_job r)"
  by (simp_all add: set_stage_def)

lemma on_out_simps [simp]:
  "r_ex (on_out f r) = r_ex r" "r_stack (on_out f r) = r_stack r" "r_err (on_out f r) = r_err r"
  "r_job (on_out f r) = r_job r" "w_time (r_w (on_out f r)) = w_time (r_w r)"
  by (simp_all add: on_out_def)

lemma add_result_simps [simp]:
  "jd_Job (add_result res jd) = jd_Job jd" "jd_Id (add_result res jd) = jd_Id jd"
  "jd_Status (add_result res jd) = jd_Status jd" "jd_Stages (add_result res jd) = jd_Stages jd"
  by (simp_all add: add_result_def Let_def split: option.split)

lemma executeAction_frame: "frame r (executeAction L ah r)"
  by (simp add: executeAction_def frame_def set_status_def Let_def
      split: option.split outcome.split prod.split)

lemma new_action_eq: "new_action L k step r = Inr (h, r') \<Longrightarrow> \<exists>w. r' = r\<lparr>r_w := w\<rparr>"
  by (auto simp: new_action_def split: prod.splits sum.splits)

lemma start_step_frame: "frame r (start_step E i j r)"
  by (simp add: start_step_def frame_def Let_def)

lemma end_step_frame: "frame r (end_step E i j w r)"
  by (simp add: end_step_def frame_def Let_def)

lemma choose_action_eq:
  "choose_action L step env r = Inr (ah, r') \<Longrightarrow> \<exists>w. r' = r\<lparr>r_w := w\<rparr>"
  by (auto simp: choose_action_def then_do_Inr_iff split: option.splits dest!: new_action_eq)
    (metis run.surjective run.update_convs(5))

lemma run_action_cases:
  assumes "run_action E L i j step env r = Inr r'"
  obtains ah r3 w where "choose_action L step env (start_step E i j r) = Inr (ah, r3)"
    and "r' = end_step E i j w (set_step i j (\<lambda>s. s\<lparr>step_Duration := Milliseconds
       (w_time (r_w (executeAction L ah (on_out (NewStep (step_Name step)) r3))) - step_StartTime s)\<rparr>)
       (executeAction L ah (on_out (NewStep (step_Name step)) r3)))"
  using assms by (auto simp: run_action_def Let_def then_do_Inr_iff)

lemma run_action_frame: "run_action E L i j step env r = Inr r' \<Longrightarrow> frame r r'"
proof (elim run_action_cases)
  fix ah r3 w
  assume c: "choose_action L step env (start_step E i j r) = Inr (ah, r3)"
    and r': "r' = end_step E i j w (set_step i j (\<lambda>s. s\<lparr>step_Duration := Milliseconds
       (w_time (r_w (executeAction L ah (on_out (NewStep (step_Name step)) r3))) - step_StartTime s)\<rparr>)
       (executeAction L ah (on_out (NewStep (step_Name step)) r3)))"
  let ?r4 = "executeAction L ah (on_out (NewStep (step_Name step)) r3)"
  have "frame (start_step E i j r) r3" using choose_action_eq [OF c] by (auto simp: frame_def)
  moreover have "frame r3 ?r4"
    using executeAction_frame [of "on_out (NewStep (step_Name step)) r3" L ah] by (simp add: frame_def)
  moreover have "frame ?r4 r'" unfolding r' by (simp add: frame_def end_step_def Let_def)
  ultimately show ?thesis using start_step_frame [of r E i j] by (simp add: frame_def)
qed

lemma step_loop_frame: "step_loop E L i js r = Inr r' \<Longrightarrow> frame r r'"
proof (induction js arbitrary: r)
  case (Cons j js)
  show ?case
  proof (cases "step_RunsOn (the_step i j r) = []")
    case True
    with Cons.prems obtain r1 where "run_action E L i j (the_step i j r) None r = Inr r1"
      "step_loop E L i js r1 = Inr r'" by (auto simp: Let_def then_do_Inr_iff)
    then show ?thesis using Cons.IH run_action_frame frame_trans by blast
  next
    case False
    with Cons.prems obtain d r1 where n: "new_action L K_Docker (the_step i j r) r = Inr (d, r1)"
      and rest: "(let r2 = executeAction L (Some d) r1 in if r_err r2 \<noteq> None then Inr r2
          else then_do (run_action E L i j (the_step i j r) (Some d) r2) (step_loop E L i js)) = Inr r'"
      by (auto simp: Let_def then_do_Inr_iff)
    have "frame r r1" using new_action_eq [OF n] by (auto simp: frame_def)
    then have f2: "frame r (executeAction L (Some d) r1)" using executeAction_frame frame_trans by blast
    show ?thesis
    proof (cases "r_err (executeAction L (Some d) r1) = None")
      case True
      then obtain r3 where "run_action E L i j (the_step i j r) (Some d) (executeAction L (Some d) r1) = Inr r3"
        "step_loop E L i js r3 = Inr r'" using rest by (auto simp: Let_def then_do_Inr_iff)
      then show ?thesis using frame_trans [OF f2 frame_trans [OF run_action_frame Cons.IH]] by simp
    qed (use rest f2 in \<open>simp add: Let_def\<close>)
  qed
qed simp

lemma stage_frames: "frame r (start_stage E i r)" "frame r (end_stage E i r)"
  by (simp_all add: start_stage_def end_stage_def frame_def Let_def)

lemma end_stage_err [simp]: "r_err (end_stage E i r) = r_err r"
  by (simp add: end_stage_def)

lemma stage_loop_frame: "stage_loop E L ckey is r = Inr r' \<Longrightarrow> frame r r'"
proof (induction "is" arbitrary: r)
  case (Cons i "is")
  from Cons.prems obtain r3 where 3: "step_loop E L i (stage_steps i r) (start_stage E i r) = Inr r3"
    and rest: "r' = (end_stage E i r3)\<lparr>r_ex := (r_ex (end_stage E i r3))
        \<lparr>ex_cancelled := ex_cancelled (r_ex (end_stage E i r3)) @ [ckey]\<rparr>\<rparr> \<or>
      stage_loop E L ckey is (end_stage E i r3) = Inr r'"
    by (auto simp: Let_def then_do_Inr_iff split: if_splits)
  have "frame r (end_stage E i r3)"
    using frame_trans [OF stage_frames(1) frame_trans [OF step_loop_frame [OF 3] stage_frames(2)]] .
  moreover have "frame (end_stage E i r3) r'" using rest Cons.IH by (auto simp: frame_def)
  ultimately show ?case by (rule frame_trans)
qed simp

section \<open>After a failure\<close>

text \<open>Constructors and \<open>Post\<close> methods that do not panic.\<close>

definition lib_total :: "('h, 'x) action_lib \<Rightarrow> bool" where
  "lib_total L \<longleftrightarrow> (\<forall>k s w. \<exists>h w'. al_New L k s w = (Inr h, w')) \<and>
     (\<forall>h w. \<exists>w'. al_Post L h w = (Returns (), w'))"

text \<open>Two libraries that differ in their \<open>Pre\<close> and \<open>Hook\<close> methods at most.\<close>

definition same_but_run :: "('h, 'x) action_lib \<Rightarrow> ('h, 'x) action_lib \<Rightarrow> bool" where
  "same_but_run L L' \<longleftrightarrow> al_New L' = al_New L \<and> al_Post L' = al_Post L"

abbreviation statuses :: "nat \<Rightarrow> ('h, 'x) run \<Rightarrow> Status list" where
  "statuses i r \<equiv> map step_Status (stage_Steps (sd_Stage (jd_Stages (r_job r) ! i)))"

lemma executeAction_idle:
  "jd_Status (r_job r) \<noteq> STATUS_RUNNING \<Longrightarrow> executeAction L ah r = r\<lparr>r_err := None\<rparr>"
  by (simp add: executeAction_def)

lemma drain_Nil [simp]: "drain L [] w = Inr w"
  by (simp add: drain.simps [of L "[]"] Stack_IsEmpty_def)

lemma drain_snoc:
  "drain L (s @ [h]) w = (case al_Post L h w of
     (Returns u, w') \<Rightarrow> drain L s w' | (RuntimePanic m, w') \<Rightarrow> Inl (PanicMsg m)
   | (OtherPanic, w') \<Rightarrow> Inl (PanicMsg []))"
  by (simp add: drain.simps [of L "s @ [h]"] Stack_IsEmpty_def Stack_Pop_def)

lemma drain_same: "al_Post L' = al_Post L \<Longrightarrow> drain L' s w = drain L s w"
  by (induction s arbitrary: w rule: rev_induct) (simp_all add: drain_snoc split: prod.split outcome.split)

lemma drain_total: "lib_total L \<Longrightarrow> \<exists>w'. drain L s w = Inr w'"
proof (induction s arbitrary: w rule: rev_induct)
  case (snoc h s)
  obtain w1 where "al_Post L h w = (Returns (), w1)" using snoc.prems by (auto simp: lib_total_def) metis
  then show ?case using snoc by (simp add: drain_snoc)
qed simp

lemma new_action_total: "lib_total L \<Longrightarrow> \<exists>h w. new_action L k st r = Inr (h, r\<lparr>r_w := w\<rparr>)"
proof -
  assume "lib_total L"
  then obtain h w where "al_New L k st (r_w r) = (Inr h, w)" unfolding lib_total_def by metis
  then show ?thesis by (auto simp: new_action_def)
qed

lemma choose_action_total:
  assumes "lib_total L" shows "\<exists>ah w. choose_action L st env r = Inr (ah, r\<lparr>r_w := w\<rparr>)"
proof (cases "action_kind (step_Uses st)")
  case None
  then show ?thesis by (simp add: choose_action_def) (metis run.surjective run.update_convs(5))
next
  case (Some k)
  then show ?thesis using new_action_total [OF assms, of k st r] by (auto simp: choose_action_def)
qed

lemma length_set_step [simp]: "length (jd_Stages (r_job (set_step i j f r))) = length (jd_Stages (r_job r))"
  by (simp add: set_step_def Let_def split: option.split)

lemma statuses_set_step:
  "i < length (jd_Stages (r_job r)) \<Longrightarrow>
     statuses i (set_step i j f r) = (statuses i r)[j := step_Status (f (the_step i j r))]"
  by (simp add: set_step_def map_step_def Let_def the_step_def map_update split: option.split)

lemma statuses_set_step_keep:
  assumes "i < length (jd_Stages (r_job r))" and "\<And>s. step_Status (f s) = step_Status s"
  shows "statuses i (set_step i j f r) = statuses i r"
proof (cases "j < length (statuses i r)")
  case True
  then have "step_Status (f (the_step i j r)) = statuses i r ! j" by (simp add: the_step_def assms(2))
  then show ?thesis by (simp only: statuses_set_step [OF assms(1)] list_update_id)
qed (simp add: statuses_set_step [OF assms(1)] list_update_beyond)

text \<open>One step when the job is no longer running: no action is called, the step succeeds.\<close>

lemma idle_step:
  assumes "lib_total L" and "same_but_run L L'" and "jd_Status (r_job r) \<noteq> STATUS_RUNNING"
    and "i < length (jd_Stages (r_job r))"
  shows "run_action E L' i j st env r = run_action E L i j st env r \<and>
    (\<exists>r'. run_action E L i j st env r = Inr r' \<and> r_err r' = None \<and> r_stack r' = [] \<and>
      jd_Status (r_job r') = jd_Status (r_job r) \<and>
      length (jd_Stages (r_job r')) = length (jd_Stages (r_job r)) \<and>
      statuses i r' = (statuses i r)[j := STATUS_SUCCESS])"
proof -
  have new: "choose_action L' = choose_action L" "drain L' = drain L"
    using assms(2) drain_same [of L' L]
    by (auto intro!: ext simp: same_but_run_def choose_action_def new_action_def split: option.split)
  obtain ah w where c: "choose_action L st env (start_step E i j r) = Inr (ah, (start_step E i j r)\<lparr>r_w := w\<rparr>)"
    using choose_action_total [OF assms(1)] by blast
  let ?r3 = "on_out (NewStep (step_Name st)) ((start_step E i j r)\<lparr>r_w := w\<rparr>)"
  have st3: "jd_Status (r_job ?r3) = jd_Status (r_job r)"
    "length (jd_Stages (r_job ?r3)) = length (jd_Stages (r_job r))"
    "statuses i ?r3 = (statuses i r)[j := STATUS_RUNNING]"
    using statuses_set_step [OF assms(4)] by (simp_all add: start_step_def Let_def)
  have ex: "executeAction M ah ?r3 = ?r3\<lparr>r_err := None\<rparr>" for M :: "('a, 'b) action_lib"
    using executeAction_idle [of ?r3 M ah] st3(1) assms(3) by simp
  let ?r5 = "set_step i j (\<lambda>s. s\<lparr>step_Duration := Milliseconds (w_time (r_w (?r3\<lparr>r_err := None\<rparr>)) -
       step_StartTime s)\<rparr>) (?r3\<lparr>r_err := None\<rparr>)"
  obtain w' where d: "drain L (r_stack ?r5) (r_w ?r5) = Inr w'" using drain_total [OF assms(1)] by blast
  have run: "run_action E M i j st env r = Inr (end_step E i j w' ?r5)" if "M = L \<or> M = L'" for M
    using that c d new ex [of M] by (auto simp: run_action_def Let_def)
  have s5: "statuses i ?r5 = (statuses i r)[j := STATUS_RUNNING]" "length (jd_Stages (r_job ?r5)) = length (jd_Stages (r_job r))"
  proof -
    have "i < length (jd_Stages (r_job (?r3\<lparr>r_err := None\<rparr>)))" using st3(2) assms(4) by simp
    from statuses_set_step_keep [OF this] st3(3)
    show "statuses i ?r5 = (statuses i r)[j := STATUS_RUNNING]" by simp
  qed (use st3(2) in simp)
  have "statuses i (end_step E i j w' ?r5) = (statuses i r)[j := STATUS_SUCCESS]"
    using s5 assms(4) statuses_set_step [of i "?r5\<lparr>r_stack := [], r_w := w'\<rparr>" j]
    by (simp add: end_step_def Let_def)
  then show ?thesis
    using run [of L] run [of L'] st3 s5 by (simp add: end_step_def Let_def)
qed

lemma idle_steps:
  assumes "lib_total L" and "same_but_run L L'"
  shows "jd_Status (r_job r) \<noteq> STATUS_RUNNING \<Longrightarrow> i < length (jd_Stages (r_job r)) \<Longrightarrow>
    step_loop E L' i js r = step_loop E L i js r \<and>
    (\<exists>r'. step_loop E L i js r = Inr r' \<and> (js \<noteq> [] \<longrightarrow> r_err r' = None \<and> r_stack r' = []) \<and>
       jd_Status (r_job r') = jd_Status (r_job r) \<and>
       length (jd_Stages (r_job r')) = length (jd_Stages (r_job r)) \<and>
       statuses i r' = fold (\<lambda>j st. st[j := STATUS_SUCCESS]) js (statuses i r))"
proof (induction js arbitrary: r)
  case (Cons j js)
  define st where "st = the_step i j r"
  obtain d w where n: "new_action L K_Docker st r = Inr (d, r\<lparr>r_w := w\<rparr>)"
    using new_action_total [OF assms(1)] by blast
  have n': "new_action L' K_Docker st r = Inr (d, r\<lparr>r_w := w\<rparr>)"
    using n assms(2) by (simp add: new_action_def same_but_run_def)
  define r1 where "r1 = (if step_RunsOn st = [] then r else r\<lparr>r_w := w, r_err := None\<rparr>)"
  define env where "env = (if step_RunsOn st = [] then None else Some d)"
  have r1: "jd_Status (r_job r1) = jd_Status (r_job r)" "jd_Stages (r_job r1) = jd_Stages (r_job r)"
    by (simp_all add: r1_def)
  have unf: "step_loop E M i (j # js) r = then_do (run_action E M i j st env r1) (step_loop E M i js)"
    if "M = L \<or> M = L'" for M
    using that n n' Cons.prems(1) executeAction_idle [of "r\<lparr>r_w := w\<rparr>" M "Some d"]
    by (auto simp: st_def [symmetric] r1_def env_def Let_def)
  from idle_step [OF assms, of r1 i E j st env] r1 Cons.prems obtain r2 where
    same: "run_action E L' i j st env r1 = run_action E L i j st env r1" and
    2: "run_action E L i j st env r1 = Inr r2" "r_err r2 = None" "r_stack r2 = []"
      "jd_Status (r_job r2) = jd_Status (r_job r)" "length (jd_Stages (r_job r2)) = length (jd_Stages (r_job r))"
      "statuses i r2 = (statuses i r)[j := STATUS_SUCCESS]" by auto
  from Cons.IH [of r2] 2 Cons.prems obtain r3 where
    3: "step_loop E L' i js r2 = step_loop E L i js r2" "step_loop E L i js r2 = Inr r3"
      "js \<noteq> [] \<longrightarrow> r_err r3 = None \<and> r_stack r3 = []" "jd_Status (r_job r3) = jd_Status (r_job r)"
      "length (jd_Stages (r_job r3)) = length (jd_Stages (r_job r))"
      "statuses i r3 = fold (\<lambda>j st. st[j := STATUS_SUCCESS]) js (statuses i r2)" by auto
  have "r_err r3 = None \<and> r_stack r3 = []" using 2 3 by (cases js) auto
  then show ?case using unf [of L] unf [of L'] same 2 3 by simp
qed simp

lemma fold_success:
  "length (fold (\<lambda>j st. st[j := STATUS_SUCCESS]) js sts) = length sts"
  "j < length sts \<Longrightarrow> fold (\<lambda>j st. st[j := STATUS_SUCCESS]) js sts ! j =
     (if j \<in> set js then STATUS_SUCCESS else sts ! j)"
  by (induction js arbitrary: sts) (auto simp: nth_list_update)


definition demo_step :: "string \<Rightarrow> Step" where
  "demo_step n = \<lparr>step_Name = n, step_Id = [], step_Uses = [], step_With = [], step_RunsOn = [],
     step_Volumes = [], step_Run = ''true'', step_Status = STATUS_NOTRUN, step_StartTime = 0,
     step_Duration = 0\<rparr>"

text \<open>Actions that always fail in \<open>Pre\<close>.\<close>

definition demo_lib :: "(string, unit) action_lib" where
  "demo_lib = \<lparr>al_New = (\<lambda>k st w. (Inr (step_Name st), w)),
     al_Pre = (\<lambda>h w. (Returns (Some ''boom''), w)),
     al_Hook = (\<lambda>h w. (Returns (None, None), w)), al_Post = (\<lambda>h w. (Returns (), w))\<rparr>"

definition demo_env :: exec_env where
  "demo_env = \<lparr>e_yaml = demo_yaml, e_format = demo_format, e_cfg = ''/p'', e_home = ''/h'',
     e_stage_order = (\<lambda>i ks. ks), e_map_order = (\<lambda>ks. ks)\<rparr>"

definition demo_world :: "unit world" where
  "demo_world = \<lparr>w_fs = demo_fs, w_out = fst demo_out, w_ctx = [], w_time = 1, w_ext = ()\<rparr>"

definition two_steps :: Job where
  "two_steps = demo_job\<lparr>job_Name := ''j'', job_Stages := [(''s'', \<lparr>stage_Steps = [demo_step ''a'', demo_step ''b''],
     stage_Needs = []\<rparr>)]\<rparr>"

lemma demo_lib_total: "lib_total demo_lib"
  by (simp add: lib_total_def demo_lib_def)

lemma two_steps_sorted:
  "StageSort (e_stage_order demo_env) two_steps =
     Inr [NewStageDetail ''s'' \<lparr>stage_Steps = [demo_step ''a'', demo_step ''b''], stage_Needs = []\<rparr>]"
  by (simp add: StageSort_def two_steps_def sort_loop.simps demo_env_def m_keys_def m_load_def m_delete_def)

definition demo_failed :: "(string, unit) run" where
  "demo_failed = \<lparr>r_ex = NewExecutor,
     r_job = (new_wrapper 1 two_steps [NewStageDetail ''s'' \<lparr>stage_Steps = [demo_step ''a'', demo_step ''b''],
       stage_Needs = []\<rparr>])\<lparr>jd_Status := STATUS_FAIL\<rparr>,
     r_stack = [], r_err = Some ''boom'', r_w = demo_world\<rparr>"


text \<open>A first step whose action fails in \<open>Pre\<close>.\<close>

lemma failing_step:
  assumes "lib_total L" and "action_kind (step_Uses st) = Some k"
    and "\<And>h w. \<exists>w'. al_Pre L h w = (Returns (Some e), w')" and "jd_Status (r_job r) = STATUS_RUNNING"
  shows "\<exists>r'. run_action E L i j st env r = Inr r' \<and> r_err r' = Some e \<and>
    jd_Status (r_job r') = STATUS_FAIL \<and> length (jd_Stages (r_job r')) = length (jd_Stages (r_job r))"
proof -
  obtain h w where "new_action L k st (start_step E i j r) = Inr (h, (start_step E i j r)\<lparr>r_w := w\<rparr>)"
    using new_action_total [OF assms(1)] by blast
  then have c: "choose_action L st env (start_step E i j r) = Inr (Some h, (start_step E i j r)\<lparr>r_w := w\<rparr>)"
    using assms(2) by (simp add: choose_action_def)
  let ?r3 = "on_out (NewStep (step_Name st)) ((start_step E i j r)\<lparr>r_w := w\<rparr>)"
  have run3: "jd_Status (r_job ?r3) = STATUS_RUNNING"
    "length (jd_Stages (r_job ?r3)) = length (jd_Stages (r_job r))"
    using assms(4) by (simp_all add: start_step_def Let_def)
  obtain w' where "al_Pre L h (r_w ?r3) = (Returns (Some e), w')" using assms(3) by blast
  then have ex: "executeAction L (Some h) ?r3 = set_status STATUS_FAIL (?r3\<lparr>r_err := Some e, r_w := w'\<rparr>)"
    using run3 by (simp add: executeAction_def)
  define r4 where "r4 = set_status STATUS_FAIL (?r3\<lparr>r_err := Some e, r_w := w'\<rparr>)"
  have r4: "r_err r4 = Some e" "jd_Status (r_job r4) = STATUS_FAIL"
    "length (jd_Stages (r_job r4)) = length (jd_Stages (r_job r))"
    using run3 by (simp_all add: r4_def set_status_def)
  let ?r5 = "set_step i j (\<lambda>s. s\<lparr>step_Duration := Milliseconds (w_time (r_w r4) - step_StartTime s)\<rparr>) r4"
  obtain w5 where "drain L (r_stack ?r5) (r_w ?r5) = Inr w5" using drain_total [OF assms(1)] by blast
  then have "run_action E L i j st env r = Inr (end_step E i j w5 ?r5)"
    using c ex by (simp add: run_action_def Let_def r4_def [symmetric])
  moreover have "r_err (end_step E i j w5 ?r5) = Some e" "jd_Status (r_job (end_step E i j w5 ?r5)) = STATUS_FAIL"
    "length (jd_Stages (r_job (end_step E i j w5 ?r5))) = length (jd_Stages (r_job r))"
    using r4 by (simp_all add: end_step_def Let_def)
  ultimately show ?thesis by blast
qed

lemma start_run_simps [simp]:
  "jd_Status (r_job (start_run E jid job stages ex w)) = STATUS_RUNNING"
  "jd_Stages (r_job (start_run E jid job stages ex w)) = stages"
  "jd_Job (r_job (start_run E jid job stages ex w)) = job"
  "jd_Id (r_job (start_run E jid job stages ex w)) = jid"
  "ex_StatusChan (r_ex (start_run E jid job stages ex w)) = ex_StatusChan ex"
  "ex_cancelMap (r_ex (start_run E jid job stages ex w)) =
     m_store (cancel_key (job_Name job) jid) (cancel_key (job_Name job) jid) (ex_cancelMap ex)"
  by (simp_all add: start_run_def Let_def new_wrapper_def split: prod.split)

lemma start_stage_simps [simp]:
  "jd_Status (r_job (start_stage E i r)) = jd_Status (r_job r)"
  "length (jd_Stages (r_job (start_stage E i r))) = length (jd_Stages (r_job r))"
  "i < length (jd_Stages (r_job r)) \<Longrightarrow>
     sd_Stage (jd_Stages (r_job (start_stage E i r)) ! i) = sd_Stage (jd_Stages (r_job r) ! i)"
  by (simp_all add: start_stage_def Let_def set_stage_def)

lemma finish_run_simps [simp]:
  "r_err (finish_run E n r) = r_err r"
  "jd_Status (r_job (finish_run E n r)) = (if r_err r = None then STATUS_SUCCESS else STATUS_FAIL)"
  "jd_Id (r_job (finish_run E n r)) = jd_Id (r_job r)"
  "jd_Job (r_job (finish_run E n r)) = jd_Job (r_job r)"
  "ex_StatusChan (r_ex (finish_run E n r)) = ex_StatusChan (r_ex r)"
  "ex_cancelMap (r_ex (finish_run E n r)) = m_delete n (ex_cancelMap (r_ex r))"
  by (simp_all add: finish_run_def Let_def split: prod.split option.split)

lemma masked_run:
  fixes L :: "('h, 'x) action_lib"
  assumes "lib_total L" and "StageSort (e_stage_order E) job = Inr [sd]"
    and "stage_Steps (sd_Stage sd) = st # st' # sts" and "step_RunsOn st = []"
    and "action_kind (step_Uses st) = Some k"
    and "\<And>h w. \<exists>w'. al_Pre L h w = (Returns (Some e), w')"
  shows "\<exists>jd ex' w'. Execute E L jid job ex w = Inr (None, jd, ex', w') \<and> jd_Status jd = STATUS_SUCCESS"
proof -
  let ?r0 = "start_run E jid job [sd] ex w :: ('h, 'x) run"
  let ?s = "start_stage E 0 ?r0"
  have steps: "stage_steps 0 ?r0 = 0 # [1..<length (st # st' # sts)]"
    using assms(3) by (simp add: stage_steps_def upt_conv_Cons del: upt_Suc)
  have st0: "the_step 0 0 ?s = st" using assms(3) by (simp add: the_step_def)
  obtain r1 where r1: "run_action E L 0 0 st None ?s = Inr r1" "jd_Status (r_job r1) = STATUS_FAIL"
    "length (jd_Stages (r_job r1)) = 1"
    using failing_step [OF assms(1,5,6), of ?s E 0 0 None] by auto
  have "jd_Status (r_job r1) \<noteq> STATUS_RUNNING" using r1 by simp
  from idle_steps [OF assms(1) _ this, of L 0 E "[1..<length (st # st' # sts)]"] r1(3)
  obtain r2 where r2: "step_loop E L 0 [1..<length (st # st' # sts)] r1 = Inr r2" "r_err r2 = None"
    by (auto simp: same_but_run_def)
  have "step_loop E L 0 (stage_steps 0 ?r0) ?s = Inr r2"
    unfolding steps step_loop.simps Let_def st0 using assms(4) r1(1) r2(1) by simp
  then have "stage_loop E L (cancel_key (job_Name job) jid) [0] ?r0 = Inr (end_stage E 0 r2)"
    using r2(2) by (simp add: Let_def)
  then show ?thesis using assms(2) r2(2) by (simp add: Execute_def Let_def)
qed



section \<open>What an execution reports\<close>

lemma Execute_frame:
  fixes L :: "('h, 'x) action_lib"
  assumes "StageSort (e_stage_order E) job = Inr stages"
    and "Execute E L jid job ex w = Inr (err, jd, ex', w')"
  obtains r :: "('h, 'x) run" where "frame (start_run E jid job stages ex w) r" and "err = r_err r"
    and "jd = r_job (finish_run E (job_Name job) r)" and "ex' = deferred jd (r_ex (finish_run E (job_Name job) r))"
  using assms by (auto simp: Execute_def Let_def then_do_Inr_iff dest: stage_loop_frame)

lemma deferred_simps [simp]:
  "ex_StatusChan (deferred jd ex) =
     ex_StatusChan ex @ [NewStatusChangeMsg (job_Name (jd_Job jd)) (jd_Id jd) (jd_Status jd)]"
  "ex_cancelMap (deferred jd ex) = ex_cancelMap ex"
  "m_load (ex_stepTimerMap (deferred jd ex)) (FormatJobToString (job_Name (jd_Job jd)) (jd_Id jd)) = None"
  by (simp_all add: deferred_def ex_send_def Let_def)

lemma new_wrapper_simps [simp]:
  "jd_Job (new_wrapper jid job st) = job" "jd_Id (new_wrapper jid job st) = jid"
  "jd_Status (new_wrapper jid job st) = STATUS_NOTRUN" "jd_Stages (new_wrapper jid job st) = st"
  by (simp_all add: new_wrapper_def)

lemma Execute_reports:
  fixes L :: "('h, 'x) action_lib"
  assumes "Execute E L jid job ex w = Inr (err, jd, ex', w')"
  shows "ex_StatusChan ex' = ex_StatusChan ex @ [NewStatusChangeMsg (job_Name job) jid
      (case StageSort (e_stage_order E) job of
         Inl e \<Rightarrow> STATUS_NOTRUN
       | Inr stages \<Rightarrow> if err = None then STATUS_SUCCESS else STATUS_FAIL)] \<and>
    m_load (ex_stepTimerMap ex') (FormatJobToString (job_Name job) jid) = None"
proof (cases "StageSort (e_stage_order E) job")
  case (Inl e)
  with assms show ?thesis
    using deferred_simps(3) [of "new_wrapper jid job []" ex, unfolded new_wrapper_simps] by (auto simp: Execute_def Let_def)
next
  case (Inr stages)
  obtain r :: "('h, 'x) run" where r: "frame (start_run E jid job stages ex w) r"
    "err = r_err r" "jd = r_job (finish_run E (job_Name job) r)"
    "ex' = deferred jd (r_ex (finish_run E (job_Name job) r))"
    by (rule Execute_frame [OF Inr assms])
  have "job_Name (jd_Job jd) = job_Name job" "jd_Id jd = jid"
    "ex_StatusChan (r_ex r) = ex_StatusChan ex"
    using r(1,3) by (simp_all add: frame_def)
  then show ?thesis using r Inr deferred_simps(3) [of jd "r_ex (finish_run E (job_Name job) r)"] by simp
qed

text \<open>
  A job taken from the queue sends one status message when it succeeds and two when it does not:
  "fail" twice, or, when its stages cannot be sorted, "not run" and then "fail".  The step timer
  of the run is gone in every case.
\<close>

theorem queue_status_messages:
  assumes "qm_Command msg = Command_Start"
    and "SaveJob (e_cfg E) (qm_JobName msg) (qm_JobContent msg) (w_fs w) = (None, fs1)"
    and "GetJobObject (e_yaml E) (e_cfg E) (qm_JobName msg) fs1 = Inr job"
    and "job_Name job = qm_JobName msg"
    and "handle_queue_message E L msg (ex, w) = Inr (ex', w')"
  shows "\<exists>err jd ex1. Execute E L (qm_JobId msg) job ex (w\<lparr>w_fs := fs1\<rparr>) = Inr (err, jd, ex1, w') \<and>
    m_load (ex_stepTimerMap ex') (FormatJobToString (qm_JobName msg) (qm_JobId msg)) = None \<and>
    ex_StatusChan ex' = ex_StatusChan ex @ map (NewStatusChangeMsg (qm_JobName msg) (qm_JobId msg))
      (case StageSort (e_stage_order E) job of
         Inl e \<Rightarrow> [STATUS_NOTRUN, STATUS_FAIL]
       | Inr stages \<Rightarrow> if err = None then [STATUS_SUCCESS] else [STATUS_FAIL, STATUS_FAIL])"
proof -
  from assms obtain err jd ex1 where x: "Execute E L (qm_JobId msg) job ex (w\<lparr>w_fs := fs1\<rparr>) = Inr (err, jd, ex1, w')"
    and ex': "ex' = (if err \<noteq> None then ex_send (NewStatusChangeMsg (qm_JobName msg) (qm_JobId msg) STATUS_FAIL) ex1
      else ex1)"
    by (auto simp: handle_queue_message_def Let_def then_do_Inr_iff)
  have "err \<noteq> None" if "StageSort (e_stage_order E) job = Inl e" for e
    using x that by (auto simp: Execute_def Let_def)
  then show ?thesis
    using x ex' Execute_reports [OF x] assms(4)
    by (auto simp: ex_send_def split: sum.splits)
qed

definition bad_yaml :: yaml_lib where
  "bad_yaml = demo_yaml\<lparr>y_Unmarshal_Job := (\<lambda>s. Inr (demo_cyclic\<lparr>job_Name := ''j''\<rparr>))\<rparr>"

lemma demo_cyclic_rejected:
  "StageSort (\<lambda>i ks. ks) (demo_cyclic\<lparr>job_Name := ''j''\<rparr>) = Inl ''cannot resolve dependency''"
  by (simp add: StageSort_def demo_cyclic_def demo_stage_def sort_loop.simps m_keys_def m_load_def
      m_store_def m_delete_def)

theorem queue_status_messages_witness:
  "\<exists>ex' w'. handle_queue_message (demo_env\<lparr>e_yaml := bad_yaml\<rparr>) demo_lib (NewStartQueueMsg ''j'' ''x'' 1)
      (NewExecutor, demo_world) = Inr (ex', w') \<and>
    ex_StatusChan ex' = [NewStatusChangeMsg ''j'' 1 STATUS_NOTRUN, NewStatusChangeMsg ''j'' 1 STATUS_FAIL]"
proof -
  let ?E = "demo_env\<lparr>e_yaml := bad_yaml\<rparr>" and ?m = "NewStartQueueMsg ''j'' ''x'' 1"
  have q: "qm_Command ?m = Command_Start" "qm_JobName ?m = ''j''" "qm_JobContent ?m = ''x''" "qm_JobId ?m = 1"
    by (simp_all add: NewStartQueueMsg_def)
  obtain fs1 where s: "SaveJob ''/p'' ''j'' ''x'' demo_fs = (None, fs1)"
    and g: "GetJobObject bad_yaml ''/p'' ''j'' fs1 = Inr (demo_cyclic\<lparr>job_Name := ''j''\<rparr>)"
  proof -
    have "fst (SaveJob ''/p'' ''j'' ''x'' demo_fs) = None"
      "isFileExist (getJobFilePath ''/p'' ''j'') (snd (SaveJob ''/p'' ''j'' ''x'' demo_fs))"
      "GetFileData (getJobFilePath ''/p'' ''j'') (snd (SaveJob ''/p'' ''j'' ''x'' demo_fs)) = Inr ''x''"
      by code_simp+
    then show ?thesis
      by (intro that [of "snd (SaveJob ''/p'' ''j'' ''x'' demo_fs)"])
        (simp_all add: prod_eq_iff GetJobObject_def Let_def bad_yaml_def)
  qed
  have e: "e_yaml ?E = bad_yaml" "e_cfg ?E = ''/p''" "e_stage_order ?E = (\<lambda>i ks. ks)" "w_fs demo_world = demo_fs"
    by (simp_all add: demo_env_def demo_world_def)
  obtain ex' w' where h: "handle_queue_message ?E demo_lib ?m (NewExecutor, demo_world) = Inr (ex', w')"
    using s g demo_cyclic_rejected
    by (auto simp: handle_queue_message_def q e Let_def Execute_def)
  from queue_status_messages [OF q(1) _ _ _ h, unfolded q e, OF s g] demo_cyclic_rejected
  have "ex_StatusChan ex' = ex_StatusChan NewExecutor @
      [NewStatusChangeMsg ''j'' 1 STATUS_NOTRUN, NewStatusChangeMsg ''j'' 1 STATUS_FAIL]" by auto
  with h show ?thesis by (auto simp: NewExecutor_def)
qed

text \<open>
  After a job has run to its end, successful or not, its status is still "running": the cancel
  function is stored under \<open>name/id\<close> and removed under \<open>name\<close>.  Only a later \<open>Cancel\<close> removes it, and
  that reports the finished job as stopped.
\<close>

theorem finished_job_still_running:
  fixes L :: "('h, 'x) action_lib"
  assumes "StageSort (e_stage_order E) job = Inr stages"
    and "Execute E L jid job ex w = Inr (err, jd, ex', w')"
  shows "Executor_GetJobStatus (job_Name job) jid ex' = (STATUS_RUNNING, None) \<and>
    Executor_GetJobStatus (job_Name job) jid (Cancel (job_Name job) jid ex') =
      (STATUS_NOTRUN, Some ''job not found'') \<and>
    last (ex_StatusChan (Cancel (job_Name job) jid ex')) = NewStatusChangeMsg (job_Name job) jid STATUS_STOP"
proof -
  obtain r :: "('h, 'x) run" where r: "frame (start_run E jid job stages ex w) r" "err = r_err r"
    "jd = r_job (finish_run E (job_Name job) r)" "ex' = deferred jd (r_ex (finish_run E (job_Name job) r))"
    by (rule Execute_frame [OF assms])
  have "length (job_Name job) < length (cancel_key (job_Name job) jid)" by (simp add: cancel_key_def)
  then have "job_Name job \<noteq> cancel_key (job_Name job) jid" by auto
  then have "m_load (ex_cancelMap ex') (cancel_key (job_Name job) jid) = Some (cancel_key (job_Name job) jid)"
    using r by (simp add: frame_def)
  then show ?thesis
    by (simp add: Executor_GetJobStatus_def Cancel_def Let_def ex_send_def)
qed

theorem finished_job_still_running_witness:
  "\<exists>err jd ex' w'. Execute demo_env demo_lib 1 two_steps NewExecutor demo_world = Inr (err, jd, ex', w') \<and>
     Executor_GetJobStatus (job_Name two_steps) 1 ex' = (STATUS_RUNNING, None)"
proof -
  have "\<exists>jd ex' w'. Execute demo_env demo_lib 1 two_steps NewExecutor demo_world = Inr (None, jd, ex', w') \<and>
      jd_Status jd = STATUS_SUCCESS"
    by (rule masked_run [OF demo_lib_total two_steps_sorted, where e = "''boom''" and k = K_Shell
          and st = "demo_step ''a''" and st' = "demo_step ''b''" and sts = "[]"])
      (simp_all add: demo_step_def action_kind_def demo_lib_def)
  then obtain jd ex' w' where x: "Execute demo_env demo_lib 1 two_steps NewExecutor demo_world =
      Inr (None, jd, ex', w')" by (elim exE conjE)
  from finished_job_still_running [OF two_steps_sorted x]
  have "Executor_GetJobStatus (job_Name two_steps) 1 ex' = (STATUS_RUNNING, None)" by (rule conjunct1)
  with x show ?thesis by (intro exI conjI)
qed

text \<open>
  When the container of a step was started but its check fails, the stage ends at once and the
  container's \<open>Post\<close> (which stops and removes it) is never called: it stays on the stack, and the
  run is the same whatever \<open>Post\<close> does.
\<close>

theorem docker_failure_skips_post:
  fixes L :: "('h, 'x) action_lib" and r :: "('h, 'x) run"
  assumes "step_RunsOn (the_step i j r) \<noteq> []" and "jd_Status (r_job r) = STATUS_RUNNING"
    and "al_New L K_Docker (the_step i j r) (r_w r) = (Inr d, w1)"
    and "al_Pre L d w1 = (Returns None, w2)" and "al_Hook L d w2 = (Returns (res, Some e), w3)"
  shows "\<exists>r'. step_loop E L i (j # js) r = Inr r' \<and>
      step_loop E (L\<lparr>al_Post := post\<rparr>) i (j # js) r = Inr r' \<and>
      r_stack r' = r_stack r @ [d] \<and> r_err r' = Some e \<and> jd_Status (r_job r') = STATUS_FAIL \<and>
      r_w r' = w3"
proof -
  let ?r1 = "r\<lparr>r_w := w1\<rparr>"
  have "r_err (executeAction L (Some d) ?r1) = Some e \<and>
      executeAction (L\<lparr>al_Post := post\<rparr>) (Some d) ?r1 = executeAction L (Some d) ?r1 \<and>
      r_stack (executeAction L (Some d) ?r1) = r_stack r @ [d] \<and>
      jd_Status (r_job (executeAction L (Some d) ?r1)) = STATUS_FAIL \<and>
      r_w (executeAction L (Some d) ?r1) = w3"
    using assms by (simp add: executeAction_def Let_def set_status_def Stack_Push_def)
  then show ?thesis using assms(1,3) by (auto simp: new_action_def Let_def)
qed

definition docker_lib :: "(string, unit) action_lib" where
  "docker_lib = demo_lib\<lparr>al_Pre := (\<lambda>h w. (Returns None, w)),
     al_Hook := (\<lambda>h w. (Returns (None, Some ''top failed''), w))\<rparr>"

definition docker_run :: "(string, unit) run" where
  "docker_run = demo_failed\<lparr>r_job := (new_wrapper 1 two_steps [NewStageDetail ''s''
     \<lparr>stage_Steps = [(demo_step ''a'')\<lparr>step_RunsOn := ''node''\<rparr>], stage_Needs = []\<rparr>])
       \<lparr>jd_Status := STATUS_RUNNING\<rparr>\<rparr>"

theorem docker_failure_skips_post_witness:
  "\<exists>r'. step_loop demo_env docker_lib 0 [0] docker_run = Inr r' \<and> r_stack r' = [''a''] \<and>
     r_err r' = Some ''top failed''"
proof -
  have "step_RunsOn (the_step 0 0 docker_run) \<noteq> []" "jd_Status (r_job docker_run) = STATUS_RUNNING"
    "al_New docker_lib K_Docker (the_step 0 0 docker_run) (r_w docker_run) = (Inr ''a'', demo_world)"
    "r_stack docker_run = []"
    by (simp_all add: docker_run_def the_step_def new_wrapper_def docker_lib_def demo_lib_def demo_failed_def demo_step_def)
  moreover have "al_Pre docker_lib ''a'' demo_world = (Returns None, demo_world)"
    "al_Hook docker_lib ''a'' demo_world = (Returns (None, Some ''top failed''), demo_world)"
    by (simp_all add: docker_lib_def)
  ultimately show ?thesis
    using docker_failure_skips_post [of 0 0 docker_run docker_lib "''a''" demo_world demo_world None
        "''top failed''" demo_world demo_env "[]"] by auto
qed

end
