(* ===== verification/Grpc.thy ===== *)
theory Grpc
  imports Api
begin

text \<open>
  \<open>grpc/server/aline_grpc_server.go\<close> and \<open>grpc/client/aline_grpc_client.go\<close>: the queues of messages,
  the map from node keys to streams, the send loops.  A stream is known by its number; whether a
  \<open>Send\<close> on it fails is the argument \<open>send\<close>.  Channels are lists, oldest first.
\<close>

text \<open>Reading a field through a pointer that may be nil.\<close>

definition the_ref :: "'a option \<Rightarrow> 'a go" where
  "the_ref v = (case v of None \<Rightarrow> Inl PanicNil | Some x \<Rightarrow> Inr x)"

section \<open>Server\<close>

datatype server_error = SendJobErr SendJobError | OtherErr error

record AlineGrpcServer =
  gs_RecvMsgChan :: "AlineMessage list"
  gs_SendMsgChan :: "AlineMessage list"
  gs_conns :: "(string, nat) gomap"
  gs_ErrorChan :: "server_error list"

definition NewGrpcServer :: AlineGrpcServer where
  "NewGrpcServer = \<lparr>gs_RecvMsgChan = [], gs_SendMsgChan = [], gs_conns = [], gs_ErrorChan = []\<rparr>"

text \<open>\<open>AlineChat\<close>: one received message; the end of the stream.\<close>

definition chat_receive :: "nat \<Rightarrow> AlineMessage \<Rightarrow> AlineGrpcServer \<Rightarrow> AlineGrpcServer" where
  "chat_receive stream msg s =
     (let key = GetNodeKey (msg_Name msg) (msg_Address msg) in
      s\<lparr>gs_conns := m_store key stream (gs_conns s), gs_RecvMsgChan := gs_RecvMsgChan s @ [msg]\<rparr>)"

fun deleteStream :: "nat \<Rightarrow> string list \<Rightarrow> AlineGrpcServer \<Rightarrow> AlineGrpcServer" where
  "deleteStream stream [] s = s"
| "deleteStream stream (key # keys) s =
     (case m_load (gs_conns s) key of
        None \<Rightarrow> deleteStream stream keys s
      | Some st \<Rightarrow> if st = stream then s\<lparr>gs_conns := m_delete key (gs_conns s)\<rparr>
                  else deleteStream stream keys s)"

definition chat_end :: "(string list \<Rightarrow> string list) \<Rightarrow> nat \<Rightarrow> AlineGrpcServer \<Rightarrow> AlineGrpcServer" where
  "chat_end ord stream s = deleteStream stream (ord (m_keys (gs_conns s))) s"

definition getConn :: "string \<Rightarrow> AlineGrpcServer \<Rightarrow> nat option" where
  "getConn key s = m_load (gs_conns s) key"

text \<open>The error of a job message; a message without request is a nil dereference.\<close>

definition send_job_error :: "AlineMessage \<Rightarrow> error \<Rightarrow> SendJobError go" where
  "send_job_error msg err =
     (case msg_ExecReq msg of
        None \<Rightarrow> Inl PanicNil
      | Some rq \<Rightarrow> Inr \<lparr>sje_ErrorNode = GetNodeKey (msg_Name msg) (msg_Address msg),
          sje_JobName = er_Name rq, sje_JobID = er_JobDetailId rq, sje_Err = err\<rparr>)"

text \<open>One round of the send loop: what was delivered, and the server after it.\<close>

definition server_send :: "(nat \<Rightarrow> AlineMessage \<Rightarrow> error option) \<Rightarrow> AlineGrpcServer \<Rightarrow>
    ((nat \<times> AlineMessage) option \<times> AlineGrpcServer) go" where
  "server_send send s =
     (case gs_SendMsgChan s of
        [] \<Rightarrow> Inr (None, s)
      | msg # rest \<Rightarrow>
          (let s1 = s\<lparr>gs_SendMsgChan := rest\<rparr> in
           case getConn (GetNodeKey (msg_Name msg) (msg_Address msg)) s1 of
             None \<Rightarrow>
               if MessageType_Number (msg_Type msg) = 4 then
                 then_do (send_job_error msg ''don't find stream connection'') (\<lambda>e.
                   Inr (None, s1\<lparr>gs_ErrorChan := gs_ErrorChan s1 @ [SendJobErr e]\<rparr>))
               else Inr (None, s1)
           | Some stream \<Rightarrow>
               (case send stream msg of
                  None \<Rightarrow> Inr (Some (stream, msg), s1)
                | Some err \<Rightarrow>
                    if MessageType_Number (msg_Type msg) = 4 then
                      then_do (send_job_error msg err) (\<lambda>e.
                        Inr (None, s1\<lparr>gs_ErrorChan := gs_ErrorChan s1 @ [SendJobErr e]\<rparr>))
                    else Inr (None, s1\<lparr>gs_ErrorChan := gs_ErrorChan s1 @ [OtherErr err]\<rparr>))))"

section \<open>Client\<close>

text \<open>
  A nil message can be put on the client's channel; after a successful \<open>Send\<close> its type is logged, a
  nil dereference.  A failed \<open>Send\<close> panics with the error.
\<close>

record AlineGrpcClient =
  gc_RecvMsgChan :: "AlineMessage list"
  gc_SendMsgChan :: "AlineMessage option list"
  gc_ErrorChan :: "error list"

definition client_send :: "(AlineMessage option \<Rightarrow> error option) \<Rightarrow> AlineGrpcClient \<Rightarrow>
    (AlineMessage option \<times> AlineGrpcClient) go" where
  "client_send send c =
     (case gc_SendMsgChan c of
        [] \<Rightarrow> Inr (None, c)
      | msg # rest \<Rightarrow>
          (case send msg of
             Some err \<Rightarrow> Inl (PanicMsg err)
           | None \<Rightarrow> (case msg of
                 None \<Rightarrow> Inl PanicNil
               | Some m \<Rightarrow> Inr (Some m, c\<lparr>gc_SendMsgChan := rest\<rparr>))))"

text \<open>The receive loop: a message, the end of the stream, an error (both end the loop).\<close>

datatype stream_event = Received AlineMessage | StreamEOF | StreamError error

definition client_receive :: "stream_event \<Rightarrow> AlineGrpcClient \<Rightarrow> bool \<times> AlineGrpcClient" where
  "client_receive ev c =
     (case ev of
        Received m \<Rightarrow> (True, c\<lparr>gc_RecvMsgChan := gc_RecvMsgChan c @ [m]\<rparr>)
      | StreamEOF \<Rightarrow> (False, c)
      | StreamError e \<Rightarrow> (False, c\<lparr>gc_ErrorChan := gc_ErrorChan c @ [e]\<rparr>))"

section \<open>What a failed send reports\<close>

lemma MessageType_Number_4 [simp]: "MessageType_Number MT_CANCEL = 4"
  by simp

text \<open>
  The error report that makes the master send a job to another node is made for the messages with
  number 4.  Number 4 is CANCEL: an EXECUTE that cannot be sent is dropped.
\<close>

lemma server_send_unknown_node:
  assumes "gs_SendMsgChan s = msg # rest" and "getConn (GetNodeKey (msg_Name msg) (msg_Address msg)) s = None"
    and "msg_ExecReq msg = Some rq"
  shows "server_send send s = Inr (None, s\<lparr>gs_SendMsgChan := rest, gs_ErrorChan := gs_ErrorChan s @
    (if MessageType_Number (msg_Type msg) = 4
     then [SendJobErr \<lparr>sje_ErrorNode = GetNodeKey (msg_Name msg) (msg_Address msg), sje_JobName = er_Name rq,
       sje_JobID = er_JobDetailId rq, sje_Err = ''don't find stream connection''\<rparr>] else [])\<rparr>)"
  using assms by (simp add: server_send_def send_job_error_def getConn_def)

lemma server_send_ok:
  assumes "gs_SendMsgChan s = msg # rest" and "getConn (GetNodeKey (msg_Name msg) (msg_Address msg)) s = Some st"
    and "send st msg = None"
  shows "server_send send s = Inr (Some (st, msg), s\<lparr>gs_SendMsgChan := rest\<rparr>)"
  using assms by (simp add: server_send_def getConn_def)

lemma chat_receive_conn [simp]:
  "getConn (GetNodeKey (msg_Name m) (msg_Address m)) (chat_receive st m s) = Some st"
  by (simp add: getConn_def chat_receive_def Let_def)

lemma deleteStream_conns:
  "getConn key (deleteStream st keys s) = Some st' \<Longrightarrow> getConn key s = Some st'"
  by (induction keys arbitrary: s) (auto simp: getConn_def split: option.splits if_splits)

end
