(* ===== verification/Master.thy ===== *)
theory Master
  imports Grpc Dispatcher JobStore
begin

text \<open>
  \<open>engine_master.go\<close>: the master's handling of the messages its gRPC server receives and of the
  errors it reports, and the dispatch, cancel and status requests.  A pause in which other
  goroutines run is an argument that says what they do to the state.
\<close>

record masterEngine =
  me_dispatch :: GrpcDispatcher
  me_rpcServer :: AlineGrpcServer
  me_statusChangeChan :: "StatusChangeMessage list"
  me_jobStatusMap :: "(string, JobStatus) gomap"
  me_fs :: fs

definition newMaster :: "fs \<Rightarrow> masterEngine" where
  "newMaster fs = \<lparr>me_dispatch = NewGrpcDispatcher, me_rpcServer = NewGrpcServer,
     me_statusChangeChan = [], me_jobStatusMap = [], me_fs = fs\<rparr>"

definition put_message :: "AlineMessage \<Rightarrow> masterEngine \<Rightarrow> masterEngine" where
  "put_message msg e =
     e\<lparr>me_rpcServer := (me_rpcServer e)\<lparr>gs_SendMsgChan := gs_SendMsgChan (me_rpcServer e) @ [msg]\<rparr>\<rparr>"

definition msg_node :: "AlineMessage \<Rightarrow> Node" where
  "msg_node msg = \<lparr>node_Name = msg_Name msg, node_Address = msg_Address msg\<rparr>"

definition saveFile :: "string \<Rightarrow> ApiFile \<Rightarrow> fs \<Rightarrow> error option \<times> fs" where
  "saveFile cfg msg fs = SaveFile (PathJoin [GetJobsDir cfg, file_Path msg]) (file_Data msg) fs"

section \<open>Messages from the workers\<close>

definition handle_message :: "string \<Rightarrow> int \<Rightarrow> AlineMessage \<Rightarrow> masterEngine \<Rightarrow> masterEngine go" where
  "handle_message cfg now msg e =
     (case msg_Type msg of
        MT_REGISTER \<Rightarrow> Inr (e\<lparr>me_dispatch := snd (Register (msg_node msg) now (me_dispatch e))\<rparr>)
      | MT_UNREGISTER \<Rightarrow>
          then_do (UnRegister (msg_node msg) (me_dispatch e)) (\<lambda>(err, d). Inr (e\<lparr>me_dispatch := d\<rparr>))
      | MT_HEARTBEAT \<Rightarrow> Inr (e\<lparr>me_dispatch := snd (Ping (msg_node msg) now (me_dispatch e))\<rparr>)
      | MT_EXECUTE \<Rightarrow> Inr e
      | MT_CANCEL \<Rightarrow> Inr e
      | MT_RESULT \<Rightarrow>
          then_do (the_ref (msg_Result msg)) (\<lambda>res.
            case IntToStatus (res_JobStatus res) of (status, err) \<Rightarrow>
            Inr (e\<lparr>me_statusChangeChan := me_statusChangeChan e @
                  [NewStatusChangeMsg (res_JobName res) (res_JobID res) status]\<rparr>))
      | MT_LOG \<Rightarrow>
          then_do (the_ref (msg_ExecReq msg)) (\<lambda>rq.
            let fs1 = snd (SaveJobLogString cfg (er_Name rq) (er_JobDetailId rq) (msg_Log msg) (me_fs e));
                fs2 = snd (SaveStringJobDetail cfg (er_Name rq) (er_JobDetailId rq) (er_PipelineFile rq) fs1) in
            Inr (e\<lparr>me_fs := fs2\<rparr>))
      | MT_ERROR \<Rightarrow> Inr e
      | MT_FILE \<Rightarrow>
          then_do (the_ref (msg_File msg)) (\<lambda>f. Inr (e\<lparr>me_fs := snd (saveFile cfg f (me_fs e))\<rparr>))
      | MT_STATUS \<Rightarrow>
          then_do (the_ref (msg_ExecReq msg)) (\<lambda>rq.
            Inr (e\<lparr>me_jobStatusMap := m_store (FormatJobToString (er_Name rq) (er_JobDetailId rq))
                  (msg_Status msg) (me_jobStatusMap e)\<rparr>))
      | MT_UNKNOWN n \<Rightarrow> Inr e)"

section \<open>Dispatching, cancelling, asking\<close>

text \<open>The retry loop; \<open>pause i\<close> is what happens to the dispatcher in the pause after attempt \<open>i\<close>.\<close>

fun retry_dispatch :: "(nat \<Rightarrow> GrpcDispatcher \<Rightarrow> GrpcDispatcher) \<Rightarrow> nat \<Rightarrow> GrpcDispatcher \<Rightarrow>
    (Node res \<times> GrpcDispatcher) go" where
  "retry_dispatch pause 0 d = Inr (Inl [], d)"
| "retry_dispatch pause (Suc n) d =
     then_do (DispatchNode d) (\<lambda>(r, d').
       case r of
         Inr node \<Rightarrow> Inr (Inr node, d')
       | Inl err \<Rightarrow>
           if n = 0 then Inr (Inl err, pause n d') else retry_dispatch pause n (pause n d'))"

definition dispatchJob :: "(nat \<Rightarrow> GrpcDispatcher \<Rightarrow> GrpcDispatcher) \<Rightarrow> string \<Rightarrow> string \<Rightarrow> int \<Rightarrow>
    masterEngine \<Rightarrow> (error option \<times> masterEngine) go" where
  "dispatchJob pause cfg name jid e =
     then_do (retry_dispatch pause 3 (me_dispatch e)) (\<lambda>(r, d).
       let e1 = e\<lparr>me_dispatch := d\<rparr> in
       case r of
         Inl err \<Rightarrow> Inr (Some err, e1)
       | Inr node \<Rightarrow>
           (case GetJob cfg name (me_fs e1) of
              Inl err \<Rightarrow> Inr (Some err, e1)
            | Inr y \<Rightarrow>
                (case SendJob name y jid node d of
                   (msg, d') \<Rightarrow> Inr (None, put_message msg (e1\<lparr>me_dispatch := d'\<rparr>)))))"

definition cancelJob :: "string \<Rightarrow> int \<Rightarrow> masterEngine \<Rightarrow> error option \<times> masterEngine" where
  "cancelJob name jid e =
     (case CancelJob name jid (me_dispatch e) of
        Inl err \<Rightarrow> (Some err, e)
      | Inr msg \<Rightarrow> (None, put_message msg e))"

text \<open>Ten looks at the status map, a pause after each.\<close>

fun poll_status :: "(nat \<Rightarrow> masterEngine \<Rightarrow> masterEngine) \<Rightarrow> nat \<Rightarrow> string \<Rightarrow> masterEngine \<Rightarrow>
    (Status \<times> error option) \<times> masterEngine" where
  "poll_status pause 0 key e = ((STATUS_NOTRUN, Some ''get job status timeout''), e)"
| "poll_status pause (Suc n) key e =
     (case m_load (me_jobStatusMap e) key of
        Some status \<Rightarrow>
          ((convertJobStatus status, None), e\<lparr>me_jobStatusMap := m_delete key (me_jobStatusMap e)\<rparr>)
      | None \<Rightarrow> poll_status pause n key (pause n e))"

definition master_getJobStatus :: "(nat \<Rightarrow> masterEngine \<Rightarrow> masterEngine) \<Rightarrow> string \<Rightarrow> int \<Rightarrow> masterEngine \<Rightarrow>
    (Status \<times> error option) \<times> masterEngine" where
  "master_getJobStatus pause name jid e =
     (case GetJobStatus_msg name jid (me_dispatch e) of
        Inl err \<Rightarrow> ((STATUS_NOTRUN, Some err), e)
      | Inr msg \<Rightarrow> poll_status pause 10 (FormatJobToString name jid) (put_message msg e))"

definition isValidWorker :: "string \<Rightarrow> masterEngine \<Rightarrow> bool" where
  "isValidWorker w e \<longleftrightarrow> IsValidNode w (me_dispatch e)"

text \<open>Errors of the gRPC server: a job that could not be sent goes to another node.\<close>

definition handle_server_error :: "(nat \<Rightarrow> GrpcDispatcher \<Rightarrow> GrpcDispatcher) \<Rightarrow> string \<Rightarrow> server_error \<Rightarrow>
    masterEngine \<Rightarrow> masterEngine go" where
  "handle_server_error pause cfg err e =
     (case err of
        SendJobErr se \<Rightarrow>
          then_do (UnRegisterWithKey (sje_ErrorNode se) (me_dispatch e)) (\<lambda>(r, d).
          then_do (dispatchJob pause cfg (sje_JobName se) (sje_JobID se) (e\<lparr>me_dispatch := d\<rparr>)) (\<lambda>(r, e').
            Inr e'))
      | OtherErr m \<Rightarrow> Inr e)"

text \<open>One message received, one message sent, one error handled: the master's three goroutines.\<close>

definition master_receive :: "string \<Rightarrow> int \<Rightarrow> masterEngine \<Rightarrow> masterEngine go" where
  "master_receive cfg now e =
     (case gs_RecvMsgChan (me_rpcServer e) of
        [] \<Rightarrow> Inr e
      | msg # rest \<Rightarrow>
          handle_message cfg now msg (e\<lparr>me_rpcServer := (me_rpcServer e)\<lparr>gs_RecvMsgChan := rest\<rparr>\<rparr>))"

definition master_send :: "(nat \<Rightarrow> AlineMessage \<Rightarrow> error option) \<Rightarrow> masterEngine \<Rightarrow>
    ((nat \<times> AlineMessage) option \<times> masterEngine) go" where
  "master_send send e =
     then_do (server_send send (me_rpcServer e)) (\<lambda>(sent, s). Inr (sent, e\<lparr>me_rpcServer := s\<rparr>))"

definition master_error :: "(nat \<Rightarrow> GrpcDispatcher \<Rightarrow> GrpcDispatcher) \<Rightarrow> string \<Rightarrow> masterEngine \<Rightarrow>
    masterEngine go" where
  "master_error pause cfg e =
     (case gs_ErrorChan (me_rpcServer e) of
        [] \<Rightarrow> Inr e
      | err # rest \<Rightarrow>
          handle_server_error pause cfg err (e\<lparr>me_rpcServer := (me_rpcServer e)\<lparr>gs_ErrorChan := rest\<rparr>\<rparr>))"

section \<open>Which messages stop the master\<close>

lemma Register_disp_inv: "disp_inv d \<Longrightarrow> disp_inv (snd (Register node now d))"
  by (rule Register_inv [OF _ surjective_pairing])

lemma Ping_disp_inv: "disp_inv d \<Longrightarrow> disp_inv (snd (Ping node now d))"
  by (rule Ping_inv [OF _ surjective_pairing])

definition lacks_part :: "AlineMessage \<Rightarrow> bool" where
  "lacks_part msg \<longleftrightarrow>
     (msg_Type msg = MT_RESULT \<and> msg_Result msg = None) \<or>
     (msg_Type msg \<in> {MT_LOG, MT_STATUS} \<and> msg_ExecReq msg = None) \<or>
     (msg_Type msg = MT_FILE \<and> msg_File msg = None)"

text \<open>
  C21. A message stops the master (a nil dereference) exactly when it is a RESULT, LOG, STATUS or FILE
  message without the part its handler reads.  Every other message, from any sender and in any
  order, is handled and keeps the dispatcher's invariant.
\<close>

theorem handle_message_total:
  assumes "disp_inv (me_dispatch e)"
  shows "if lacks_part msg then handle_message cfg now msg e = Inl PanicNil
    else \<exists>e'. handle_message cfg now msg e = Inr e' \<and> disp_inv (me_dispatch e')"
proof (cases "msg_Type msg = MT_UNREGISTER")
  case True
  obtain r d where u: "unRegister (node_key (msg_node msg)) (me_dispatch e) = Inr (r, d)"
    using unRegister_total [OF assms] by blast
  from True u unRegister_inv [OF assms u] show ?thesis
    by (simp add: handle_message_def UnRegister_def lacks_part_def)
next
  case False
  then show ?thesis
    using assms Register_disp_inv [OF assms] Ping_disp_inv [OF assms]
    by (cases "msg_Type msg") (auto simp: handle_message_def lacks_part_def the_ref_def Let_def
        split: option.splits prod.splits)
qed

theorem handle_message_total_witness:
  "\<exists>e. handle_message ''/p'' 7 (plain_msg MT_UNREGISTER ''a'' ''b'') (newMaster demo_jobs) = Inr e"
  using handle_message_total [of "newMaster demo_jobs" "plain_msg MT_UNREGISTER ''a'' ''b''" "''/p''" 7]
    disp_inv_init
  by (auto simp: newMaster_def lacks_part_def)

section \<open>Messages for a node that is gone\<close>

lemma retry_dispatch_ok:
  "DispatchNode d = Inr (Inr node, d') \<Longrightarrow> retry_dispatch pause 3 d = Inr (Inr node, d')"
  by (simp add: numeral_3_eq_3)

definition execute_msg :: "string \<Rightarrow> string \<Rightarrow> int \<Rightarrow> Node \<Rightarrow> AlineMessage" where
  "execute_msg name y jid node = (plain_msg MT_EXECUTE (node_Name node) (node_Address node))
     \<lparr>msg_ExecReq := Some \<lparr>er_Name = name, er_PipelineFile = y, er_JobDetailId = jid\<rparr>\<rparr>"

lemma SendJob_msg: "fst (SendJob name y jid node d) = execute_msg name y jid node"
  by (simp add: SendJob_def execute_msg_def Let_def split: option.splits)

lemma dispatchJob_ok:
  assumes "DispatchNode (me_dispatch e) = Inr (Inr node, d)" and "GetJob cfg name (me_fs e) = Inr y"
  shows "dispatchJob pause cfg name jid e = Inr (None,
    put_message (execute_msg name y jid node) (e\<lparr>me_dispatch := snd (SendJob name y jid node d)\<rparr>))"
  using assms SendJob_msg [of name y jid node d]
  by (cases "SendJob name y jid node d") (simp add: dispatchJob_def retry_dispatch_ok Let_def)


text \<open>
  Executing a job on a registered node that has lost its connection loses the request: the caller is
  told of no error, the EXECUTE message is dropped without a report, and the master keeps the node.
\<close>

theorem execute_lost:
  assumes "gs_SendMsgChan (me_rpcServer e) = []"
    and "DispatchNode (me_dispatch e) = Inr (Inr node, d)" and "GetJob cfg name (me_fs e) = Inr y"
    and "getConn (node_key node) (me_rpcServer e) = None"
  shows "\<exists>e1 e2. dispatchJob pause cfg name jid e = Inr (None, e1) \<and>
    master_send send e1 = Inr (None, e2) \<and> gs_SendMsgChan (me_rpcServer e2) = [] \<and>
    gs_ErrorChan (me_rpcServer e2) = gs_ErrorChan (me_rpcServer e) \<and>
    GetJobLatestNode name jid (me_dispatch e2) = Inr node \<and> d_nodes (me_dispatch e2) = d_nodes d"
proof -
  define d' where "d' = snd (SendJob name y jid node d)"
  have d': "GetJobLatestNode name jid d' = Inr node" "d_nodes d' = d_nodes d"
    by (auto simp: d'_def GetJobLatestNode_def GetJobNode_def SendJob_def Let_def split: option.splits)
  have "dispatchJob pause cfg name jid e =
      Inr (None, put_message (execute_msg name y jid node) (e\<lparr>me_dispatch := d'\<rparr>))"
    unfolding d'_def by (rule dispatchJob_ok [OF assms(2,3)])
  moreover have "master_send send (put_message (execute_msg name y jid node) (e\<lparr>me_dispatch := d'\<rparr>)) =
      Inr (None, e\<lparr>me_dispatch := d'\<rparr>)"
    using assms(1,4)
    by (simp add: master_send_def put_message_def server_send_def getConn_def execute_msg_def)
  ultimately show ?thesis using d' assms(1) by auto
qed

definition lost_master :: masterEngine where
  "lost_master = (newMaster demo_jobs)\<lparr>me_dispatch :=
     snd (SendJob ''j'' ''job'' 1 node_a (disp_ab\<lparr>d_index := 1\<rparr>))\<rparr>"

lemma lost_master_facts:
  "GetJobLatestNode ''j'' 1 (me_dispatch lost_master) = Inr node_a"
  "GetJob ''/p'' ''j'' (me_fs lost_master) = Inr ''job''"
  "gs_SendMsgChan (me_rpcServer lost_master) = []" "gs_ErrorChan (me_rpcServer lost_master) = []"
  "getConn key (me_rpcServer lost_master) = None"
  subgoal by code_simp
  subgoal by code_simp
  by (simp_all add: lost_master_def newMaster_def NewGrpcServer_def getConn_def m_load_def)

lemma lost_master_dispatch:
  "\<exists>d. DispatchNode (me_dispatch lost_master) = Inr (Inr node_b, d)"
proof -
  have "(case DispatchNode (me_dispatch lost_master) of
      Inr (Inr n, d) \<Rightarrow> n = node_b | _ \<Rightarrow> False)"
    by code_simp
  then show ?thesis by (auto split: sum.splits)
qed

theorem execute_lost_witness:
  "\<exists>e1 e2. dispatchJob (\<lambda>i d. d) ''/p'' ''j'' 2 lost_master = Inr (None, e1) \<and>
     master_send (\<lambda>st m. None) e1 = Inr (None, e2) \<and> gs_ErrorChan (me_rpcServer e2) = []"
proof -
  obtain d where "DispatchNode (me_dispatch lost_master) = Inr (Inr node_b, d)"
    using lost_master_dispatch by blast
  from execute_lost [OF lost_master_facts(3) this lost_master_facts(2,5)] lost_master_facts(4)
  show ?thesis by metis
qed


section \<open>Where a received file is written\<close>

lemma PathJoin_comps:
  assumes "list_all good_comp es" and "es \<noteq> []" and "cs \<noteq> []" and "\<forall>c \<in> set cs. CHR ''/'' \<notin> set c"
  shows "PathJoin [abs_path es, Join cs ''/''] = abs_path (clean_comps True [] (es @ cs))"
proof -
  have ne: "abs_path es \<noteq> []" by (simp add: abs_path_def)
  have "abs_path es @ CHR ''/'' # Join cs ''/'' = CHR ''/'' # Join (es @ cs) ''/''"
    using assms(2,3) by (simp add: abs_path_def Join_append_single)
  moreover have "Split (Join (es @ cs) ''/'') ''/'' = es @ cs"
    using assms by (intro Split_Join_single) (auto simp: list_all_iff good_comp_def)
  ultimately show ?thesis
    using ne by (simp add: PathJoin_def Join_Cons Clean_def Split_Cons_sep)
qed

lemma dotdot_ne [simp]: "dotdot \<noteq> []" "dotdot \<noteq> dot"
  by (simp_all add: dot_def dotdot_def)

lemma saveFile_where:
  assumes "list_all good_comp ds" and "cs \<noteq> []" and "\<forall>c \<in> set cs. CHR ''/'' \<notin> set c"
  shows "saveFile (abs_path ds) \<lparr>file_Path = Join cs ''/'', file_Data = data\<rparr> fs =
    SaveFile (abs_path (clean_comps True [] (ds @ ''jobs'' # cs))) data fs"
proof -
  have "GetJobsDir (abs_path ds) = abs_path (ds @ [''jobs''])"
    using assms(1) by (simp add: GetJobsDir_def PathJoin_abs)
  with assms PathJoin_comps [of "ds @ [''jobs'']" cs] show ?thesis by (simp add: saveFile_def)
qed



end
