(* ===== verification/Worker.thy ===== *)
theory Worker
  imports Executor Master
begin

text \<open>
  \<open>engine_worker.go\<close>: the worker's registration, heartbeat, handling of the master's messages, the
  streaming of a running job's log and the report of a finished job.  Each definition is one
  iteration of the code's goroutine; \<open>we_streams\<close> holds the log goroutines that are still alive.
  The host name, the IP address and the outcome of the connection are arguments.
\<close>

record log_stream =
  ls_Name :: string
  ls_Id :: int
  ls_errorCounter :: int

record workerEngine =
  we_name :: string
  we_address :: string
  we_masterAddress :: string
  we_QueueChan :: "QueueMessage list"
  we_executor :: Executor
  we_rpcClient :: AlineGrpcClient
  we_doneJobList :: "(string, unit) gomap"
  we_streams :: "log_stream list"
  we_fs :: fs

definition NewGrpcClient :: AlineGrpcClient where
  "NewGrpcClient = \<lparr>gc_RecvMsgChan = [], gc_SendMsgChan = [], gc_ErrorChan = []\<rparr>"

abbreviation local_address :: string where
  "local_address \<equiv> ''127.0.0.1''"

definition worker_put :: "AlineMessage option \<Rightarrow> workerEngine \<Rightarrow> workerEngine" where
  "worker_put m e = e\<lparr>we_rpcClient := (we_rpcClient e)
     \<lparr>gc_SendMsgChan := gc_SendMsgChan (we_rpcClient e) @ [m]\<rparr>\<rparr>"

section \<open>Start\<close>

definition worker_register :: "workerEngine \<Rightarrow> workerEngine" where
  "worker_register e = worker_put (Some (plain_msg MT_REGISTER (we_name e) (we_address e))) e"

definition keepAlive_round :: "workerEngine \<Rightarrow> workerEngine" where
  "keepAlive_round e = worker_put (Some (plain_msg MT_HEARTBEAT (we_name e) (we_address e))) e"

definition newWorkerEngine :: "string \<Rightarrow> string \<Rightarrow> (error option) \<Rightarrow> string \<Rightarrow> fs \<Rightarrow> workerEngine res go" where
  "newWorkerEngine hostname myIP dial masterAddress fs =
     then_do (slice masterAddress 0 9) (\<lambda>pre.
       let address = (if pre = local_address then local_address else myIP) in
       case dial of
         Some err \<Rightarrow> Inr (Inl err)
       | None \<Rightarrow> Inr (Inr (worker_register
           \<lparr>we_name = hostname, we_address = address, we_masterAddress = masterAddress, we_QueueChan = [],
            we_executor = NewExecutor, we_rpcClient = NewGrpcClient, we_doneJobList = [],
            we_streams = [], we_fs = fs\<rparr>)))"

section \<open>Messages from the master\<close>

definition sendLogJobDetail :: "ExecuteReq \<Rightarrow> workerEngine \<Rightarrow> workerEngine" where
  "sendLogJobDetail rq e =
     (if we_address e = local_address then e
      else e\<lparr>we_streams := we_streams e @
        [\<lparr>ls_Name = er_Name rq, ls_Id = er_JobDetailId rq, ls_errorCounter = 0\<rparr>]\<rparr>)"

definition worker_GetJobStatus :: "string \<Rightarrow> int \<Rightarrow> workerEngine \<Rightarrow> Status \<times> error option" where
  "worker_GetJobStatus jobName jobID e = Executor_GetJobStatus jobName jobID (we_executor e)"

definition sendJobStatus :: "ExecuteReq \<Rightarrow> workerEngine \<Rightarrow> workerEngine" where
  "sendJobStatus rq e =
     (let status = (case worker_GetJobStatus (er_Name rq) (er_JobDetailId rq) e of
            (st, None) \<Rightarrow> st
          | (st, Some err) \<Rightarrow> STATUS_NOTRUN) in
      worker_put (Some ((plain_msg MT_STATUS (we_name e) (we_address e))
        \<lparr>msg_Status := convertStatus status,
         msg_ExecReq := Some \<lparr>er_Name = er_Name rq, er_PipelineFile = [],
           er_JobDetailId = er_JobDetailId rq\<rparr>\<rparr>)) e)"

definition worker_handle_message :: "AlineMessage \<Rightarrow> workerEngine \<Rightarrow> workerEngine go" where
  "worker_handle_message msg e =
     (case msg_Type msg of
        MT_EXECUTE \<Rightarrow>
          then_do (the_ref (msg_ExecReq msg)) (\<lambda>rq.
            Inr (sendLogJobDetail rq (e\<lparr>we_QueueChan := we_QueueChan e @
              [NewStartQueueMsg (er_Name rq) (er_PipelineFile rq) (er_JobDetailId rq)]\<rparr>)))
      | MT_CANCEL \<Rightarrow>
          then_do (the_ref (msg_ExecReq msg)) (\<lambda>rq.
            Inr (e\<lparr>we_QueueChan := we_QueueChan e @
              [NewStopQueueMsg (er_Name rq) (er_PipelineFile rq) (er_JobDetailId rq)]\<rparr>))
      | MT_STATUS \<Rightarrow> then_do (the_ref (msg_ExecReq msg)) (\<lambda>rq. Inr (sendJobStatus rq e))
      | _ \<Rightarrow> Inr e)"

definition worker_receive :: "workerEngine \<Rightarrow> workerEngine go" where
  "worker_receive e =
     (case gc_RecvMsgChan (we_rpcClient e) of
        [] \<Rightarrow> Inr e
      | msg # rest \<Rightarrow>
          worker_handle_message msg
            (e\<lparr>we_rpcClient := (we_rpcClient e)\<lparr>gc_RecvMsgChan := rest\<rparr>\<rparr>))"

text \<open>The executor client takes one message from the queue.\<close>

definition worker_queue :: "exec_env \<Rightarrow> ('h, 'x) action_lib \<Rightarrow> 'x world \<Rightarrow> workerEngine \<Rightarrow>
    (workerEngine \<times> 'x world) go" where
  "worker_queue E L w e =
     (case we_QueueChan e of
        [] \<Rightarrow> Inr (e, w)
      | m # rest \<Rightarrow>
          then_do (handle_queue_message E L m (we_executor e, w\<lparr>w_fs := we_fs e\<rparr>)) (\<lambda>(ex, w').
            Inr (e\<lparr>we_QueueChan := rest, we_executor := ex, we_fs := w_fs w'\<rparr>, w')))"

section \<open>Logs, results and files for the master\<close>

definition getLogAndJobDetailMessage :: "string \<Rightarrow> string \<Rightarrow> int \<Rightarrow> workerEngine \<Rightarrow> AlineMessage res" where
  "getLogAndJobDetailMessage cfg jobName jobID e =
     (case GetJobLogString cfg jobName jobID (we_fs e) of
        Inl err \<Rightarrow> Inl (''get job log string error: '' @ err)
      | Inr logString \<Rightarrow>
          (case ReadStringJobDetail cfg jobName jobID (we_fs e) of
             Inl err \<Rightarrow> Inl (''get job detail string failed: '' @ err)
           | Inr jobDetailString \<Rightarrow>
               Inr ((plain_msg MT_LOG (we_name e) (we_address e))
                 \<lparr>msg_ExecReq := Some \<lparr>er_Name = jobName, er_PipelineFile = jobDetailString,
                    er_JobDetailId = jobID\<rparr>, msg_Log := logString\<rparr>)))"

definition file_msg :: "workerEngine \<Rightarrow> ApiFile \<Rightarrow> AlineMessage option" where
  "file_msg e f = Some ((plain_msg MT_FILE (we_name e) (we_address e))\<lparr>msg_File := Some f\<rparr>)"

definition put_files :: "ApiFile list res \<Rightarrow> workerEngine \<Rightarrow> workerEngine" where
  "put_files r e = (case r of Inl err \<Rightarrow> e | Inr fs \<Rightarrow> fold (\<lambda>f. worker_put (file_msg e f)) fs e)"

definition result_msg :: "workerEngine \<Rightarrow> StatusChangeMessage \<Rightarrow> AlineMessage" where
  "result_msg e m = (plain_msg MT_RESULT (we_name e) (we_address e))
     \<lparr>msg_Result := Some \<lparr>res_JobName = scm_JobName m, res_JobID = scm_JobId m,
        res_JobStatus = status_int (scm_Status m), res_Error = []\<rparr>\<rparr>"

text \<open>
  One round of \<open>handleDoneJob\<close>.  The error of \<open>getLogAndJobDetailMessage\<close> is dropped: the message put on
  the channel is then nil.
\<close>

definition handleDoneJob_round :: "string \<Rightarrow> workerEngine \<Rightarrow> workerEngine go" where
  "handleDoneJob_round cfg e =
     (case ex_StatusChan (we_executor e) of
        [] \<Rightarrow> Inr e
      | m # rest \<Rightarrow>
          (let e1 = e\<lparr>we_executor := (we_executor e)\<lparr>ex_StatusChan := rest\<rparr>,
                 we_doneJobList := m_store (FormatJobToString (scm_JobName m) (scm_JobId m)) ()
                   (we_doneJobList e)\<rparr>;
               finish = (\<lambda>e'. Inr (worker_put (Some (result_msg e' m)) e')) in
           if we_address e1 = local_address then finish e1
           else
             (let e2 = worker_put (case getLogAndJobDetailMessage cfg (scm_JobName m) (scm_JobId m) e1 of
                    Inl err \<Rightarrow> None | Inr logMsg \<Rightarrow> Some logMsg) e1 in
              then_do (GetJobCheckFilesData cfg (scm_JobName m) (Itoa (scm_JobId m)) (we_fs e2)) (\<lambda>reports.
              then_do (GetJobArtifactoryFilesData cfg (scm_JobName m) (Itoa (scm_JobId m)) (we_fs e2)) (\<lambda>arts.
                finish (put_files arts (put_files reports e2)))))))"

text \<open>
  One round of a log goroutine: what is left of it, and the worker.  A goroutine that sees the
  done flag of its job removes the flag and ends; one that cannot read the log ends when it has
  counted more than ten errors.
\<close>

definition log_round :: "string \<Rightarrow> log_stream \<Rightarrow> workerEngine \<Rightarrow> log_stream option \<times> workerEngine" where
  "log_round cfg ls e =
     (let key = FormatJobToString (ls_Name ls) (ls_Id ls) in
      if m_load (we_doneJobList e) key \<noteq> None
      then (None, e\<lparr>we_doneJobList := m_delete key (we_doneJobList e)\<rparr>)
      else (case getLogAndJobDetailMessage cfg (ls_Name ls) (ls_Id ls) e of
          Inl err \<Rightarrow>
            if ls_errorCounter ls > 10 then (None, e)
            else (Some (ls\<lparr>ls_errorCounter := ls_errorCounter ls + 1\<rparr>), e)
        | Inr logMsg \<Rightarrow> (Some ls, worker_put (Some logMsg) e)))"

fun log_rounds :: "string \<Rightarrow> nat \<Rightarrow> log_stream option \<Rightarrow> workerEngine \<Rightarrow> log_stream option \<times> workerEngine" where
  "log_rounds cfg 0 ls e = (ls, e)"
| "log_rounds cfg (Suc n) None e = (None, e)"
| "log_rounds cfg (Suc n) (Some ls) e =
     (case log_round cfg ls e of (ls', e') \<Rightarrow> log_rounds cfg n ls' e')"

section \<open>Reporting a finished job\<close>

lemma worker_put_simps [simp]:
  "we_fs (worker_put m e) = we_fs e" "we_address (worker_put m e) = we_address e"
  "we_name (worker_put m e) = we_name e" "we_executor (worker_put m e) = we_executor e"
  "we_doneJobList (worker_put m e) = we_doneJobList e"
  "gc_SendMsgChan (we_rpcClient (worker_put m e)) = gc_SendMsgChan (we_rpcClient e) @ [m]"
  by (simp_all add: worker_put_def)

lemma fold_put:
  "gc_SendMsgChan (we_rpcClient (fold (\<lambda>f. worker_put (g f)) xs e)) =
     gc_SendMsgChan (we_rpcClient e) @ map g xs \<and>
   we_name (fold (\<lambda>f. worker_put (g f)) xs e) = we_name e \<and>
   we_address (fold (\<lambda>f. worker_put (g f)) xs e) = we_address e"
  by (induction xs arbitrary: e) simp_all

definition res_list :: "'a list res \<Rightarrow> 'a list" where
  "res_list r = (case r of Inl err \<Rightarrow> [] | Inr xs \<Rightarrow> xs)"

lemma put_files_sends:
  "gc_SendMsgChan (we_rpcClient (put_files r e)) =
     gc_SendMsgChan (we_rpcClient e) @ map (file_msg e) (res_list r)"
  "we_name (put_files r e) = we_name e" "we_address (put_files r e) = we_address e"
  using fold_put [of "file_msg e" _ e] by (auto simp: put_files_def res_list_def split: sum.splits)

lemma msg_same_node:
  "we_name e' = we_name e \<Longrightarrow> we_address e' = we_address e \<Longrightarrow> file_msg e' = file_msg e \<and> result_msg e' = result_msg e"
  by (intro conjI ext) (simp_all add: file_msg_def result_msg_def)

lemma done_round_sends:
  assumes "we_address e \<noteq> local_address" and "ex_StatusChan (we_executor e) = m # rest"
    and "GetJobCheckFilesData cfg (scm_JobName m) (Itoa (scm_JobId m)) (we_fs e) = Inr reports"
    and "GetJobArtifactoryFilesData cfg (scm_JobName m) (Itoa (scm_JobId m)) (we_fs e) = Inr arts"
  shows "\<exists>e'. handleDoneJob_round cfg e = Inr e' \<and>
    gc_SendMsgChan (we_rpcClient e') = gc_SendMsgChan (we_rpcClient e) @
      (case getLogAndJobDetailMessage cfg (scm_JobName m) (scm_JobId m) e of Inl err \<Rightarrow> None | Inr l \<Rightarrow> Some l) #
      map (file_msg e) (res_list reports @ res_list arts) @ [Some (result_msg e m)]"
proof -
  define e1 where "e1 = e\<lparr>we_executor := (we_executor e)\<lparr>ex_StatusChan := rest\<rparr>,
    we_doneJobList := m_store (FormatJobToString (scm_JobName m) (scm_JobId m)) () (we_doneJobList e)\<rparr>"
  have e1: "we_name e1 = we_name e" "we_address e1 = we_address e" "we_fs e1 = we_fs e"
    "we_rpcClient e1 = we_rpcClient e" by (simp_all add: e1_def)
  have log: "getLogAndJobDetailMessage cfg n i e1 = getLogAndJobDetailMessage cfg n i e" for n i
    by (simp add: getLogAndJobDetailMessage_def e1 split: sum.split)
  define e2 where "e2 = worker_put (case getLogAndJobDetailMessage cfg (scm_JobName m) (scm_JobId m) e of
      Inl err \<Rightarrow> None | Inr logMsg \<Rightarrow> Some logMsg) e1"
  define e3 where "e3 = put_files arts (put_files reports e2)"
  have n: "we_name e2 = we_name e" "we_address e2 = we_address e" by (simp_all add: e2_def e1)
  have "handleDoneJob_round cfg e = Inr (worker_put (Some (result_msg e3 m)) e3)"
    using assms by (simp add: handleDoneJob_round_def Let_def e1_def [symmetric] log e1 e2_def [symmetric]
        e3_def)
  moreover have "file_msg e2 = file_msg e" "file_msg (put_files reports e2) = file_msg e"
    "result_msg e3 = result_msg e"
    using msg_same_node [of e2 e] msg_same_node [of "put_files reports e2" e] msg_same_node [of e3 e] n
    by (simp_all add: put_files_sends e3_def)
  ultimately show ?thesis by (simp add: e3_def put_files_sends) (simp add: e2_def e1)
qed

fun master_handle_all :: "string \<Rightarrow> int \<Rightarrow> AlineMessage list \<Rightarrow> masterEngine \<Rightarrow> masterEngine go" where
  "master_handle_all cfg now [] e = Inr e"
| "master_handle_all cfg now (msg # msgs) e =
     then_do (handle_message cfg now msg e) (master_handle_all cfg now msgs)"

lemma master_handle_append:
  "master_handle_all cfg now (xs @ ys) e = then_do (master_handle_all cfg now xs e) (master_handle_all cfg now ys)"
  by (induction xs arbitrary: e) (auto simp: then_do_def split: sum.splits)

lemma handle_files:
  assumes "\<forall>m \<in> set msgs. msg_Type m = MT_FILE \<and> msg_File m \<noteq> None"
  shows "\<exists>e'. master_handle_all cfg now msgs e = Inr e' \<and>
    me_statusChangeChan e' = me_statusChangeChan e \<and> me_dispatch e' = me_dispatch e"
  using assms
proof (induction msgs arbitrary: e)
  case (Cons m msgs)
  then obtain f where f: "msg_Type m = MT_FILE" "msg_File m = Some f" by auto
  define e1 where "e1 = e\<lparr>me_fs := snd (saveFile cfg f (me_fs e))\<rparr>"
  have "\<forall>m \<in> set msgs. msg_Type m = MT_FILE \<and> msg_File m \<noteq> None" using Cons.prems by simp
  from Cons.IH [OF this, of e1] f show ?case
    by (auto simp: handle_message_def the_ref_def e1_def)
qed simp


section \<open>The master's copy of log and detail\<close>

text \<open>
  A LOG message the master could store makes its copies of the log and of the job detail equal to the
  worker's, whatever they were before.
\<close>

theorem log_mirrored:
  assumes "getLogAndJobDetailMessage wcfg n jid e = Inr msg"
    and "list_all good_comp cs" and "good_comp n"
    and "SaveJobLogString (abs_path cs) n jid (msg_Log msg) (me_fs me) = (None, fs1)"
    and "SaveStringJobDetail (abs_path cs) n jid (er_PipelineFile (the (msg_ExecReq msg))) fs1 = (None, fs2)"
  shows "\<exists>me'. handle_message (abs_path cs) now msg me = Inr me' \<and>
    GetJobLogString (abs_path cs) n jid (me_fs me') = GetJobLogString wcfg n jid (we_fs e) \<and>
    ReadStringJobDetail (abs_path cs) n jid (me_fs me') = ReadStringJobDetail wcfg n jid (we_fs e)"
proof -
  obtain logString detail where l: "GetJobLogString wcfg n jid (we_fs e) = Inr logString"
    "ReadStringJobDetail wcfg n jid (we_fs e) = Inr detail"
    "msg_Type msg = MT_LOG" "msg_Log msg = logString"
    "msg_ExecReq msg = Some \<lparr>er_Name = n, er_PipelineFile = detail, er_JobDetailId = jid\<rparr>"
    using assms(1) by (auto simp: getLogAndJobDetailMessage_def split: sum.splits)
  have s: "saveStringToFile (getJobDetailLogPath (abs_path cs) n jid) logString (me_fs me) = (None, fs1)"
    "saveStringToFile (GetJobDetailFilePath (abs_path cs) n jid) detail fs1 = (None, fs2)"
    using assms(4,5) l by (simp_all add: SaveJobLogString_def SaveStringJobDetail_def)
  have "path_of (getJobDetailLogPath (abs_path cs) n jid) \<noteq> path_of (GetJobDetailFilePath (abs_path cs) n jid)"
    using assms(2,3) by (simp add: store_keys)
  from ts.save_twice [OF s this]
  have "GetJobLogString (abs_path cs) n jid fs2 = Inr logString"
    "ReadStringJobDetail (abs_path cs) n jid fs2 = Inr detail"
    by (simp_all add: GetJobLogString_def ReadStringJobDetail_def)
  then show ?thesis
    using l assms(4,5) by (intro exI [of _ "me\<lparr>me_fs := fs2\<rparr>"])
      (simp add: handle_message_def the_ref_def Let_def)
qed

section \<open>A cancelled job without a log\<close>

text \<open>
  A CANCEL for a job that has no log on the worker stops a remote worker's process: the cancel
  reports the job as stopped, the report puts a nil message on the channel, and the send loop
  dereferences it after the message was sent.
\<close>

theorem cancel_crashes_worker:
  assumes "we_address e \<noteq> local_address"
    and "gc_RecvMsgChan (we_rpcClient e) = [msg]" and "gc_SendMsgChan (we_rpcClient e) = []"
    and "we_QueueChan e = []" and "ex_StatusChan (we_executor e) = []"
    and "msg_Type msg = MT_CANCEL" and "msg_ExecReq msg = Some rq"
    and "getLogAndJobDetailMessage cfg (er_Name rq) (er_JobDetailId rq) e = Inl err"
    and "GetJobCheckFilesData cfg (er_Name rq) (Itoa (er_JobDetailId rq)) (we_fs e) = Inr reports"
    and "GetJobArtifactoryFilesData cfg (er_Name rq) (Itoa (er_JobDetailId rq)) (we_fs e) = Inr arts"
    and "send None = None"
  shows "\<exists>e1 e2 w' e3. worker_receive e = Inr e1 \<and> worker_queue E L w e1 = Inr (e2, w') \<and>
    handleDoneJob_round cfg e2 = Inr e3 \<and> client_send send (we_rpcClient e3) = Inl PanicNil"
proof -
  let ?n = "er_Name rq" and ?i = "er_JobDetailId rq"
  define e1 where "e1 = e\<lparr>we_rpcClient := (we_rpcClient e)\<lparr>gc_RecvMsgChan := []\<rparr>,
    we_QueueChan := [NewStopQueueMsg ?n (er_PipelineFile rq) ?i]\<rparr>"
  have r: "worker_receive e = Inr e1"
    using assms(2,4,6,7) by (simp add: worker_receive_def worker_handle_message_def the_ref_def e1_def)
  define e2 where "e2 = e1\<lparr>we_QueueChan := [], we_executor := Cancel ?n ?i (we_executor e)\<rparr>"
  have q: "worker_queue E L w e1 = Inr (e2, w\<lparr>w_fs := we_fs e\<rparr>)"
    by (simp add: worker_queue_def e1_def e2_def handle_queue_message_def NewStopQueueMsg_def)
  have s: "ex_StatusChan (we_executor e2) = [NewStatusChangeMsg ?n ?i STATUS_STOP]"
    using assms(5) by (simp add: e2_def Cancel_def ex_send_def Let_def split: option.splits)
  have same: "we_address e2 = we_address e" "we_fs e2 = we_fs e"
    "gc_SendMsgChan (we_rpcClient e2) = []" "getLogAndJobDetailMessage cfg ?n ?i e2 = Inl err"
    using assms(3,8) by (simp_all add: e2_def e1_def getLogAndJobDetailMessage_def split: sum.splits)
  have "we_address e2 \<noteq> local_address"
    "GetJobCheckFilesData cfg (scm_JobName (NewStatusChangeMsg ?n ?i STATUS_STOP))
       (Itoa (scm_JobId (NewStatusChangeMsg ?n ?i STATUS_STOP))) (we_fs e2) = Inr reports"
    "GetJobArtifactoryFilesData cfg (scm_JobName (NewStatusChangeMsg ?n ?i STATUS_STOP))
       (Itoa (scm_JobId (NewStatusChangeMsg ?n ?i STATUS_STOP))) (we_fs e2) = Inr arts"
    using assms(1,9,10) same by (simp_all add: NewStatusChangeMsg_def)
  from done_round_sends [OF this(1) s this(2,3)] obtain e3 rest where
    "handleDoneJob_round cfg e2 = Inr e3" "gc_SendMsgChan (we_rpcClient e3) = None # rest"
    using same by (auto simp: NewStatusChangeMsg_def)
  moreover from this have "client_send send (we_rpcClient e3) = Inl PanicNil"
    using assms(11) by (simp add: client_send_def)
  ultimately show ?thesis using r q by blast
qed

section \<open>The log goroutine\<close>

lemma log_rounds_error:
  assumes "m_load (we_doneJobList e) (FormatJobToString (ls_Name ls) (ls_Id ls)) = None"
    and "getLogAndJobDetailMessage cfg (ls_Name ls) (ls_Id ls) e = Inl err"
  shows "ls_errorCounter ls + int n \<le> 11 \<Longrightarrow>
    log_rounds cfg n (Some ls) e = (Some (ls\<lparr>ls_errorCounter := ls_errorCounter ls + int n\<rparr>), e)"
  using assms
proof (induction n arbitrary: ls)
  case (Suc n)
  have "log_round cfg ls e = (Some (ls\<lparr>ls_errorCounter := ls_errorCounter ls + 1\<rparr>), e)"
    using Suc.prems by (simp add: log_round_def)
  then show ?case
    using Suc.IH [of "ls\<lparr>ls_errorCounter := ls_errorCounter ls + 1\<rparr>"] Suc.prems by (simp add: algebra_simps)
qed simp

lemma log_rounds_add:
  "log_rounds cfg (m + n) ls e = (case log_rounds cfg m ls e of (ls', e') \<Rightarrow> log_rounds cfg n ls' e')"
proof (induction m arbitrary: ls e)
  case (Suc m)
  show ?case
  proof (cases ls)
    case None
    then show ?thesis by (cases n) simp_all
  next
    case (Some l)
    then show ?thesis using Suc.IH by (cases "log_round cfg l e") simp
  qed
qed simp

text \<open>
  C19. The goroutine that streams a job's log ends: a job whose log never appears is given up in the
  twelfth round, and not before, with nothing sent; a job marked as done ends it in its next
  round, and takes the mark away.  A mark that is left from an earlier run (whose goroutine gave
  up) therefore ends the streaming of the next run before its first log.
\<close>

theorem log_stream_ends:
  assumes "ls_errorCounter ls = 0"
  shows "if m_load (we_doneJobList e) (FormatJobToString (ls_Name ls) (ls_Id ls)) = None
    then (\<forall>err. getLogAndJobDetailMessage cfg (ls_Name ls) (ls_Id ls) e = Inl err \<longrightarrow>
      fst (log_rounds cfg 11 (Some ls) e) \<noteq> None \<and> log_rounds cfg 12 (Some ls) e = (None, e))
    else log_rounds cfg (Suc n) (Some ls) e = (None, e\<lparr>we_doneJobList :=
        m_delete (FormatJobToString (ls_Name ls) (ls_Id ls)) (we_doneJobList e)\<rparr>)"
proof (cases "m_load (we_doneJobList e) (FormatJobToString (ls_Name ls) (ls_Id ls)) = None")
  case True
  have "fst (log_rounds cfg 11 (Some ls) e) \<noteq> None \<and> log_rounds cfg 12 (Some ls) e = (None, e)"
    if err: "getLogAndJobDetailMessage cfg (ls_Name ls) (ls_Id ls) e = Inl err" for err
  proof -
    have l: "log_rounds cfg 11 (Some ls) e = (Some (ls\<lparr>ls_errorCounter := 11\<rparr>), e)"
      using log_rounds_error [OF True err, of 11] assms by simp
    have "log_rounds cfg 1 (Some (ls\<lparr>ls_errorCounter := 11\<rparr>)) e = (None, e)"
      using True err by (simp add: log_round_def)
    with l show ?thesis using log_rounds_add [of cfg 11 1 "Some ls" e] by simp
  qed
  with True show ?thesis by simp
next
  case False
  then show ?thesis by (cases n) (auto simp: log_round_def)
qed

section \<open>Witnesses\<close>

definition demo_worker_fs :: fs where
  "demo_worker_fs = snd (SaveJobLogString ''/p'' ''j'' 1 ''l'' demo_jobs)"

definition demo_worker :: "StatusChangeMessage list \<Rightarrow> AlineMessage list \<Rightarrow> workerEngine" where
  "demo_worker sts msgs = \<lparr>we_name = ''w'', we_address = ''10.0.0.1'', we_masterAddress = ''10.0.0.9:50001'',
     we_QueueChan = [], we_executor = NewExecutor\<lparr>ex_StatusChan := sts\<rparr>,
     we_rpcClient = NewGrpcClient\<lparr>gc_RecvMsgChan := msgs\<rparr>, we_doneJobList = [], we_streams = [],
     we_fs = demo_worker_fs\<rparr>"

definition demo_log_msg :: AlineMessage where
  "demo_log_msg = (plain_msg MT_LOG ''w'' ''10.0.0.1'')
     \<lparr>msg_ExecReq := Some \<lparr>er_Name = ''j'', er_PipelineFile = ''run'', er_JobDetailId = 1\<rparr>, msg_Log := ''l''\<rparr>"

lemma demo_worker_fs_log: "GetJobLogString ''/p'' ''j'' 1 demo_worker_fs = Inr ''l''"
  by code_simp

lemma demo_worker_log: "getLogAndJobDetailMessage ''/p'' ''j'' 1 (demo_worker sts msgs) = Inr demo_log_msg"
proof -
  have "ReadStringJobDetail ''/p'' ''j'' 1 demo_worker_fs = Inr ''run''" by code_simp
  then show ?thesis using demo_worker_fs_log by (simp add: getLogAndJobDetailMessage_def demo_worker_def demo_log_msg_def)
qed

lemma demo_worker_none:
  "GetJobLogString ''/p'' ''k'' 1 demo_worker_fs = Inl ''file not exist''"
  "GetJobCheckFilesData ''/p'' ''j'' (Itoa 1) demo_worker_fs = Inr (Inl ''no such file or directory'')"
  "GetJobArtifactoryFilesData ''/p'' ''j'' (Itoa 1) demo_worker_fs = Inr (Inl ''no such file or directory'')"
  "GetJobCheckFilesData ''/p'' ''k'' (Itoa 1) demo_worker_fs = Inr (Inl ''no such file or directory'')"
  "GetJobArtifactoryFilesData ''/p'' ''k'' (Itoa 1) demo_worker_fs = Inr (Inl ''no such file or directory'')"
  by code_simp+

lemma demo_worker_simps [simp]:
  "we_address (demo_worker sts msgs) \<noteq> local_address" "we_fs (demo_worker sts msgs) = demo_worker_fs"
  "ex_StatusChan (we_executor (demo_worker sts msgs)) = sts" "we_QueueChan (demo_worker sts msgs) = []"
  "gc_RecvMsgChan (we_rpcClient (demo_worker sts msgs)) = msgs" "we_doneJobList (demo_worker sts msgs) = []"
  "gc_SendMsgChan (we_rpcClient (demo_worker sts msgs)) = []"
  by (simp_all add: demo_worker_def NewGrpcClient_def)

lemma demo_worker_no_log:
  "getLogAndJobDetailMessage ''/p'' ''k'' 1 (demo_worker sts msgs) = Inl ''get job log string error: file not exist''"
  by (simp add: getLogAndJobDetailMessage_def demo_worker_none)


theorem log_mirrored_witness:
  "\<exists>me'. handle_message (abs_path [''m'']) 7 demo_log_msg (newMaster demo_fs) = Inr me' \<and>
     GetJobLogString (abs_path [''m'']) ''j'' 1 (me_fs me') = Inr ''l''"
proof -
  have s: "fst (SaveJobLogString (abs_path [''m'']) ''j'' 1 ''l'' demo_fs) = None"
    "fst (SaveStringJobDetail (abs_path [''m'']) ''j'' 1 ''run''
       (snd (SaveJobLogString (abs_path [''m'']) ''j'' 1 ''l'' demo_fs))) = None"
    by code_simp+
  define fs1 where "fs1 = snd (SaveJobLogString (abs_path [''m'']) ''j'' 1 ''l'' demo_fs)"
  define fs2 where "fs2 = snd (SaveStringJobDetail (abs_path [''m'']) ''j'' 1 ''run'' fs1)"
  have "SaveJobLogString (abs_path [''m'']) ''j'' 1 (msg_Log demo_log_msg) (me_fs (newMaster demo_fs)) = (None, fs1)"
    "SaveStringJobDetail (abs_path [''m'']) ''j'' 1 (er_PipelineFile (the (msg_ExecReq demo_log_msg))) fs1 = (None, fs2)"
    using s by (simp_all add: demo_log_msg_def newMaster_def fs1_def fs2_def prod_eq_iff)
  moreover have "GetJobLogString ''/p'' ''j'' 1 (we_fs (demo_worker [] [])) = Inr ''l''"
    using demo_worker_fs_log by simp
  ultimately show ?thesis
    using log_mirrored [of "''/p''" "''j''" 1 "demo_worker [] []" demo_log_msg "[''m'']" "newMaster demo_fs"
        fs1 fs2 7] demo_worker_log
    by (auto simp: good_comp_def dot_def dotdot_def)
qed

theorem cancel_crashes_worker_witness:
  "\<exists>e1 e2 w' e3. worker_receive (demo_worker [] [CancelJobWithNode ''k'' 1 node_a]) = Inr e1 \<and>
     worker_queue demo_env demo_lib demo_world e1 = Inr (e2, w') \<and> handleDoneJob_round ''/p'' e2 = Inr e3 \<and>
     client_send (\<lambda>m. None) (we_rpcClient e3) = Inl PanicNil"
  using cancel_crashes_worker [of "demo_worker [] [CancelJobWithNode ''k'' 1 node_a]"
      "CancelJobWithNode ''k'' 1 node_a" "\<lparr>er_Name = ''k'', er_PipelineFile = [], er_JobDetailId = 1\<rparr>"
      "''/p''" _ _ _ "\<lambda>m. None" demo_env demo_lib demo_world] demo_worker_no_log demo_worker_none(4,5)
  by (simp add: CancelJobWithNode_def)

theorem log_stream_ends_witness:
  "log_rounds ''/p'' 12 (Some \<lparr>ls_Name = ''k'', ls_Id = 1, ls_errorCounter = 0\<rparr>) (demo_worker [] []) =
     (None, demo_worker [] [])"
  using log_stream_ends [of "\<lparr>ls_Name = ''k'', ls_Id = 1, ls_errorCounter = 0\<rparr>" "demo_worker [] []" "''/p''"]
    demo_worker_no_log
  by (simp del: log_rounds.simps)

end
