(* ===== verification/Engine.thy ===== *)
theory Engine
  imports Worker
begin

text \<open>
  \<open>engine.go\<close>: the interface of the library.  An engine has a role; a master engine holds a master part
  and a worker part that share the machine's file system, a worker engine only a worker part.  Most
  operations are those of the job store; the ones that send messages are for the master alone.
  The parameters of the store (YAML, directory, clock, formats) form the record \<open>store_env\<close>.
\<close>

datatype Role = RoleMaster | RoleWorker

record engine =
  eg_role :: Role
  eg_master :: masterEngine
  eg_worker :: workerEngine
  eg_fs :: fs

record store_env =
  se_yaml :: yaml_lib
  se_cfg :: string
  se_now :: time
  se_stage_order :: range_order
  se_format :: time_format
  se_map_order :: "string list \<Rightarrow> string list"
  se_ctime :: "string \<Rightarrow> time"
  se_sort_jobs :: "JobVo list \<Rightarrow> JobVo list"
  se_sort_details :: "JobDetail list \<Rightarrow> JobDetail list"

type_synonym pauses = "nat \<Rightarrow> GrpcDispatcher \<Rightarrow> GrpcDispatcher"

section \<open>Construction\<close>

definition NewMasterEngine :: "string \<Rightarrow> (error option) \<Rightarrow> (error option) \<Rightarrow> int \<Rightarrow> fs \<Rightarrow> engine res go" where
  "NewMasterEngine hostname listen dial listenPort fs =
     (case listen of
        Some err \<Rightarrow> Inr (Inl err)
      | None \<Rightarrow>
          then_do (newWorkerEngine hostname [] dial (''127.0.0.1:'' @ Itoa listenPort) fs) (\<lambda>r.
            case r of
              Inl err \<Rightarrow> Inr (Inl err)
            | Inr w \<Rightarrow> Inr (Inr \<lparr>eg_role = RoleMaster, eg_master = newMaster fs, eg_worker = w, eg_fs = fs\<rparr>)))"

definition NewWorkerEngine :: "string \<Rightarrow> string \<Rightarrow> (error option) \<Rightarrow> string \<Rightarrow> fs \<Rightarrow> engine res go" where
  "NewWorkerEngine hostname myIP dial masterAddress fs =
     then_do (newWorkerEngine hostname myIP dial masterAddress fs) (\<lambda>r.
       case r of
         Inl err \<Rightarrow> Inr (Inl err)
       | Inr w \<Rightarrow> Inr (Inr \<lparr>eg_role = RoleWorker, eg_master = newMaster fs, eg_worker = w, eg_fs = fs\<rparr>))"

section \<open>Operations of the job store\<close>

definition on_fs :: "(fs \<Rightarrow> error option \<times> fs) \<Rightarrow> engine \<Rightarrow> error option \<times> engine" where
  "on_fs f e = (case f (eg_fs e) of (err, fs) \<Rightarrow> (err, e\<lparr>eg_fs := fs\<rparr>))"

definition eg_CreateJob :: "store_env \<Rightarrow> string \<Rightarrow> string \<Rightarrow> engine \<Rightarrow> error option \<times> engine" where
  "eg_CreateJob S name y e = on_fs (SaveJob (se_cfg S) name y) e"

definition eg_SaveJobParams :: "store_env \<Rightarrow> string \<Rightarrow> (string, string) gomap option \<Rightarrow> engine \<Rightarrow>
    error option \<times> engine" where
  "eg_SaveJobParams S name params e = on_fs (SaveJobParams (se_yaml S) (se_cfg S) name params) e"

definition eg_SaveJobUserId :: "store_env \<Rightarrow> string \<Rightarrow> string \<Rightarrow> engine \<Rightarrow> (error option \<times> engine) go" where
  "eg_SaveJobUserId S name userId e =
     then_do (SaveJobUserId (se_yaml S) (se_cfg S) name userId (eg_fs e)) (\<lambda>(err, fs). Inr (err, e\<lparr>eg_fs := fs\<rparr>))"

definition eg_DeleteJob :: "store_env \<Rightarrow> string \<Rightarrow> engine \<Rightarrow> error option \<times> engine" where
  "eg_DeleteJob S name e = on_fs (DeleteJob (se_cfg S) name) e"

definition eg_UpdateJob :: "store_env \<Rightarrow> string \<Rightarrow> string \<Rightarrow> string \<Rightarrow> engine \<Rightarrow> error option \<times> engine" where
  "eg_UpdateJob S name newName jobYaml e = on_fs (UpdateJob (se_cfg S) name newName jobYaml) e"

definition eg_GetJob :: "store_env \<Rightarrow> string \<Rightarrow> engine \<Rightarrow> Job res" where
  "eg_GetJob S name e = GetJobObject (se_yaml S) (se_cfg S) name (eg_fs e)"

definition eg_GetJobs :: "store_env \<Rightarrow> string \<Rightarrow> int \<Rightarrow> int \<Rightarrow> engine \<Rightarrow> JobPage res go" where
  "eg_GetJobs S keyword page psize e =
     JobList (se_yaml S) (se_cfg S) (se_now S) (se_ctime S) (se_sort_jobs S) keyword page psize (eg_fs e)"

definition eg_GetJobHistory :: "store_env \<Rightarrow> string \<Rightarrow> int \<Rightarrow> engine \<Rightarrow> JobDetail res" where
  "eg_GetJobHistory S name jid e = GetJobDetail (se_yaml S) (se_cfg S) (se_now S) name jid (eg_fs e)"

definition eg_GetCodeInfo :: "store_env \<Rightarrow> string \<Rightarrow> int \<Rightarrow> engine \<Rightarrow> CodeInfo res" where
  "eg_GetCodeInfo S name historyId e =
     then_do (GetJobDetail (se_yaml S) (se_cfg S) (se_now S) name historyId (eg_fs e)) (\<lambda>jd.
       Inr (ar_CodeInfo (jd_ActionResult jd)))"

definition eg_DeleteJobHistory :: "store_env \<Rightarrow> string \<Rightarrow> int \<Rightarrow> engine \<Rightarrow> error option \<times> engine" where
  "eg_DeleteJobHistory S name jid e = on_fs (DeleteJobDetail (se_cfg S) name jid) e"

definition eg_CreateJobDetail :: "store_env \<Rightarrow> string \<Rightarrow> int \<Rightarrow> engine \<Rightarrow>
    (JobDetail \<times> error option) res \<times> engine" where
  "eg_CreateJobDetail S name jid e =
     (case CreateJobDetail (se_yaml S) (se_cfg S) (se_stage_order S) (se_now S) name jid (eg_fs e) of
        (r, fs) \<Rightarrow> (r, e\<lparr>eg_fs := fs\<rparr>))"

definition eg_GetJobHistorys :: "store_env \<Rightarrow> string \<Rightarrow> int \<Rightarrow> int \<Rightarrow> engine \<Rightarrow> JobDetailPage res go" where
  "eg_GetJobHistorys S name page psize e =
     JobDetailList (se_yaml S) (se_cfg S) (se_sort_details S) name page psize (eg_fs e)"

definition eg_GetJobHistoryLog :: "store_env \<Rightarrow> string \<Rightarrow> int \<Rightarrow> engine \<Rightarrow> JobLog res" where
  "eg_GetJobHistoryLog S name jid e = GetJobLog (se_format S) (se_map_order S) (se_cfg S) name jid (eg_fs e)"

definition eg_GetJobHistoryStageLog :: "store_env \<Rightarrow> string \<Rightarrow> int \<Rightarrow> string \<Rightarrow> int \<Rightarrow> engine \<Rightarrow> JobStageLog res" where
  "eg_GetJobHistoryStageLog S name jid stageName start e =
     GetJobStageLog (se_yaml S) (se_format S) (se_map_order S) (se_cfg S) (se_now S) name jid stageName start
       (eg_fs e)"

definition eg_GetJobHistoryStepLog :: "store_env \<Rightarrow> string \<Rightarrow> int \<Rightarrow> string \<Rightarrow> string \<Rightarrow> engine \<Rightarrow>
    LogStep option res" where
  "eg_GetJobHistoryStepLog S name jid stageName stepName e =
     GetJobStepLog (se_format S) (se_map_order S) (se_cfg S) name jid stageName stepName (eg_fs e)"

section \<open>Operations of the master\<close>

text \<open>The master part runs on the engine's file system.\<close>

definition eg_dispatch :: "pauses \<Rightarrow> store_env \<Rightarrow> string \<Rightarrow> int \<Rightarrow> engine \<Rightarrow> (error option \<times> engine) go" where
  "eg_dispatch pause S name jid e =
     then_do (dispatchJob pause (se_cfg S) name jid ((eg_master e)\<lparr>me_fs := eg_fs e\<rparr>)) (\<lambda>(err, m).
       Inr (err, e\<lparr>eg_master := m, eg_fs := me_fs m\<rparr>))"

definition eg_ExecuteJob :: "pauses \<Rightarrow> store_env \<Rightarrow> string \<Rightarrow> int \<Rightarrow> engine \<Rightarrow>
    ((JobDetail option \<times> error option) \<times> engine) go" where
  "eg_ExecuteJob pause S name jid e =
     (if eg_role e \<noteq> RoleMaster then Inr ((None, Some ''only master can execute job''), e)
      else (case eg_CreateJobDetail S name jid e of
          (Inl err, e1) \<Rightarrow> Inr ((None, Some err), e1)
        | (Inr (jd, Some err), e1) \<Rightarrow> Inr ((None, Some err), e1)
        | (Inr (jd, None), e1) \<Rightarrow>
            then_do (eg_dispatch pause S name (jd_Id jd) e1) (\<lambda>(err, e2). Inr ((Some jd, err), e2))))"

definition eg_ExecuteJobDetail :: "pauses \<Rightarrow> store_env \<Rightarrow> string \<Rightarrow> int \<Rightarrow> engine \<Rightarrow> (error option \<times> engine) go" where
  "eg_ExecuteJobDetail pause S name jid e =
     (if eg_role e \<noteq> RoleMaster then Inr (Some ''only master can execute job detail'', e)
      else eg_dispatch pause S name jid e)"

definition eg_ReExecuteJob :: "pauses \<Rightarrow> store_env \<Rightarrow> string \<Rightarrow> int \<Rightarrow> engine \<Rightarrow> (error option \<times> engine) go" where
  "eg_ReExecuteJob pause S name jid e =
     (if eg_role e \<noteq> RoleMaster then Inr (Some ''only master can execute job'', e)
      else eg_dispatch pause S name jid e)"

definition eg_CancelJob :: "string \<Rightarrow> int \<Rightarrow> engine \<Rightarrow> error option \<times> engine" where
  "eg_CancelJob name jid e =
     (if eg_role e \<noteq> RoleMaster then (Some ''only master can cancel job'', e)
      else (case cancelJob name jid (eg_master e) of (err, m) \<Rightarrow> (err, e\<lparr>eg_master := m\<rparr>)))"

definition eg_TerminalJob :: "string \<Rightarrow> int \<Rightarrow> engine \<Rightarrow> error option \<times> engine" where
  "eg_TerminalJob name jid e =
     (if eg_role e \<noteq> RoleMaster then (Some ''only master can terminal job'', e)
      else (case cancelJob name jid (eg_master e) of (err, m) \<Rightarrow> (err, e\<lparr>eg_master := m\<rparr>)))"

text \<open>\<open>RegisterStatusChangeHook\<close>: the hook gets the messages of the channel in order, none on a worker.\<close>

definition registerStatusChangeHook :: "(StatusChangeMessage \<Rightarrow> 'x \<Rightarrow> 'x) option \<Rightarrow> masterEngine \<times> 'x \<Rightarrow>
    masterEngine \<times> 'x" where
  "registerStatusChangeHook hook st =
     (case (hook, me_statusChangeChan (fst st)) of
        (Some h, m # rest) \<Rightarrow> ((fst st)\<lparr>me_statusChangeChan := rest\<rparr>, h m (snd st))
      | _ \<Rightarrow> st)"

definition eg_RegisterStatusChangeHook :: "(StatusChangeMessage \<Rightarrow> 'x \<Rightarrow> 'x) option \<Rightarrow> engine \<times> 'x \<Rightarrow>
    engine \<times> 'x" where
  "eg_RegisterStatusChangeHook hook st =
     (if eg_role (fst st) \<noteq> RoleMaster then st
      else (case registerStatusChangeHook hook (eg_master (fst st), snd st) of
          (m, x) \<Rightarrow> ((fst st)\<lparr>eg_master := m\<rparr>, x)))"

definition eg_GetCurrentJobStatus :: "(nat \<Rightarrow> masterEngine \<Rightarrow> masterEngine) \<Rightarrow> string \<Rightarrow> int \<Rightarrow> engine \<Rightarrow>
    (Status \<times> error option) \<times> engine" where
  "eg_GetCurrentJobStatus pause jobName jobID e =
     (if eg_role e = RoleWorker then (worker_GetJobStatus jobName jobID (eg_worker e), e)
      else (case master_getJobStatus pause jobName jobID (eg_master e) of
          (r, m) \<Rightarrow> (r, e\<lparr>eg_master := m\<rparr>)))"

definition eg_IsValidWorker :: "string \<Rightarrow> engine \<Rightarrow> bool" where
  "eg_IsValidWorker w e \<longleftrightarrow> eg_role e \<noteq> RoleWorker \<and> isValidWorker w (eg_master e)"

text \<open>\<open>readLogLevelFromEnv\<close>; the parser of level names is logrus's.\<close>

definition readLogLevelFromEnv :: "(string \<Rightarrow> 'l res) \<Rightarrow> 'l \<Rightarrow> string \<Rightarrow> 'l" where
  "readLogLevelFromEnv parse info levelStr =
     (if levelStr = [] then info else (case parse levelStr of Inl err \<Rightarrow> info | Inr level \<Rightarrow> level))"

section \<open>A worker engine never dispatches\<close>

datatype engine_op =
    Op_ExecuteJob string int | Op_ExecuteJobDetail string int | Op_ReExecuteJob string int
  | Op_CancelJob string int | Op_TerminalJob string int | Op_Status string int
  | Op_CreateJob string string | Op_DeleteJob string | Op_UpdateJob string string string
  | Op_DeleteJobHistory string int | Op_CreateJobDetail string int

definition engine_step :: "pauses \<Rightarrow> (nat \<Rightarrow> masterEngine \<Rightarrow> masterEngine) \<Rightarrow> store_env \<Rightarrow> engine_op \<Rightarrow>
    engine \<Rightarrow> (error option \<times> engine) go" where
  "engine_step pause pause' S op e =
     (case op of
        Op_ExecuteJob n i \<Rightarrow> then_do (eg_ExecuteJob pause S n i e) (\<lambda>((jd, err), e'). Inr (err, e'))
      | Op_ExecuteJobDetail n i \<Rightarrow> eg_ExecuteJobDetail pause S n i e
      | Op_ReExecuteJob n i \<Rightarrow> eg_ReExecuteJob pause S n i e
      | Op_CancelJob n i \<Rightarrow> Inr (eg_CancelJob n i e)
      | Op_TerminalJob n i \<Rightarrow> Inr (eg_TerminalJob n i e)
      | Op_Status n i \<Rightarrow> (case eg_GetCurrentJobStatus pause' n i e of ((st, err), e') \<Rightarrow> Inr (err, e'))
      | Op_CreateJob n y \<Rightarrow> Inr (eg_CreateJob S n y e)
      | Op_DeleteJob n \<Rightarrow> Inr (eg_DeleteJob S n e)
      | Op_UpdateJob n m y \<Rightarrow> Inr (eg_UpdateJob S n m y e)
      | Op_DeleteJobHistory n i \<Rightarrow> Inr (eg_DeleteJobHistory S n i e)
      | Op_CreateJobDetail n i \<Rightarrow> (case eg_CreateJobDetail S n i e of (r, e') \<Rightarrow>
          Inr (case r of Inl err \<Rightarrow> Some err | Inr (jd, err) \<Rightarrow> err, e')))"

definition dispatching :: "engine_op \<Rightarrow> bool" where
  "dispatching op \<longleftrightarrow> (\<exists>n i. op \<in> {Op_ExecuteJob n i, Op_ExecuteJobDetail n i, Op_ReExecuteJob n i,
     Op_CancelJob n i, Op_TerminalJob n i})"

text \<open>
  On a worker engine every operation that would send a message to another node returns an error and
  changes nothing, no operation panics, and none touches the master part or the role.
\<close>

theorem worker_engine_passive:
  assumes "eg_role e = RoleWorker"
  shows "\<exists>err e'. engine_step pause pause' S op e = Inr (err, e') \<and> eg_role e' = RoleWorker \<and>
    eg_master e' = eg_master e \<and> eg_worker e' = eg_worker e \<and>
    (dispatching op \<longrightarrow> err \<noteq> None \<and> e' = e)"
  using assms
  by (cases op) (auto simp: engine_step_def eg_ExecuteJob_def eg_ExecuteJobDetail_def eg_ReExecuteJob_def
      eg_CancelJob_def eg_TerminalJob_def eg_GetCurrentJobStatus_def eg_CreateJob_def eg_DeleteJob_def
      eg_UpdateJob_def eg_DeleteJobHistory_def eg_CreateJobDetail_def on_fs_def dispatching_def
      split: prod.splits)

section \<open>A master engine never panics\<close>

definition keeps_inv :: "pauses \<Rightarrow> bool" where
  "keeps_inv pause \<longleftrightarrow> (\<forall>n d. disp_inv d \<longrightarrow> disp_inv (pause n d))"

definition keeps_master :: "(nat \<Rightarrow> masterEngine \<Rightarrow> masterEngine) \<Rightarrow> bool" where
  "keeps_master pause \<longleftrightarrow> (\<forall>n m. disp_inv (me_dispatch m) \<longrightarrow> disp_inv (me_dispatch (pause n m)))"

lemma retry_dispatch_inv:
  "keeps_inv pause \<Longrightarrow> disp_inv d \<Longrightarrow> \<exists>r d'. retry_dispatch pause n d = Inr (r, d') \<and> disp_inv d'"
proof (induction n arbitrary: d)
  case (Suc n)
  obtain r d1 where r: "DispatchNode d = Inr (r, d1)" using DispatchNode_total Suc.prems(2) by blast
  have d1: "disp_inv d1" by (rule DispatchNode_inv [OF Suc.prems(2) r])
  then have p: "disp_inv (pause n d1)" using Suc.prems(1) by (simp add: keeps_inv_def)
  show ?case
  proof (cases r)
    case (Inl err)
    with r p Suc.IH [OF Suc.prems(1) p] show ?thesis by auto
  qed (use r d1 in simp)
qed simp

lemma put_message_dispatch [simp]: "me_dispatch (put_message msg e) = me_dispatch e"
  by (simp add: put_message_def)

lemma dispatchJob_inv:
  assumes "keeps_inv pause" and "disp_inv (me_dispatch m)"
  shows "\<exists>err m'. dispatchJob pause cfg name jid m = Inr (err, m') \<and> disp_inv (me_dispatch m')"
proof -
  obtain r d where r: "retry_dispatch pause 3 (me_dispatch m) = Inr (r, d)" "disp_inv d"
    using retry_dispatch_inv [OF assms] by blast
  have "disp_inv d'" if "SendJob name y jid node d = (msg, d')" for y node msg d'
    by (rule SendJob_inv [OF r(2) that])
  with r show ?thesis
    by (auto simp: dispatchJob_def Let_def split: sum.splits prod.splits)
qed

lemma poll_status_inv:
  "keeps_master pause \<Longrightarrow> disp_inv (me_dispatch m) \<Longrightarrow> poll_status pause n key m = (r, m') \<Longrightarrow>
     disp_inv (me_dispatch m')"
proof (induction n arbitrary: m)
  case (Suc n)
  show ?case
  proof (cases "m_load (me_jobStatusMap m) key")
    case None
    with Suc show ?thesis by (auto simp: keeps_master_def)
  next
    case (Some st)
    with Suc.prems show ?thesis by auto
  qed
qed auto

lemma eg_dispatch_inv:
  assumes "keeps_inv pause" and "disp_inv (me_dispatch (eg_master e))"
  shows "\<exists>err e'. eg_dispatch pause S name jid e = Inr (err, e') \<and> disp_inv (me_dispatch (eg_master e')) \<and>
    eg_role e' = eg_role e"
  using dispatchJob_inv [of pause "(eg_master e)\<lparr>me_fs := eg_fs e\<rparr>" "se_cfg S" name jid] assms
  by (auto simp: eg_dispatch_def)

lemma eg_CreateJobDetail_frame:
  "eg_CreateJobDetail S name jid e = (r, e') \<Longrightarrow>
     eg_master e' = eg_master e \<and> eg_role e' = eg_role e"
  by (auto simp: eg_CreateJobDetail_def split: prod.splits)

lemma eg_cancel_frame:
  "cancelJob name jid m = (err, m') \<Longrightarrow> me_dispatch m' = me_dispatch m"
  by (auto simp: cancelJob_def split: sum.splits)

lemma engine_step_inv:
  assumes "keeps_inv pause" and "keeps_master pause'" and "disp_inv (me_dispatch (eg_master e))"
  shows "\<exists>err e'. engine_step pause pause' S op e = Inr (err, e') \<and> disp_inv (me_dispatch (eg_master e'))"
proof (cases op)
  case (Op_ExecuteJob n i)
  show ?thesis
  proof (cases "eg_CreateJobDetail S n i e")
    case (Pair r e1)
    then have e1: "disp_inv (me_dispatch (eg_master e1))" using eg_CreateJobDetail_frame assms(3) by metis
    show ?thesis
    proof (cases "eg_role e = RoleMaster \<and> (\<exists>jd. r = Inr (jd, None))")
      case True
      then obtain jd where jd: "r = Inr (jd, None)" by blast
      from eg_dispatch_inv [OF assms(1) e1, of S n "jd_Id jd"] True Pair jd Op_ExecuteJob show ?thesis
        by (auto simp: engine_step_def eg_ExecuteJob_def)
    next
      case False
      with Pair e1 assms(3) Op_ExecuteJob show ?thesis
        by (auto simp: engine_step_def eg_ExecuteJob_def split: sum.splits option.splits)
    qed
  qed
next
  case (Op_ExecuteJobDetail n i)
  with eg_dispatch_inv [OF assms(1,3), of S n i] assms(3) show ?thesis
    by (auto simp: engine_step_def eg_ExecuteJobDetail_def)
next
  case (Op_ReExecuteJob n i)
  with eg_dispatch_inv [OF assms(1,3), of S n i] assms(3) show ?thesis
    by (auto simp: engine_step_def eg_ReExecuteJob_def)
next
  case (Op_CancelJob n i)
  with assms(3) eg_cancel_frame show ?thesis
    by (auto simp: engine_step_def eg_CancelJob_def split: prod.splits)
next
  case (Op_TerminalJob n i)
  with assms(3) eg_cancel_frame show ?thesis
    by (auto simp: engine_step_def eg_TerminalJob_def split: prod.splits)
next
  case (Op_Status n i)
  have "disp_inv (me_dispatch m')" if "master_getJobStatus pause' n i (eg_master e) = (r, m')" for r m'
    using that assms(3) poll_status_inv [OF assms(2), of "put_message _ (eg_master e)"]
    by (auto simp: master_getJobStatus_def split: sum.splits)
  with Op_Status assms(3) show ?thesis
    by (auto simp: engine_step_def eg_GetCurrentJobStatus_def split: prod.splits)
qed (use assms(3) in \<open>auto simp: engine_step_def eg_CreateJob_def eg_DeleteJob_def eg_UpdateJob_def
    eg_DeleteJobHistory_def eg_CreateJobDetail_def on_fs_def split: prod.splits\<close>)

fun engine_run :: "pauses \<Rightarrow> (nat \<Rightarrow> masterEngine \<Rightarrow> masterEngine) \<Rightarrow> store_env \<Rightarrow> engine_op list \<Rightarrow>
    engine \<Rightarrow> engine go" where
  "engine_run pause pause' S [] e = Inr e"
| "engine_run pause pause' S (op # ops) e =
     then_do (engine_step pause pause' S op e) (\<lambda>(err, e'). engine_run pause pause' S ops e')"


section \<open>Executing a job\<close>

text \<open>
  C16. A job executed on a master engine reaches the queue of the worker: the EXECUTE message goes to the
  stream of the chosen node, with the job file as it is in the store, and the worker that receives
  it queues exactly that job and run.
\<close>

theorem execute_reaches_worker:
  assumes "eg_role e = RoleMaster"
    and "CreateJobDetail (se_yaml S) (se_cfg S) (se_stage_order S) (se_now S) name jid (eg_fs e) = (Inr (jd, None), fs1)"
    and "DispatchNode (me_dispatch (eg_master e)) = Inr (Inr node, d)"
    and "GetJob (se_cfg S) name fs1 = Inr y"
    and "gs_SendMsgChan (me_rpcServer (eg_master e)) = []"
    and "getConn (node_key node) (me_rpcServer (eg_master e)) = Some st"
    and "\<And>msg. send st msg = None"
  shows "\<exists>e1 msg m' w'. eg_ExecuteJob pause S name jid e = Inr ((Some jd, None), e1) \<and>
    master_send send (eg_master e1) = Inr (Some (st, msg), m') \<and> worker_handle_message msg w = Inr w' \<and>
    we_QueueChan w' = we_QueueChan w @ [NewStartQueueMsg name y jid]"
proof -
  have jid: "jd_Id jd = jid"
    using assms(2) by (auto simp: CreateJobDetail_def SaveJobDetail_def Let_def split: sum.splits prod.splits
        option.splits)
  let ?m = "(eg_master e)\<lparr>me_fs := fs1\<rparr>" and ?msg = "execute_msg name y jid node"
  define m1 where "m1 = put_message ?msg (?m\<lparr>me_dispatch := snd (SendJob name y jid node d)\<rparr>)"
  have "dispatchJob pause (se_cfg S) name jid ?m = Inr (None, m1)"
    unfolding m1_def using assms(3,4) by (intro dispatchJob_ok) simp_all
  then have x: "eg_ExecuteJob pause S name jid e = Inr ((Some jd, None), e\<lparr>eg_fs := me_fs m1, eg_master := m1\<rparr>)"
    using assms(1,2) jid by (simp add: eg_ExecuteJob_def eg_CreateJobDetail_def eg_dispatch_def)
  have "server_send send (me_rpcServer m1) = Inr (Some (st, ?msg), (me_rpcServer m1)\<lparr>gs_SendMsgChan := []\<rparr>)"
    using assms(5-7)
    by (intro server_send_ok) (simp_all add: m1_def put_message_def execute_msg_def getConn_def)
  then have s: "master_send send m1 = Inr (Some (st, ?msg), m1\<lparr>me_rpcServer := (me_rpcServer m1)\<lparr>gs_SendMsgChan := []\<rparr>\<rparr>)"
    by (simp add: master_send_def)
  have "\<exists>w'. worker_handle_message ?msg w = Inr w' \<and>
      we_QueueChan w' = we_QueueChan w @ [NewStartQueueMsg name y jid]"
    by (simp add: worker_handle_message_def execute_msg_def the_ref_def sendLogJobDetail_def)
  with x s show ?thesis by auto
qed


section \<open>Witnesses\<close>

definition demo_store :: store_env where
  "demo_store = \<lparr>se_yaml = demo_yaml, se_cfg = ''/p'', se_now = 1, se_stage_order = (\<lambda>i ks. ks),
     se_format = demo_format, se_map_order = (\<lambda>ks. ks), se_ctime = (\<lambda>p. 0), se_sort_jobs = (\<lambda>vs. vs),
     se_sort_details = (\<lambda>ds. ds)\<rparr>"

definition demo_engine :: "Role \<Rightarrow> masterEngine \<Rightarrow> engine" where
  "demo_engine r m = \<lparr>eg_role = r, eg_master = m, eg_worker = demo_worker [] [], eg_fs = demo_jobs\<rparr>"

lemma demo_engine_simps [simp]:
  "eg_role (demo_engine r m) = r" "eg_master (demo_engine r m) = m" "eg_fs (demo_engine r m) = demo_jobs"
  by (simp_all add: demo_engine_def)

theorem worker_engine_passive_witness:
  "\<exists>err. engine_step (\<lambda>i d. d) (\<lambda>i m. m) demo_store (Op_ExecuteJob ''j'' 2)
     (demo_engine RoleWorker lost_master) = Inr (Some err, demo_engine RoleWorker lost_master)"
  using worker_engine_passive [of "demo_engine RoleWorker lost_master" "\<lambda>i d. d" "\<lambda>i m. m" demo_store
      "Op_ExecuteJob ''j'' 2"]
  by (auto simp: dispatching_def)

lemma lost_master_inv: "disp_inv (me_dispatch lost_master)"
proof -
  have "disp_inv (disp_ab\<lparr>d_index := 1\<rparr>)"
    using disp_ab_inv by (simp add: disp_inv_def disp_ab_keys)
  from SendJob_inv [OF this surjective_pairing] show ?thesis by (simp add: lost_master_def)
qed


definition joined_master :: masterEngine where
  "joined_master = lost_master\<lparr>me_rpcServer := (me_rpcServer lost_master)
     \<lparr>gs_conns := [(node_key node_b, 7)]\<rparr>\<rparr>"

theorem execute_reaches_worker_witness:
  "\<exists>w'. (\<exists>(e1 :: engine) msg m'. master_send (\<lambda>st m. None) (eg_master e1) = Inr (Some (7, msg), m') \<and>
       worker_handle_message msg (demo_worker [] []) = Inr w') \<and>
     we_QueueChan w' = [NewStartQueueMsg ''j'' ''job'' 2]"
proof -
  define r where "r = CreateJobDetail demo_yaml ''/p'' (\<lambda>i ks. ks) 1 ''j'' 2 demo_jobs"
  have "(case fst r of Inr (jd, None) \<Rightarrow> True | _ \<Rightarrow> False)" "GetJob ''/p'' ''j'' (snd r) = Inr ''job''"
    unfolding r_def by code_simp+
  then obtain jd fs1 where c: "CreateJobDetail (se_yaml demo_store) (se_cfg demo_store) (se_stage_order demo_store)
      (se_now demo_store) ''j'' 2 (eg_fs (demo_engine RoleMaster joined_master)) = (Inr (jd, None), fs1)"
    and g: "GetJob (se_cfg demo_store) ''j'' fs1 = Inr ''job''"
    by (cases r) (auto simp: r_def demo_store_def split: sum.splits option.splits)
  obtain d where d: "DispatchNode (me_dispatch (eg_master (demo_engine RoleMaster joined_master))) = Inr (Inr node_b, d)"
    using lost_master_dispatch by (auto simp: joined_master_def)
  have "gs_SendMsgChan (me_rpcServer (eg_master (demo_engine RoleMaster joined_master))) = []"
    "getConn (node_key node_b) (me_rpcServer (eg_master (demo_engine RoleMaster joined_master))) = Some 7"
    using lost_master_facts(3) by (simp_all add: joined_master_def getConn_def m_load_def)
  from execute_reaches_worker [OF _ c d g this, of "\<lambda>st m. None" "\<lambda>i d. d" "demo_worker [] []"]
  obtain e1 :: engine and msg m' w' where "master_send (\<lambda>st m. None) (eg_master e1) = Inr (Some (7, msg), m')"
    "worker_handle_message msg (demo_worker [] []) = Inr w'"
    "we_QueueChan w' = we_QueueChan (demo_worker [] []) @ [NewStartQueueMsg ''j'' ''job'' 2]" by auto
  then show ?thesis by (intro exI [of _ w']) auto
qed

end
