(* ===== verification/Pipeline.thy ===== *)
theory Pipeline
  imports JobStore
begin

text \<open>
  \<open>pipeline/resolver.go\<close> (a job read from a file, a reader or a text) and \<open>pipeline/state.go\<close>,
  \<open>pipeline/state_machine.go\<close> (the states of a step).  The YAML decoder is an argument: it returns the
  job it filled in so far and its error, both of which the callers pass on.
\<close>

type_synonym yaml_decode = "string \<Rightarrow> Job \<times> error option"

definition GetJobFromReader :: "yaml_decode \<Rightarrow> string res \<Rightarrow> Job option \<times> error option" where
  "GetJobFromReader u reader =
     (case reader of
        Inl err \<Rightarrow> (None, Some err)
      | Inr content \<Rightarrow> (case u content of (job, err) \<Rightarrow> (Some job, err)))"

definition GetJobFromYaml :: "yaml_decode \<Rightarrow> string \<Rightarrow> Job option \<times> error option" where
  "GetJobFromYaml u yamlStr = (case u yamlStr of (job, err) \<Rightarrow> (Some job, err))"

text \<open>A directory can be opened, and fails when it is read.\<close>

definition Pipeline_GetJob :: "yaml_decode \<Rightarrow> string \<Rightarrow> fs \<Rightarrow> Job option \<times> error option" where
  "Pipeline_GetJob u p fs =
     (case Stat fs (path_of p) of
        Inl e \<Rightarrow> (None, Some (errno_msg e))
      | Inr n \<Rightarrow>
          if denied fs (path_of p) then (None, Some (errno_msg EACCES))
          else GetJobFromReader u (case n of FDir \<Rightarrow> Inl (errno_msg EISDIR) | FFile d \<Rightarrow> Inr d))"

lemma Pipeline_GetJob_file:
  "GetFileData p fs = Inr d \<Longrightarrow> Pipeline_GetJob u p fs = GetJobFromYaml u d"
  by (auto simp: GetFileData_def ReadFile_def Pipeline_GetJob_def GetJobFromReader_def GetJobFromYaml_def
      split: sum.splits fnode.splits if_splits)

section \<open>Step states\<close>

definition StateNotRun :: string where "StateNotRun = ''NotRun''"
definition StateRunning :: string where "StateRunning = ''Running''"
definition StateDone :: string where "StateDone = ''Done''"
definition StateFail :: string where "StateFail = ''Fail''"

datatype IStepState = NotRunInstance | RunningInstance | DoneInstance | FailInstance

record StepMachine =
  stepState :: IStepState

fun getState :: "IStepState \<Rightarrow> string" where
  "getState NotRunInstance = StateNotRun"
| "getState RunningInstance = StateRunning"
| "getState DoneInstance = StateDone"
| "getState FailInstance = StateFail"

fun step_execute :: "IStepState \<Rightarrow> StepMachine \<Rightarrow> StepMachine" where
  "step_execute NotRunInstance sm = sm\<lparr>stepState := RunningInstance\<rparr>"
| "step_execute RunningInstance sm = sm\<lparr>stepState := DoneInstance\<rparr>"
| "step_execute DoneInstance sm = sm"
| "step_execute FailInstance sm = sm"

definition InitialStepStateMachine :: StepMachine where
  "InitialStepStateMachine = \<lparr>stepState = NotRunInstance\<rparr>"

definition StepMachine_Run :: "StepMachine \<Rightarrow> StepMachine" where
  "StepMachine_Run s = step_execute (stepState s) s"

definition StepMachine_State :: "StepMachine \<Rightarrow> string" where
  "StepMachine_State s = getState (stepState s)"

text \<open>A step is done after two runs and stays done; the failed state is never reached.\<close>

lemma step_machine_runs:
  "StepMachine_State ((StepMachine_Run ^^ n) InitialStepStateMachine) =
     (if n = 0 then StateNotRun else if n = 1 then StateRunning else StateDone)"
proof -
  have "(StepMachine_Run ^^ n) InitialStepStateMachine = \<lparr>stepState =
      (if n = 0 then NotRunInstance else if n = 1 then RunningInstance else DoneInstance)\<rparr>"
    by (induction n) (auto simp: InitialStepStateMachine_def StepMachine_Run_def)
  then show ?thesis by (simp add: StepMachine_State_def)
qed

end
