(* ===== verification/Template.thy ===== *)
theory Template
  imports Utils
begin

text \<open>
  Text substitution: the \<open>${{ param.x }}\<close> placeholders of job files (\<open>utils/template.go\<close>) and the
  \<open>$VAR\<close> rendering of the workdir action (\<open>action/action_workdir.go\<close>).
\<close>

section \<open>Placeholders (utils/template.go)\<close>

definition open_mark :: string where "open_mark = ''${{''"
definition close_mark :: string where "close_mark = ''}}''"

text \<open>
  The regular expression \<open>\${{.*?}}\<close>: the leftmost opening mark that has a closing mark on the
  same line, with the shortest text in between.
\<close>

fun lazy_close :: "string \<Rightarrow> string option" where
  "lazy_close s =
     (if HasPrefix s close_mark then Some []
      else case s of [] \<Rightarrow> None
        | c # r \<Rightarrow> if c = CHR 0x0A then None else map_option (Cons c) (lazy_close r))"

declare lazy_close.simps [simp del]

fun find_placeholder :: "string \<Rightarrow> string option" where
  "find_placeholder [] = None"
| "find_placeholder (c # s) =
     (if HasPrefix (c # s) open_mark
      then (case lazy_close (drop 2 s) of
              Some body \<Rightarrow> Some (open_mark @ body @ close_mark)
            | None \<Rightarrow> find_placeholder s)
      else find_placeholder s)"

text \<open>The loop body of \<open>ReplaceWithParam\<close> for one element of \<open>matchArr\<close>.\<close>

definition replace_match :: "(string, string) gomap \<Rightarrow> string \<Rightarrow> string \<Rightarrow> string go" where
  "replace_match paramMap arr result =
     (let key1 = ReplaceOne arr open_mark '''';
          key2 = ReplaceOne key1 close_mark ''''
      in then_do (index_at (Fields key2) 0) (\<lambda>key.
           if HasPrefix key ''param.''
           then Inr (ReplaceAll result arr
                  (case m_load paramMap (ReplaceOne key ''param.'' '''') of None \<Rightarrow> [] | Some v \<Rightarrow> v))
           else Inr result))"

text \<open>
  \<open>FindStringSubmatch\<close> returns the first match only (the expression has no groups), so the loop
  runs at most once.
\<close>

definition ReplaceWithParam :: "string \<Rightarrow> (string, string) gomap \<Rightarrow> string go" where
  "ReplaceWithParam content paramMap =
     (case find_placeholder content of
        None \<Rightarrow> Inr content
      | Some arr \<Rightarrow> replace_match paramMap arr content)"

subsection \<open>Auxiliary facts\<close>

lemma split_scan_prefix_free:
  assumes "c \<notin> set s"
  shows "split_scan (c # sep) cur (s @ (c # sep) @ t) = (cur @ s) # split_scan (c # sep) [] t"
  using assms by (induction s arbitrary: cur) auto

lemma split_scan_no_match: "\<not> Contains s sep \<Longrightarrow> split_scan sep cur s = [cur @ s]"
proof (induction s arbitrary: cur)
  case (Cons c s)
  then have "\<not> HasPrefix (c # s) sep" using HasPrefix_imp_Contains by blast
  moreover have "\<not> Contains s sep" using Cons.prems by (metis Contains_iff append_Cons)
  ultimately show ?case using Cons.IH by auto
qed simp

lemma ReplaceAll_once:
  assumes "c \<notin> set pre" and "\<not> Contains post (c # sep)"
  shows "ReplaceAll (pre @ (c # sep) @ post) (c # sep) new = pre @ new @ post"
  using split_scan_prefix_free [OF assms(1), of sep "[]" post] split_scan_no_match [OF assms(2)]
  by (simp add: ReplaceAll_def Split_def)

lemma ReplaceOne_prefix [simp]: "ReplaceOne (p @ s) p new = new @ s"
proof -
  have "HasPrefix (p @ s) p" by simp
  then have "str_index (p @ s) p = Some 0" by (cases "p @ s") auto
  then show ?thesis by (simp add: ReplaceOne_def)
qed

lemma str_index_free: "CHR ''}'' \<notin> set s \<Longrightarrow> str_index (s @ ''}}'') ''}}'' = Some (length s)"
  by (induction s) auto

lemma ReplaceOne_close: "CHR ''}'' \<notin> set s \<Longrightarrow> ReplaceOne (s @ close_mark) close_mark '''' = s"
  by (simp add: ReplaceOne_def close_mark_def str_index_free)

lemma lazy_close_free:
  "CHR ''}'' \<notin> set s \<Longrightarrow> CHR 0x0A \<notin> set s \<Longrightarrow> lazy_close (s @ close_mark @ t) = Some s"
proof (induction s)
  case Nil
  then show ?case by (subst lazy_close.simps) simp
next
  case (Cons c s)
  then have "\<not> HasPrefix ((c # s) @ close_mark @ t) close_mark" by (auto simp: close_mark_def)
  with Cons show ?case by (subst lazy_close.simps) (simp, metis)
qed

lemma find_placeholder_skip:
  "CHR ''$'' \<notin> set pre \<Longrightarrow> find_placeholder (pre @ s) = find_placeholder s"
  by (induction pre) (auto simp: open_mark_def)

lemma find_placeholder_here:
  assumes "CHR ''}'' \<notin> set body" and "CHR 0x0A \<notin> set body"
  shows "find_placeholder (open_mark @ body @ close_mark @ t) = Some (open_mark @ body @ close_mark)"
  using lazy_close_free [OF assms, of t] by (simp add: open_mark_def)

lemma find_placeholder_none: "CHR ''$'' \<notin> set s \<Longrightarrow> find_placeholder s = None"
  using find_placeholder_skip [of s "[]"] by simp

lemma fields_scan_word:
  "(\<And>c. c \<in> set w \<Longrightarrow> \<not> is_space c) \<Longrightarrow> fields_scan cur (w @ s) = fields_scan (cur @ w) s"
  by (induction w arbitrary: cur) auto

lemma fields_scan_blank: "(\<And>c. c \<in> set s \<Longrightarrow> is_space c) \<Longrightarrow> fields_scan [] s = []"
  by (induction s) auto

text \<open>A placeholder as job files write it, and the parameter names that can occur in it.\<close>

definition placeholder :: "string \<Rightarrow> string" where
  "placeholder k = open_mark @ ('' param.'' @ k @ '' '') @ close_mark"

definition param_name :: "string \<Rightarrow> bool" where
  "param_name k \<longleftrightarrow> CHR ''}'' \<notin> set k \<and> (\<forall>c \<in> set k. \<not> is_space c)"

lemma param_name_no_newline: "param_name k \<Longrightarrow> CHR 0x0A \<notin> set k"
  by (auto simp: param_name_def is_space_def)

lemma Fields_placeholder_body:
  assumes "param_name k"
  shows "Fields ('' param.'' @ k @ '' '') = [''param.'' @ k]"
proof -
  have "is_space (CHR '' '')" by (simp add: is_space_def)
  moreover have "\<not> is_space c" if "c \<in> set (''param.'' @ k)" for c
    using that assms by (auto simp: param_name_def is_space_def)
  then have "fields_scan [] ((''param.'' @ k) @ '' '') = fields_scan ([] @ (''param.'' @ k)) '' ''"
    by (rule fields_scan_word)
  ultimately show ?thesis by (simp add: Fields_def)
qed

lemma replace_match_placeholder:
  assumes "param_name k"
  shows "replace_match m (placeholder k) result = Inr (ReplaceAll result (placeholder k)
    (case m_load m k of None \<Rightarrow> [] | Some v \<Rightarrow> v))"
proof -
  have "ReplaceOne (placeholder k) open_mark '''' = ('' param.'' @ k @ '' '') @ close_mark"
    unfolding placeholder_def by simp
  moreover have "ReplaceOne (('' param.'' @ k @ '' '') @ close_mark) close_mark '''' = '' param.'' @ k @ '' ''"
    using assms by (intro ReplaceOne_close) (auto simp: param_name_def)
  moreover have "ReplaceOne (''param.'' @ k) ''param.'' '''' = k"
    using ReplaceOne_prefix [of "''param.''" k "''''"] by simp
  ultimately show ?thesis
    unfolding replace_match_def Let_def
    by (simp only: Fields_placeholder_body [OF assms])
      (simp only: index_at_def, simp)
qed

subsection \<open>Properties\<close>

text \<open>
  When the first placeholder of a text is \<open>${{ param.k }}\<close> and does not occur again, the result
  is the text with that placeholder replaced by the parameter's value (nothing when it is not
  set) and everything else, later placeholders included, unchanged.
\<close>

theorem ReplaceWithParam_first_only:
  assumes "CHR ''$'' \<notin> set pre" and "param_name k" and "\<not> Contains post (placeholder k)"
  shows "ReplaceWithParam (pre @ placeholder k @ post) m =
    Inr (pre @ (case m_load m k of None \<Rightarrow> [] | Some v \<Rightarrow> v) @ post)"
proof -
  have "find_placeholder (pre @ placeholder k @ post) = Some (placeholder k)"
    using find_placeholder_here [of "'' param.'' @ k @ '' ''" post] assms(2) param_name_no_newline [OF assms(2)]
    by (simp add: find_placeholder_skip [OF assms(1)] placeholder_def param_name_def)
  moreover obtain sep where sep: "placeholder k = CHR ''$'' # sep"
    by (simp add: placeholder_def open_mark_def)
  have "ReplaceAll (pre @ placeholder k @ post) (placeholder k) v = pre @ v @ post" for v
    using ReplaceAll_once [OF assms(1), of post sep v] assms(3) by (simp add: sep)
  ultimately show ?thesis
    by (simp add: ReplaceWithParam_def replace_match_placeholder [OF assms(2)])
qed

theorem ReplaceWithParam_first_only_witness:
  "ReplaceWithParam (''echo '' @ placeholder ''a'' @ '' '' @ placeholder ''b'')
      [(''a'', ''1''), (''b'', ''2'')] = Inr (''echo '' @ ''1'' @ '' '' @ placeholder ''b'')"
proof -
  have "\<not> Contains ('' '' @ placeholder ''b'') (placeholder ''a'')" by code_simp
  from ReplaceWithParam_first_only [OF _ _ this, of "''echo ''" "[(''a'', ''1''), (''b'', ''2'')]"]
  show ?thesis by (simp add: param_name_def is_space_def m_load_def)
qed

text \<open>
  A text whose first placeholder is blank makes \<open>ReplaceWithParam\<close> panic with an index out of
  range instead of returning an error.
\<close>

theorem ReplaceWithParam_blank_panics:
  assumes "CHR ''$'' \<notin> set pre" and "\<forall>c \<in> set blank. is_space c" and "CHR 0x0A \<notin> set blank"
  shows "ReplaceWithParam (pre @ open_mark @ blank @ close_mark @ post) m = Inl PanicIndex"
proof -
  have free: "CHR ''}'' \<notin> set blank" using assms(2) by (auto simp: is_space_def)
  have "find_placeholder (pre @ open_mark @ blank @ close_mark @ post) =
      Some (open_mark @ blank @ close_mark)"
    using find_placeholder_here [OF free assms(3)] find_placeholder_skip [OF assms(1)] by simp
  moreover have "fields_scan [] blank = []" using fields_scan_blank assms(2) by blast
  ultimately show ?thesis
    by (simp add: ReplaceWithParam_def replace_match_def Let_def ReplaceOne_close [OF free]
        Fields_def index_at_def)
qed

theorem ReplaceWithParam_blank_panics_witness:
  "ReplaceWithParam (''x'' @ open_mark @ '' '' @ close_mark @ '''') [] = Inl PanicIndex"
  by (rule ReplaceWithParam_blank_panics) (auto simp: is_space_def)

section \<open>Environment rendering (action/action_workdir.go)\<close>

fun env_loop :: "string list \<Rightarrow> string \<Rightarrow> string go" where
  "env_loop [] str = Inr str"
| "env_loop (env # envs) str =
     then_do (index_at (Split env ''='') 0) (\<lambda>k.
     then_do (index_at (Split env ''='') 1) (\<lambda>val.
       let key = ''$'' @ k in
       env_loop envs (if Contains str key then ReplaceAll str key val else str)))"

definition envRender :: "string \<Rightarrow> string list \<Rightarrow> string go" where
  "envRender str envs = (if str = [] then Inr str else env_loop envs str)"

lemma env_loop_no_dollar:
  "CHR ''$'' \<notin> set str \<Longrightarrow> (\<forall>e \<in> set envs. CHR ''='' \<in> set e) \<Longrightarrow> env_loop envs str = Inr str"
proof (induction envs)
  case (Cons e envs)
  have "1 \<le> count_list e (CHR ''='')" using Cons.prems by (auto simp: Suc_le_eq count_list_0_iff neq0_conv [symmetric])
  then have "2 \<le> length (Split e ''='')" by (simp add: length_Split)
  then obtain k v where "index_at (Split e ''='') 0 = Inr k" "index_at (Split e ''='') 1 = Inr v"
    by (auto simp: index_at_def)
  moreover have "\<not> Contains str (CHR ''$'' # k)" using Cons.prems by (auto simp: Contains_iff)
  ultimately show ?case using Cons by simp
qed simp

text \<open>
  Rendering a directory with a variable \<open>NAME=VALUE\<close> replaces \<open>$NAME\<close> by the value only up to
  the value's first equals sign, and an environment entry without an equals sign panics.
\<close>

theorem envRender_one:
  assumes "CHR ''='' \<notin> set n" and "CHR ''$'' \<notin> set pre" and "\<not> Contains post (''$'' @ n)"
  shows "envRender (pre @ (''$'' @ n) @ post) [n @ ''='' @ v] = Inr (pre @ hd (Split v ''='') @ post)
    \<and> envRender (pre @ (''$'' @ n) @ post) [n] = Inl PanicIndex"
proof -
  obtain h t where h: "Split v ''='' = h # t" by (cases "Split v ''=''") auto
  have "Split (n @ ''='' @ v) ''='' = n # h # t"
    using assms(1) h by simp
  moreover have "Contains (pre @ (CHR ''$'' # n) @ post) (CHR ''$'' # n)" by (auto simp: Contains_iff)
  moreover have "ReplaceAll (pre @ (CHR ''$'' # n) @ post) (CHR ''$'' # n) h = pre @ h @ post"
    using ReplaceAll_once [OF assms(2), of post n h] assms(3) by simp
  ultimately show ?thesis
    using assms(1) h by (auto simp: envRender_def index_at_def)
qed

theorem envRender_one_witness:
  "envRender (''/w/'' @ (''$'' @ ''A'') @ ''/x'') [''A'' @ ''='' @ ''b=c''] =
     Inr (''/w/'' @ hd (Split ''b=c'' ''='') @ ''/x'')"
proof -
  have "\<not> Contains ''/x'' (''$'' @ ''A'')" by code_simp
  from envRender_one [OF _ _ this, of "''/w/''" "''b=c''"] show ?thesis by simp
qed

end
