(* ===== verification/Actions.thy ===== *)
theory Actions
  imports Executor Template
begin

text \<open>
  The actions \<open>workdir\<close> (\<open>action_workdir.go\<close>), \<open>shell\<close> (\<open>action_shell.go\<close>), \<open>git-checkout\<close>
  (\<open>action_git.go\<close>) and the docker environment (\<open>env_docker.go\<close>), as handlers of the executor's
  interface \<open>action_lib\<close>.

  A handler is a pointer to an object on a heap that is part of the world, because \<open>Pre\<close> assigns to
  fields that \<open>Hook\<close> and \<open>Post\<close> read.  What lies outside the program is the record \<open>os_lib\<close>: running a
  command (with its output, or with the lines its two scanners read), the environment, the home
  directory, the random name, the minute of the hour, the order of map ranges and of \<open>Readdir\<close>.  A
  method is a state transformer that returns a value or an error (\<open>Returns\<close>) or panics; a failed
  type assertion is a runtime panic.
\<close>

section \<open>Methods as state transformers\<close>

type_synonym ('w, 'a) act = "'w \<Rightarrow> 'a res outcome \<times> 'w"

definition ret :: "'a \<Rightarrow> ('w, 'a) act" where
  "ret x w = (Returns (Inr x), w)"

definition fail :: "error \<Rightarrow> ('w, 'a) act" where
  "fail e w = (Returns (Inl e), w)"

definition crash :: "string \<Rightarrow> ('w, 'a) act" where
  "crash m w = (RuntimePanic m, w)"

definition seq :: "('w, 'a) act \<Rightarrow> ('a \<Rightarrow> ('w, 'b) act) \<Rightarrow> ('w, 'b) act" where
  "seq m k w =
     (case m w of
        (Returns (Inr x), w') \<Rightarrow> k x w'
      | (Returns (Inl e), w') \<Rightarrow> (Returns (Inl e), w')
      | (RuntimePanic p, w') \<Rightarrow> (RuntimePanic p, w')
      | (OtherPanic, w') \<Rightarrow> (OtherPanic, w'))"

text \<open>The error as a value, for the callers that go on.\<close>

definition attempt :: "('w, 'a) act \<Rightarrow> ('w, 'a res) act" where
  "attempt m w =
     (case m w of
        (Returns r, w') \<Rightarrow> (Returns (Inr r), w')
      | (RuntimePanic p, w') \<Rightarrow> (RuntimePanic p, w')
      | (OtherPanic, w') \<Rightarrow> (OtherPanic, w'))"

definition upd :: "('w \<Rightarrow> 'w) \<Rightarrow> ('w, unit) act" where
  "upd f w = (Returns (Inr ()), f w)"

definition look :: "('w \<Rightarrow> 'a) \<Rightarrow> ('w, 'a) act" where
  "look f w = (Returns (Inr (f w)), w)"

definition checked :: "'a go \<Rightarrow> ('w, 'a) act" where
  "checked r w =
     (case r of
        Inr x \<Rightarrow> (Returns (Inr x), w)
      | Inl (PanicMsg m) \<Rightarrow> (OtherPanic, w)
      | Inl p \<Rightarrow> (RuntimePanic ''index out of range'', w))"

named_theorems act_simps \<open>running a method one call at a time\<close>

lemma act_run [act_simps]:
  "ret x w = (Returns (Inr x), w)" "fail e w = (Returns (Inl e), w)" "crash m w = (RuntimePanic m, w)"
  "upd f w = (Returns (Inr ()), f w)" "look g w = (Returns (Inr (g w)), w)"
  "checked (Inr x) w = (Returns (Inr x), w)"
  by (simp_all add: ret_def fail_def crash_def upd_def look_def checked_def)

lemma seq_Returns [act_simps]:
  "m w = (Returns (Inr x), w') \<Longrightarrow> seq m k w = k x w'"
  "m w = (Returns (Inl e), w') \<Longrightarrow> seq m k w = (Returns (Inl e), w')"
  "m w = (RuntimePanic p, w') \<Longrightarrow> seq m k w = (RuntimePanic p, w')"
  by (simp_all add: seq_def)

section \<open>Handlers and their world\<close>

datatype handler =
    H_Workdir string
  | H_Shell string string
  | H_Docker string string "string list"
  | H_Git string string string

record 'y action_ext =
  ax_heap :: "handler list"
  ax_rest :: 'y

type_synonym 'y aworld = "'y action_ext world"

record 'y os_lib =
  os_run :: "string list \<Rightarrow> string \<Rightarrow> 'y aworld \<Rightarrow> (string \<times> error option) \<times> 'y aworld"
  os_stream :: "string list \<Rightarrow> string \<Rightarrow> string list \<Rightarrow> 'y aworld \<Rightarrow> (string list \<times> error option) \<times> 'y aworld"
  os_environ :: "string list"
  os_rand :: "'y aworld \<Rightarrow> string"
  os_minute :: "time \<Rightarrow> int"
  os_format :: time_format
  os_map_order :: "string list \<Rightarrow> string list"
  os_readdir :: "string list \<Rightarrow> string list"
  os_home :: "string res"

definition get_h :: "nat \<Rightarrow> 'y aworld \<Rightarrow> handler" where
  "get_h h w = ax_heap (w_ext w) ! h"

definition set_h :: "nat \<Rightarrow> handler \<Rightarrow> 'y aworld \<Rightarrow> 'y aworld" where
  "set_h h x w = w\<lparr>w_ext := (w_ext w)\<lparr>ax_heap := (ax_heap (w_ext w))[h := x]\<rparr>\<rparr>"

definition new_h :: "handler \<Rightarrow> ('y aworld, nat) act" where
  "new_h x w = (Returns (Inr (length (ax_heap (w_ext w)))),
     w\<lparr>w_ext := (w_ext w)\<lparr>ax_heap := ax_heap (w_ext w) @ [x]\<rparr>\<rparr>)"

subsection \<open>The engine context\<close>

definition ctx_string :: "string \<Rightarrow> ('y aworld, string) act" where
  "ctx_string key w =
     (case m_load (w_ctx w) key of
        Some (CStr s) \<Rightarrow> ret s w
      | _ \<Rightarrow> crash ''interface conversion'' w)"

definition ctx_map :: "string \<Rightarrow> ('y aworld, (string, string) gomap) act" where
  "ctx_map key w =
     (case m_load (w_ctx w) key of
        Some (CMap m) \<Rightarrow> ret (case m of None \<Rightarrow> [] | Some p \<Rightarrow> p) w
      | _ \<Rightarrow> crash ''interface conversion'' w)"

definition ctx_strings :: "string \<Rightarrow> ctx_value option \<Rightarrow> string list" where
  "ctx_strings key v = (case v of Some (CStrs ss) \<Rightarrow> ss | _ \<Rightarrow> [])"

definition ctx_set :: "string \<Rightarrow> ctx_value \<Rightarrow> ('y aworld, unit) act" where
  "ctx_set key v = upd (\<lambda>w. w\<lparr>w_ctx := m_store key v (w_ctx w)\<rparr>)"

text \<open>\<open>data, ok := stack["workdir"]\<close> with the error of a missing key and the assertion on a present one.\<close>

definition ctx_workdir :: "('y aworld, string) act" where
  "ctx_workdir w =
     (case m_load (w_ctx w) ''workdir'' of
        None \<Rightarrow> fail ''workdir error'' w
      | Some v \<Rightarrow> ctx_string ''workdir'' w)"

subsection \<open>Files, output, commands\<close>

definition act_MkdirAll :: "string \<Rightarrow> ('y aworld, unit) act" where
  "act_MkdirAll p w =
     (case MkdirAll (path_of p) (w_fs w) of
        (None, fs') \<Rightarrow> (Returns (Inr ()), w\<lparr>w_fs := fs'\<rparr>)
      | (Some e, fs') \<Rightarrow> (Returns (Inl (errno_msg e)), w\<lparr>w_fs := fs'\<rparr>))"

definition act_WriteFile :: "string \<Rightarrow> string \<Rightarrow> ('y aworld, unit) act" where
  "act_WriteFile p c w =
     (case WriteFile (path_of p) c (w_fs w) of
        (None, fs') \<Rightarrow> (Returns (Inr ()), w\<lparr>w_fs := fs'\<rparr>)
      | (Some e, fs') \<Rightarrow> (Returns (Inl (errno_msg e)), w\<lparr>w_fs := fs'\<rparr>))"

definition act_ReadFile :: "string \<Rightarrow> ('y aworld, string) act" where
  "act_ReadFile p w = (Returns (GetFileData p (w_fs w)), w)"

definition act_Remove :: "string \<Rightarrow> ('y aworld, unit) act" where
  "act_Remove p w =
     (case Remove (path_of p) (w_fs w) of
        (None, fs') \<Rightarrow> (Returns (Inr ()), w\<lparr>w_fs := fs'\<rparr>)
      | (Some e, fs') \<Rightarrow> (Returns (Inl (errno_msg e)), w\<lparr>w_fs := fs'\<rparr>))"

definition out_line :: "'y os_lib \<Rightarrow> string \<Rightarrow> ('y aworld, unit) act" where
  "out_line OS l = upd (\<lambda>w. w\<lparr>w_out := WriteLine (os_format OS) (w_time w) l (w_out w)\<rparr>)"

definition out_command :: "'y os_lib \<Rightarrow> string \<Rightarrow> ('y aworld, unit) act" where
  "out_command OS l = upd (\<lambda>w. w\<lparr>w_out := WriteCommandLine (os_format OS) (w_time w) l (w_out w)\<rparr>)"

definition out_lines :: "'y os_lib \<Rightarrow> string list \<Rightarrow> ('y aworld, unit) act" where
  "out_lines OS ls = upd (\<lambda>w. w\<lparr>w_out := fold (WriteLine (os_format OS) (w_time w)) ls (w_out w)\<rparr>)"

text \<open>Running a command: its output and error; its scanned lines and the error of \<open>Start\<close> or \<open>Wait\<close>.\<close>

definition act_run_cmd :: "'y os_lib \<Rightarrow> string list \<Rightarrow> string \<Rightarrow> ('y aworld, string \<times> error option) act" where
  "act_run_cmd OS cmd dir w = (case os_run OS cmd dir w of (r, w') \<Rightarrow> (Returns (Inr r), w'))"

definition act_stream_cmd :: "'y os_lib \<Rightarrow> string list \<Rightarrow> string \<Rightarrow> string list \<Rightarrow> ('y aworld, unit) act" where
  "act_stream_cmd OS cmd dir env =
     seq (\<lambda>w. case os_stream OS cmd dir env w of (r, w') \<Rightarrow> (Returns (Inr r), w')) (\<lambda>(ls, err).
     seq (out_lines OS ls) (\<lambda>u. case err of None \<Rightarrow> ret () | Some e \<Rightarrow> fail e))"

definition step_with :: "Step \<Rightarrow> string \<Rightarrow> string" where
  "step_with step key = (case m_load (step_With step) key of None \<Rightarrow> [] | Some v \<Rightarrow> v)"

section \<open>action_workdir.go\<close>

definition NewWorkdirAction :: "'y os_lib \<Rightarrow> Step \<Rightarrow> ('y aworld, nat) act" where
  "NewWorkdirAction OS step =
     seq (look w_ctx) (\<lambda>stack.
     seq (checked (envRender (step_with step ''workdir'')
           (ctx_strings ''env'' (m_load stack ''env'') @ os_environ OS))) (\<lambda>workdir.
     new_h (H_Workdir workdir)))"

definition Workdir_Hook :: "string \<Rightarrow> ('y aworld, ActionResult option) act" where
  "Workdir_Hook workdir =
     seq (look (\<lambda>w. Stat (w_fs w) (path_of workdir))) (\<lambda>st.
     seq (case st of Inl e \<Rightarrow> act_MkdirAll workdir | Inr n \<Rightarrow> ret ()) (\<lambda>u.
     seq (ctx_set ''workdir'' (CStr workdir)) (\<lambda>u.
     ret None)))"

section \<open>action_shell.go\<close>

definition NewShellAction :: "Step \<Rightarrow> ('y aworld, nat) act" where
  "NewShellAction step = new_h (H_Shell (step_Run step) [])"

definition script_text :: "string \<Rightarrow> string" where
  "script_text command = ''#!/bin/sh'' @ nl @ ''set -ex'' @ nl @ command"

definition Shell_Pre :: "'y os_lib \<Rightarrow> nat \<Rightarrow> string \<Rightarrow> ('y aworld, unit) act" where
  "Shell_Pre OS h command =
     seq (ctx_map ''parameter'') (\<lambda>params.
     seq ctx_workdir (\<lambda>workdir.
     let workdirTmp = workdir @ ''_tmp'' in
     seq (attempt (act_MkdirAll workdirTmp)) (\<lambda>u.
     seq (look (os_rand OS)) (\<lambda>r.
     let filename = workdirTmp @ ''/'' @ r @ ''.sh'' in
     seq (upd (set_h h (H_Shell command filename))) (\<lambda>u.
     seq (checked (ReplaceWithParam command params)) (\<lambda>command'.
     seq (act_WriteFile filename (script_text command')) (\<lambda>u.
     seq (act_ReadFile filename) (\<lambda>c. ret ()))))))))"

definition Shell_Hook :: "'y os_lib \<Rightarrow> string \<Rightarrow> ('y aworld, ActionResult option) act" where
  "Shell_Hook OS filename =
     seq (look w_ctx) (\<lambda>stack.
       case m_load stack ''workdir'' of
         Some (CStr workdir) \<Rightarrow>
           seq (case m_load stack ''withEnv'' of
                  None \<Rightarrow> ret []
                | Some (CStrs precommand) \<Rightarrow> ret precommand
                | Some v \<Rightarrow> crash ''interface conversion'') (\<lambda>precommand.
           let commands = precommand @ [''sh'', ''-c'', filename] in
           seq (out_command OS (Join commands '' '')) (\<lambda>u.
           seq (act_stream_cmd OS commands workdir (ctx_strings ''env'' (m_load stack ''env'') @ os_environ OS)) (\<lambda>u.
           ret None)))
       | _ \<Rightarrow> fail ''workdir is empty'')"

definition Shell_Post :: "string \<Rightarrow> ('y aworld, unit) act" where
  "Shell_Post filename = act_Remove filename"

section \<open>env_docker.go\<close>

definition NewDockerEnv :: "Step \<Rightarrow> ('y aworld, nat) act" where
  "NewDockerEnv step = new_h (H_Docker (step_RunsOn step) [] (step_Volumes step))"

definition docker_run_command :: "string \<Rightarrow> string \<Rightarrow> int \<Rightarrow> string \<Rightarrow> string list \<Rightarrow> string \<Rightarrow> string list" where
  "docker_run_command jobName jobId minute workdir volumes img =
     [''docker'', ''run'', ''--name'', jobName @ ''_'' @ jobId @ ''_'' @ Itoa minute, ''-t'', ''-d'', ''-v'',
      workdir @ '':'' @ workdir, ''-v'', (workdir @ ''_tmp'') @ '':'' @ (workdir @ ''_tmp'')] @
     concat (map (\<lambda>v. [''-v'', v]) volumes) @ [''-w'', workdir, img, ''cat'']"

definition Docker_Pre :: "'y os_lib \<Rightarrow> nat \<Rightarrow> string \<Rightarrow> string list \<Rightarrow> ('y aworld, unit) act" where
  "Docker_Pre OS h img volumes =
     seq (ctx_string ''name'') (\<lambda>jobName.
     seq (ctx_string ''id'') (\<lambda>jobId.
     seq ctx_workdir (\<lambda>workdir.
     seq (attempt (act_MkdirAll (workdir @ ''_tmp''))) (\<lambda>u.
     seq (look w_time) (\<lambda>now.
     let commands = docker_run_command jobName jobId (os_minute OS now) workdir volumes img in
     seq (out_command OS (Join commands '' '')) (\<lambda>u.
     seq (act_run_cmd OS commands []) (\<lambda>(output, err).
     case err of
       Some e \<Rightarrow> fail e
     | None \<Rightarrow>
         seq (out_line OS output) (\<lambda>u.
         let filelds = Fields output in
         seq (checked (index_at filelds (int (length filelds) - 1))) (\<lambda>containerID.
         upd (set_h h (H_Docker img containerID volumes)))))))))))"

definition Docker_Hook :: "'y os_lib \<Rightarrow> string \<Rightarrow> ('y aworld, ActionResult option) act" where
  "Docker_Hook OS containerID =
     (let commands = [''docker'', ''top'', containerID, ''-eo'', ''pid,comm''] in
      seq (out_command OS (Join commands '' '')) (\<lambda>u.
      seq (act_run_cmd OS commands []) (\<lambda>(output, err).
      seq (out_line OS output) (\<lambda>u.
      case err of
        Some e \<Rightarrow> fail e
      | None \<Rightarrow> seq (ctx_set ''withEnv'' (CStrs [''docker'', ''exec'', containerID])) (\<lambda>u. ret None)))))"

definition docker_command :: "'y os_lib \<Rightarrow> string list \<Rightarrow> ('y aworld, unit) act" where
  "docker_command OS commands =
     seq (out_command OS (Join commands '' '')) (\<lambda>u.
     seq (act_run_cmd OS commands []) (\<lambda>(output, err).
     seq (out_line OS output) (\<lambda>u. case err of Some e \<Rightarrow> fail e | None \<Rightarrow> ret ())))"

definition Docker_Post :: "'y os_lib \<Rightarrow> string \<Rightarrow> ('y aworld, unit) act" where
  "Docker_Post OS containerID =
     seq (docker_command OS [''docker'', ''stop'', ''--time=1'', containerID]) (\<lambda>u.
     seq (docker_command OS [''docker'', ''rm'', ''-f'', containerID]) (\<lambda>u.
     ctx_set ''withEnv'' (CStrs [])))"

section \<open>action_git.go\<close>

definition NewGitAction :: "Step \<Rightarrow> ('y aworld, nat) act" where
  "NewGitAction step =
     seq (ctx_map ''parameter'') (\<lambda>params.
     seq (checked (ReplaceWithParam (step_with step ''url'') params)) (\<lambda>repository.
     seq (checked (ReplaceWithParam (step_with step ''branch'') params)) (\<lambda>branch.
     new_h (H_Git repository branch []))))"

text \<open>\<open>ExecuteCommand\<close> returns the text "nil" with an error and the empty text without.\<close>

definition git_ExecuteCommand :: "'y os_lib \<Rightarrow> string \<Rightarrow> string list \<Rightarrow> ('y aworld, string \<times> error option) act" where
  "git_ExecuteCommand OS workdir commands =
     seq (out_command OS (Join commands '' '')) (\<lambda>u.
     seq (attempt (act_stream_cmd OS commands workdir [])) (\<lambda>r.
     ret (case r of Inl e \<Rightarrow> (''nil'', Some e) | Inr u \<Rightarrow> ([], None))))"

definition git_ExecuteStringCommand :: "'y os_lib \<Rightarrow> string \<Rightarrow> string \<Rightarrow> ('y aworld, string \<times> error option) act" where
  "git_ExecuteStringCommand OS workdir command = git_ExecuteCommand OS workdir (Fields command)"

definition git_ExecuteCommandDirect :: "'y os_lib \<Rightarrow> string \<Rightarrow> string list \<Rightarrow> ('y aworld, string) act" where
  "git_ExecuteCommandDirect OS workdir commands =
     seq (out_command OS (Join commands '' '')) (\<lambda>u.
     seq (act_run_cmd OS commands workdir) (\<lambda>(output, err).
     seq (out_command OS output) (\<lambda>u.
     case err of
       None \<Rightarrow> ret output
     | Some e \<Rightarrow> seq (out_line OS e) (\<lambda>u. fail e))))"

definition or_fail :: "('w, string \<times> error option) act \<Rightarrow> ('w, string) act" where
  "or_fail m = seq m (\<lambda>(out, err). case err of None \<Rightarrow> ret out | Some e \<Rightarrow> fail e)"

definition lower :: "string \<Rightarrow> string" where
  "lower s = map (\<lambda>c. if of_char c \<in> {65..90 :: nat} then char_of (of_char c + (32 :: nat)) else c) s"

text \<open>\<open>strings.EqualFold\<close> on ASCII.\<close>

fun contains_line :: "string list \<Rightarrow> string \<Rightarrow> bool" where
  "contains_line [] branch \<longleftrightarrow> False"
| "contains_line (s # ss) branch \<longleftrightarrow>
     (if length (Fields s) = 0 then contains_line ss branch
      else if lower (hd (Fields s)) = lower branch then True
      else contains_line ss branch)"

definition containsBranch :: "string \<Rightarrow> string \<Rightarrow> bool" where
  "containsBranch branchOutput branch = contains_line (Split branchOutput nl) branch"

definition Git_Pre :: "'y os_lib \<Rightarrow> nat \<Rightarrow> string \<Rightarrow> string \<Rightarrow> ('y aworld, unit) act" where
  "Git_Pre OS h repository branch =
     seq (ctx_string ''workdir'') (\<lambda>workdir.
     seq (upd (set_h h (H_Git repository branch workdir))) (\<lambda>u.
     seq (look (\<lambda>w. Stat (w_fs w) (path_of workdir))) (\<lambda>st.
     case st of
       Inr n \<Rightarrow> ret ()
     | Inl e \<Rightarrow>
         seq (act_MkdirAll workdir) (\<lambda>u.
         seq (or_fail (git_ExecuteStringCommand OS workdir (''git init '' @ workdir))) (\<lambda>u. ret ())))))"

definition quote_open :: string where "quote_open = [CHR 0xE2, CHR 0x80, CHR 0x9C]"
definition quote_close :: string where "quote_close = [CHR 0xE2, CHR 0x80, CHR 0x9D]"

text \<open>The commands that fetch and check out the branch; then the data of the commit.\<close>

definition git_setup :: "'y os_lib \<Rightarrow> string \<Rightarrow> string \<Rightarrow> ('y aworld, unit) act" where
  "git_setup OS workdir repository =
     seq (git_ExecuteStringCommand OS workdir ''git rev-parse --is-inside-work-tree'') (\<lambda>(out, err).
     seq (if err \<noteq> None then or_fail (git_ExecuteStringCommand OS workdir ''git init'') else ret []) (\<lambda>u.
     seq (or_fail (git_ExecuteStringCommand OS workdir (''git config remote.origin.url  '' @ repository))) (\<lambda>u.
     seq (or_fail (git_ExecuteStringCommand OS workdir
       ''git config --add remote.origin.fetch +refs/heads/*:refs/remotes/origin/*'')) (\<lambda>u.
     seq (or_fail (git_ExecuteStringCommand OS workdir (''git config remote.origin.url '' @ repository))) (\<lambda>u.
     seq (or_fail (git_ExecuteStringCommand OS workdir
       (''git fetch --tags --progress '' @ repository @ '' +refs/heads/*:refs/remotes/origin/*''))) (\<lambda>u.
     ret ()))))))"

definition git_switch :: "'y os_lib \<Rightarrow> string \<Rightarrow> string \<Rightarrow> ('y aworld, string) act" where
  "git_switch OS workdir branch =
     seq (git_ExecuteCommandDirect OS workdir
       (Fields (''git rev-parse refs/remotes/origin/'' @ branch @ ''^{commit}''))) (\<lambda>raw.
     let commitId = TrimSpace raw in
     seq (git_ExecuteStringCommand OS workdir ''git config core.sparsecheckout '') (\<lambda>u.
     seq (or_fail (git_ExecuteStringCommand OS workdir (''git checkout -f '' @ commitId))) (\<lambda>u.
     seq (git_ExecuteCommandDirect OS workdir (Fields ''git branch -a -v --no-abbrev'')) (\<lambda>out.
     seq (if containsBranch out branch
          then or_fail (git_ExecuteStringCommand OS workdir (''git branch -D  '' @ branch)) else ret out) (\<lambda>u.
     seq (git_ExecuteStringCommand OS workdir (''git checkout -b '' @ branch @ '' '' @ commitId)) (\<lambda>(out, err).
     seq (out_line OS out) (\<lambda>u.
     case err of Some e \<Rightarrow> fail e | None \<Rightarrow> ret commitId)))))))"

definition Git_Hook :: "'y os_lib \<Rightarrow> string \<Rightarrow> string \<Rightarrow> string \<Rightarrow> ('y aworld, ActionResult option) act" where
  "Git_Hook OS repository branch workdir =
     seq (git_setup OS workdir repository) (\<lambda>u.
     seq (git_switch OS workdir branch) (\<lambda>commitId.
     seq (git_ExecuteCommandDirect OS workdir [''git'', ''--no-pager'', ''log'', ''--pretty=format:'' @ [CHR 0x27] @
       ''%cd'' @ [CHR 0x27], ''--date=format:'' @ [CHR 0x27] @ ''%b %e %Y'' @ [CHR 0x27], ''-1'', commitId]) (\<lambda>commitDate.
     seq (git_ExecuteCommandDirect OS workdir (Fields (''git --no-pager log --pretty=format:'' @ quote_open @ ''%s'' @
       quote_close @ '' -1 '' @ commitId))) (\<lambda>commitMessage.
     seq (ctx_set ''workdir'' (CStr workdir)) (\<lambda>u.
     seq (checked (slice commitId 0 6)) (\<lambda>short.
     ret (Some (empty_ActionResult\<lparr>ar_CodeInfo := \<lparr>ci_Branch = branch, ci_CommitId = short,
       ci_CommitDate = ReplaceAll commitDate [CHR 0x22] [],
       ci_CommitMessage = ReplaceAll commitMessage [CHR 0x22] []\<rparr>\<rparr>))))))))"

section \<open>The actions as an implementation of the executor's interface\<close>

text \<open>\<open>other\<close> constructs the actions of the kinds that are not modelled.\<close>

definition eng_New :: "'y os_lib \<Rightarrow> (ActionKind \<Rightarrow> Step \<Rightarrow> ('y aworld, nat) act) \<Rightarrow> ActionKind \<Rightarrow> Step \<Rightarrow>
    'y aworld \<Rightarrow> nat go \<times> 'y aworld" where
  "eng_New OS other k step w =
     (case (case k of
          K_Shell \<Rightarrow> NewShellAction step
        | K_Git \<Rightarrow> NewGitAction step
        | K_Workdir \<Rightarrow> NewWorkdirAction OS step
        | K_Docker \<Rightarrow> NewDockerEnv step
        | _ \<Rightarrow> other k step) w of
        (Returns (Inr h), w') \<Rightarrow> (Inr h, w')
      | (Returns (Inl e), w') \<Rightarrow> (Inl (PanicMsg e), w')
      | (RuntimePanic m, w') \<Rightarrow> (Inl PanicNil, w')
      | (OtherPanic, w') \<Rightarrow> (Inl (PanicMsg []), w'))"

definition h_Pre :: "'y os_lib \<Rightarrow> nat \<Rightarrow> ('y aworld, unit) act" where
  "h_Pre OS h w =
     (case get_h h w of
        H_Workdir d \<Rightarrow> ret () w
      | H_Shell command filename \<Rightarrow> Shell_Pre OS h command w
      | H_Docker img cid volumes \<Rightarrow> Docker_Pre OS h img volumes w
      | H_Git repository branch d \<Rightarrow> Git_Pre OS h repository branch w)"

definition h_Hook :: "'y os_lib \<Rightarrow> nat \<Rightarrow> ('y aworld, ActionResult option) act" where
  "h_Hook OS h w =
     (case get_h h w of
        H_Workdir d \<Rightarrow> Workdir_Hook d w
      | H_Shell command filename \<Rightarrow> Shell_Hook OS filename w
      | H_Docker img cid volumes \<Rightarrow> Docker_Hook OS cid w
      | H_Git repository branch d \<Rightarrow> Git_Hook OS repository branch d w)"

definition h_Post :: "'y os_lib \<Rightarrow> nat \<Rightarrow> ('y aworld, unit) act" where
  "h_Post OS h w =
     (case get_h h w of
        H_Workdir d \<Rightarrow> ret () w
      | H_Shell command filename \<Rightarrow> Shell_Post filename w
      | H_Docker img cid volumes \<Rightarrow> Docker_Post OS cid w
      | H_Git repository branch d \<Rightarrow> ret () w)"

text \<open>How the executor reads a method's outcome: a result with an error, the error alone, neither.\<close>

fun map_outcome :: "('a \<Rightarrow> 'b) \<Rightarrow> 'a outcome \<Rightarrow> 'b outcome" where
  "map_outcome f (Returns x) = Returns (f x)"
| "map_outcome f (RuntimePanic m) = RuntimePanic m"
| "map_outcome f OtherPanic = OtherPanic"

definition engine_lib :: "'y os_lib \<Rightarrow> (ActionKind \<Rightarrow> Step \<Rightarrow> ('y aworld, nat) act) \<Rightarrow>
    (nat, 'y action_ext) action_lib" where
  "engine_lib OS other =
     \<lparr>al_New = eng_New OS other,
      al_Pre = (\<lambda>h w. apfst (map_outcome (\<lambda>r. case r of Inl e \<Rightarrow> Some e | Inr u \<Rightarrow> None)) (h_Pre OS h w)),
      al_Hook = (\<lambda>h w. apfst (map_outcome (\<lambda>r. case r of Inl e \<Rightarrow> (None, Some e) | Inr x \<Rightarrow> (x, None))) (h_Hook OS h w)),
      al_Post = (\<lambda>h w. apfst (map_outcome (\<lambda>r. ())) (h_Post OS h w))\<rparr>"

section \<open>The life of a shell script\<close>

lemma seq_Inr_iff:
  "seq m k w = (Returns (Inr y), w') \<longleftrightarrow> (\<exists>x w1. m w = (Returns (Inr x), w1) \<and> k x w1 = (Returns (Inr y), w'))"
  by (auto simp: seq_def split: prod.splits outcome.splits sum.splits)

lemma attempt_Inr_iff:
  "attempt m w = (Returns (Inr r), w') \<longleftrightarrow> m w = (Returns r, w')"
  by (auto simp: attempt_def split: prod.splits outcome.splits)

lemma checked_Inr_iff: "checked r w = (Returns (Inr x), w') \<longleftrightarrow> r = Inr x \<and> w' = w"
  by (auto simp: checked_def split: sum.splits panic.splits)

lemma get_set_h [simp]: "h < length (ax_heap (w_ext w)) \<Longrightarrow> get_h h (set_h h x w) = x"
  by (simp add: get_h_def set_h_def)

lemma heap_fs [simp]: "get_h h (w\<lparr>w_fs := fs\<rparr>) = get_h h w" "get_h h (w\<lparr>w_out := out\<rparr>) = get_h h w"
  by (simp_all add: get_h_def)

lemma act_fs_heap:
  "act_MkdirAll p w = (r, w') \<Longrightarrow> w_ext w' = w_ext w"
  "act_WriteFile p c w = (r, w') \<Longrightarrow> w_ext w' = w_ext w"
  "act_Remove p w = (r, w') \<Longrightarrow> w_ext w' = w_ext w"
  by (auto simp: act_MkdirAll_def act_WriteFile_def act_Remove_def split: prod.splits option.splits)

lemma get_h_ext: "w_ext w' = w_ext w \<Longrightarrow> get_h h w' = get_h h w"
  by (simp add: get_h_def)

lemma ctx_map_Inr: "ctx_map key w = (Returns (Inr m), w') \<Longrightarrow> w' = w"
  by (auto simp: ctx_map_def ret_def crash_def split: option.splits ctx_value.splits)

lemma ctx_workdir_Inr: "ctx_workdir w = (Returns (Inr d), w') \<Longrightarrow> w' = w \<and> m_load (w_ctx w) ''workdir'' = Some (CStr d)"
  by (auto simp: ctx_workdir_def ctx_string_def ret_def fail_def crash_def split: option.splits ctx_value.splits)

text \<open>A \<open>Pre\<close> that succeeds has written the script under the name it keeps.\<close>

lemma Shell_Pre_script:
  assumes "Shell_Pre OS h command w = (Returns (Inr ()), w1)" and "h < length (ax_heap (w_ext w))"
  shows "\<exists>filename params command' dir. get_h h w1 = H_Shell command filename \<and>
    length (ax_heap (w_ext w1)) = length (ax_heap (w_ext w)) \<and>
    m_load (w_ctx w) ''workdir'' = Some (CStr dir) \<and> HasPrefix filename (dir @ ''_tmp/'') \<and>
    ctx_map ''parameter'' w = (Returns (Inr params), w) \<and> ReplaceWithParam command params = Inr command' \<and>
    GetFileData filename (w_fs w1) = Inr (script_text command')"
proof -
  obtain params wa dir wb r wc where a: "ctx_map ''parameter'' w = (Returns (Inr params), wa)"
    "ctx_workdir wa = (Returns (Inr dir), wb)" "attempt (act_MkdirAll (dir @ ''_tmp'')) wb = (Returns (Inr r), wc)"
    and rest: "(let filename = (dir @ ''_tmp'') @ ''/'' @ os_rand OS wc @ ''.sh'' in
     seq (upd (set_h h (H_Shell command filename))) (\<lambda>u.
     seq (checked (ReplaceWithParam command params)) (\<lambda>command'.
     seq (act_WriteFile filename (script_text command')) (\<lambda>u.
     seq (act_ReadFile filename) (\<lambda>c. ret ()))))) wc = (Returns (Inr ()), w1)"
    using assms(1) by (auto simp: Shell_Pre_def seq_Inr_iff look_def Let_def)
  define filename where "filename = (dir @ ''_tmp'') @ ''/'' @ os_rand OS wc @ ''.sh''"
  have same: "wa = w" "wb = w" using ctx_map_Inr [OF a(1)] ctx_workdir_Inr [OF a(2)] by auto
  have wc: "w_ext wc = w_ext w" using a(3) same act_fs_heap(1) by (auto simp: attempt_Inr_iff)
  note rest' = rest [unfolded Let_def, folded filename_def]
  obtain command' wd c where b: "ReplaceWithParam command params = Inr command'"
    "act_WriteFile filename (script_text command') (set_h h (H_Shell command filename) wc) = (Returns (Inr ()), wd)"
    "act_ReadFile filename wd = (Returns (Inr c), w1)"
    using rest' by (auto simp: seq_Inr_iff upd_def checked_Inr_iff ret_def)
  have w1: "w1 = wd" using b(3) by (simp add: act_ReadFile_def)
  have heap: "w_ext wd = w_ext (set_h h (H_Shell command filename) wc)" by (rule act_fs_heap(2) [OF b(2)])
  then have h: "get_h h w1 = H_Shell command filename" "length (ax_heap (w_ext w1)) = length (ax_heap (w_ext w))"
    using assms(2) wc w1 by (simp_all add: get_h_def set_h_def)
  have "WriteFile (path_of filename) (script_text command') (w_fs wc) = (None, w_fs wd)"
    using b(2) by (auto simp: act_WriteFile_def set_h_def split: prod.splits option.splits)
  from WriteFile_None [OF this] have "GetFileData filename (w_fs w1) = Inr (script_text command')"
    using dirs_ok_put [of "w_fs wc" "path_of filename" "path_of filename" "FFile (script_text command')"] w1
    by (simp add: GetFileData_iff read_iff)
  moreover have "HasPrefix filename (dir @ ''_tmp/'')" by (simp add: filename_def HasPrefix_iff)
  ultimately show ?thesis using h a(1) b(1) same ctx_workdir_Inr [OF a(2)] by blast
qed

text \<open>What runs a command may change files, output and clock, not the objects of the program.\<close>

definition heap_kept :: "('y aworld, 'a) act \<Rightarrow> bool" where
  "heap_kept m \<longleftrightarrow> (\<forall>w. ax_heap (w_ext (snd (m w))) = ax_heap (w_ext w))"

definition keeps_heap :: "'y os_lib \<Rightarrow> bool" where
  "keeps_heap OS \<longleftrightarrow> (\<forall>cmd dir env w. ax_heap (w_ext (snd (os_stream OS cmd dir env w))) = ax_heap (w_ext w))"

named_theorems kept \<open>methods that leave the objects of the program alone\<close>

lemma heap_kept_seq [kept]: "heap_kept m \<Longrightarrow> (\<And>x. heap_kept (k x)) \<Longrightarrow> heap_kept (seq m k)"
  by (auto simp: heap_kept_def seq_def split: prod.splits outcome.splits sum.splits) (metis snd_conv)+

lemma heap_kept_basic [kept]:
  "heap_kept (ret x)" "heap_kept (fail e)" "heap_kept (crash s)" "heap_kept (look f)" "heap_kept (out_line OS l)"
  "heap_kept (out_command OS l)" "heap_kept (out_lines OS ls)" "heap_kept (ctx_set key v)" "heap_kept (checked r)"
  by (auto simp: heap_kept_def ret_def fail_def crash_def look_def out_line_def out_command_def out_lines_def
    upd_def ctx_set_def checked_def split: sum.splits panic.splits)

lemma heap_kept_stream [kept]:
  assumes "keeps_heap OS"
  shows "heap_kept (act_stream_cmd OS cmd dir env)"
proof -
  have "heap_kept (\<lambda>w. case os_stream OS cmd dir env w of (r, w') \<Rightarrow> (Returns (Inr r), w'))"
    using assms by (simp add: heap_kept_def keeps_heap_def split_beta)
  moreover have "heap_kept (case err of None \<Rightarrow> ret () | Some e \<Rightarrow> fail e)" for err
    by (cases err) (simp_all add: kept)
  ultimately show ?thesis unfolding act_stream_cmd_def by (auto intro!: heap_kept_seq kept split: prod.split)
qed

lemma Shell_Hook_heap:
  assumes "keeps_heap OS"
  shows "heap_kept (Shell_Hook OS filename)"
proof -
  have env: "heap_kept (case v of None \<Rightarrow> ret [] | Some (CStrs p) \<Rightarrow> ret p | Some x \<Rightarrow> crash ''interface conversion'')"
    for v :: "ctx_value option"
    by (auto intro: kept split: option.split ctx_value.split)
  show ?thesis unfolding Shell_Hook_def Let_def
    using env assms by (auto intro!: kept split: option.split ctx_value.split)
qed

lemma Remove_unreadable:
  assumes "Remove (path_of p) fs = (e, fs')"
  shows "GetFileData p fs' \<noteq> Inr d \<and> (isFileExist p fs' \<longrightarrow> (\<forall>d. GetFileData p fs \<noteq> Inr d))"
proof (cases "Stat fs (path_of p)")
  case (Inl n)
  then show ?thesis using assms by (auto simp: Remove_def GetFileData_def ReadFile_def)
next
  case (Inr n)
  note st = Stat_Inr [of fs "path_of p" n, THEN iffD1, OF Inr]
  show ?thesis
  proof (cases n)
    case (FFile c)
    then have ne: "path_of p \<noteq> []" using st by (auto simp: fs_lookup_def)
    then have "fs' = fs_del (path_of p) fs" using assms Inr FFile by (simp add: Remove_def)
    then have "Stat fs' (path_of p) = Inl ENOENT" using fs_del_absent [OF ne] st by simp
    then show ?thesis by (simp add: GetFileData_def ReadFile_def isFileExist_def)
  next
    case FDir
    then have old: "GetFileData p fs \<noteq> Inr d" for d using st by (simp add: GetFileData_iff read_iff)
    have "fs' = fs \<or> (path_of p \<noteq> [] \<and> fs' = fs_del (path_of p) fs)"
      using assms Inr FDir by (auto simp: Remove_def split: if_splits)
    then show ?thesis using old by (auto simp: GetFileData_iff read_iff)
  qed
qed

lemma executeAction_pushed:
  assumes "jd_Status (r_job r) = STATUS_RUNNING" and "al_Pre L h (r_w r) = (Returns None, w1)"
  shows "r_stack (executeAction L (Some h) r) = r_stack r @ [h] \<and>
    r_w (executeAction L (Some h) r) = snd (al_Hook L h w1)"
  using assms by (auto simp: executeAction_def Let_def set_status_def Stack_Push_def split: prod.split outcome.split)

lemma shell_Post_drained:
  assumes "get_h h w = H_Shell command filename"
  shows "\<exists>w' e. drain (engine_lib OS other) [h] w = Inr w' \<and> Remove (path_of filename) (w_fs w) = (e, w_fs w')"
proof (cases "Remove (path_of filename) (w_fs w)")
  case (Pair e fs')
  then show ?thesis
    using assms drain_snoc [of "engine_lib OS other" "[]" h w]
    by (cases e) (auto simp: engine_lib_def h_Post_def Shell_Post_def act_Remove_def)
qed

text \<open>
  C24. The script of a shell step.  \<open>Pre\<close> writes the command, its parameters filled in, below a
  header to a file in the \<open>_tmp\<close> directory beside the working directory.  When the action was
  executed and the stack is drained, however the command ended (an error, a panic of \<open>Hook\<close>),
  no script can be read under that name; and a script that the command left in place is gone.
\<close>

theorem shell_script_removed:
  assumes "keeps_heap OS" and "get_h h (r_w r) = H_Shell command old" and "h < length (ax_heap (w_ext (r_w r)))"
    and "jd_Status (r_job r) = STATUS_RUNNING" and "r_stack r = []"
    and "al_Pre (engine_lib OS other) h (r_w r) = (Returns None, w1)"
  shows "\<exists>dir filename params command' w3.
    m_load (w_ctx (r_w r)) ''workdir'' = Some (CStr dir) \<and> HasPrefix filename (dir @ ''_tmp/'') \<and>
    ctx_map ''parameter'' (r_w r) = (Returns (Inr params), r_w r) \<and>
    ReplaceWithParam command params = Inr command' \<and>
    GetFileData filename (w_fs w1) = Inr (script_text command') \<and>
    drain (engine_lib OS other) (r_stack (executeAction (engine_lib OS other) (Some h) r))
      (r_w (executeAction (engine_lib OS other) (Some h) r)) = Inr w3 \<and>
    (\<forall>d. GetFileData filename (w_fs w3) \<noteq> Inr d) \<and>
    (GetFileData filename (w_fs (snd (al_Hook (engine_lib OS other) h w1))) = Inr (script_text command') \<longrightarrow>
      \<not> isFileExist filename (w_fs w3))"
proof -
  let ?L = "engine_lib OS other"
  have pre: "Shell_Pre OS h command (r_w r) = (Returns (Inr ()), w1)"
    using assms(2,6) by (cases "Shell_Pre OS h command (r_w r)" rule: prod.exhaust, rename_tac o1 w,
      case_tac o1) (auto simp: engine_lib_def h_Pre_def split: sum.splits)
  from Shell_Pre_script [OF this assms(3)] obtain filename params command' dir where
    g: "get_h h w1 = H_Shell command filename"
    and facts: "m_load (w_ctx (r_w r)) ''workdir'' = Some (CStr dir)" "HasPrefix filename (dir @ ''_tmp/'')"
    "ctx_map ''parameter'' (r_w r) = (Returns (Inr params), r_w r)" "ReplaceWithParam command params = Inr command'"
    "GetFileData filename (w_fs w1) = Inr (script_text command')" by blast
  let ?w2 = "snd (al_Hook ?L h w1)"
  have "?w2 = snd (Shell_Hook OS filename w1)" using g by (simp add: engine_lib_def h_Hook_def)
  then have "get_h h ?w2 = H_Shell command filename"
    using Shell_Hook_heap [OF assms(1), of filename] g by (simp add: heap_kept_def get_h_def)
  from shell_Post_drained [OF this, of OS other] obtain w3 e where d: "drain ?L [h] ?w2 = Inr w3"
    "Remove (path_of filename) (w_fs ?w2) = (e, w_fs w3)" by blast
  have "drain ?L (r_stack (executeAction ?L (Some h) r)) (r_w (executeAction ?L (Some h) r)) = Inr w3"
    using executeAction_pushed [OF assms(4,6)] assms(5) d(1) by simp
  with facts Remove_unreadable [OF d(2)] show ?thesis by blast
qed

text \<open>A step that runs \<open>echo hi\<close>; the commands print one line and leave everything as it is.\<close>

definition demo_os :: "unit os_lib" where
  "demo_os = \<lparr>os_run = (\<lambda>c d w. (([], None), w)), os_stream = (\<lambda>c d e w. (([''hi''], None), w)),
     os_environ = [], os_rand = (\<lambda>w. ''r''), os_minute = (\<lambda>t. 0), os_format = demo_format,
     os_map_order = (\<lambda>ks. ks), os_readdir = (\<lambda>ns. ns), os_home = Inr ''/h''\<rparr>"

definition demo_run :: "(nat, unit action_ext) run" where
  "demo_run = \<lparr>r_ex = NewExecutor,
     r_job = (new_wrapper 1 two_steps [])\<lparr>jd_Status := STATUS_RUNNING\<rparr>,
     r_stack = [], r_err = None,
     r_w = \<lparr>w_fs = demo_fs, w_out = fst demo_out,
       w_ctx = [(''workdir'', CStr ''/w''), (''parameter'', CMap (Some [(''who'', ''hi'')]))], w_time = 1,
       w_ext = \<lparr>ax_heap = [H_Shell (''echo '' @ placeholder ''who'') []], ax_rest = ()\<rparr>\<rparr>\<rparr>"

definition demo_actions :: "(nat, unit action_ext) action_lib" where
  "demo_actions = engine_lib demo_os (\<lambda>k st. fail ''no action'')"

lemma demo_os_keeps: "keeps_heap demo_os"
  by (simp add: keeps_heap_def demo_os_def)

lemma demo_Pre: "fst (al_Pre demo_actions 0 (r_w demo_run)) = Returns None"
  by code_simp

theorem shell_script_removed_witness:
  "\<exists>filename command' w3.
     ReplaceWithParam (''echo '' @ placeholder ''who'') [(''who'', ''hi'')] = Inr command' \<and>
     drain demo_actions (r_stack (executeAction demo_actions (Some 0) demo_run))
       (r_w (executeAction demo_actions (Some 0) demo_run)) = Inr w3 \<and>
     (\<forall>d. GetFileData filename (w_fs w3) \<noteq> Inr d)"
proof -
  obtain w1 where pre: "al_Pre demo_actions 0 (r_w demo_run) = (Returns None, w1)"
    using demo_Pre by (metis prod.collapse)
  have "get_h 0 (r_w demo_run) = H_Shell (''echo '' @ placeholder ''who'') []" "0 < length (ax_heap (w_ext (r_w demo_run)))"
    "jd_Status (r_job demo_run) = STATUS_RUNNING" "r_stack demo_run = []"
    by (simp_all add: demo_run_def get_h_def)
  from shell_script_removed [OF demo_os_keeps this pre [unfolded demo_actions_def]]
  show ?thesis
    by (auto simp: demo_run_def demo_actions_def ctx_map_def ret_def m_load_def)
qed

end
