(* ===== verification/FileUtils.thy ===== *)
theory FileUtils
  imports FileStore
begin

text \<open>
  \<open>utils/file_utils.go\<close> (files below a directory, parts of paths) and \<open>utils/compress.go\<close> (zip archives).

  The searches recurse into subdirectories; the model gives the recursion as much fuel as the deepest
  path of the file system is long, and \<open>find_files_complete\<close> shows that this is enough.  The pattern
  matcher \<open>filepath.Match\<close> is an argument.  A zip archive is the list of its entries, a name
  with the data; \<open>subString\<close> cuts runes, which for the paths modelled (ASCII) are the bytes.
\<close>

section \<open>Searching files\<close>

definition dir_entries :: "string \<Rightarrow> fs \<Rightarrow> string list" where
  "dir_entries workdir fs = (case ReadDir (path_of workdir) fs of Inl e \<Rightarrow> [] | Inr files \<Rightarrow> files)"

definition entry_IsDir :: "string \<Rightarrow> string \<Rightarrow> fs \<Rightarrow> bool" where
  "entry_IsDir workdir name fs \<longleftrightarrow> fs_lookup fs (path_of workdir @ [name]) = Some FDir"

definition fs_depth :: "fs \<Rightarrow> nat" where
  "fs_depth fs = foldr max (map length (m_keys (fs_nodes fs))) 0"

fun find_files :: "nat \<Rightarrow> (string \<Rightarrow> string \<Rightarrow> bool) \<Rightarrow> fs \<Rightarrow> string \<Rightarrow> string list \<Rightarrow> string list option" where
  "find_files 0 P fs workdir pathList = None"
| "find_files (Suc n) P fs workdir pathList =
     foldl (\<lambda>acc name. case acc of None \<Rightarrow> None | Some pl \<Rightarrow>
        (let currentPath = workdir @ ''/'' @ name in
         if entry_IsDir workdir name fs then find_files n P fs currentPath pl
         else if P name currentPath then Some (pl @ [currentPath]) else Some pl))
       (Some pathList) (dir_entries workdir fs)"

definition GetSuffixFiles :: "string \<Rightarrow> string \<Rightarrow> string list \<Rightarrow> fs \<Rightarrow> string list option" where
  "GetSuffixFiles workdir suffixName pathList fs =
     find_files (Suc (fs_depth fs)) (\<lambda>name currentPath. Ext currentPath = suffixName) fs workdir pathList"

definition GetSameFileNameFiles :: "string \<Rightarrow> string \<Rightarrow> string list \<Rightarrow> fs \<Rightarrow> string list option" where
  "GetSameFileNameFiles workdir fileName pathList fs =
     find_files (Suc (fs_depth fs)) (\<lambda>name currentPath. name = fileName) fs workdir pathList"

text \<open>
  \<open>GetFiles\<close>: the flag of the last pattern, kept from one entry to the next, decides whether a directory is
  searched.
\<close>

fun match_paths :: "(string \<Rightarrow> string \<Rightarrow> bool res) \<Rightarrow> string \<Rightarrow> string list \<Rightarrow> bool \<times> string list \<Rightarrow>
    bool \<times> string list" where
  "match_paths mt currentPath [] st = st"
| "match_paths mt currentPath (p # ps) (flag, pathList) =
     (case mt p currentPath of
        Inl e \<Rightarrow> match_paths mt currentPath ps (False, pathList)
      | Inr matched \<Rightarrow> match_paths mt currentPath ps
          (matched, if matched then pathList @ [currentPath] else pathList))"

fun GetFiles :: "nat \<Rightarrow> (string \<Rightarrow> string \<Rightarrow> bool res) \<Rightarrow> string \<Rightarrow> string list \<Rightarrow> string list \<Rightarrow> fs \<Rightarrow>
    string list option" where
  "GetFiles 0 mt workdir fuzzyPath pathList fs = None"
| "GetFiles (Suc n) mt workdir fuzzyPath pathList fs =
     map_option snd (foldl (\<lambda>acc name. case acc of None \<Rightarrow> None | Some st \<Rightarrow>
        (let currentPath = workdir @ ''/'' @ name; (flag, pl) = match_paths mt currentPath fuzzyPath st in
         if entry_IsDir workdir name fs \<and> \<not> flag
         then map_option (\<lambda>pl'. (flag, pl')) (GetFiles n mt currentPath fuzzyPath pl fs)
         else Some (flag, pl)))
       (Some (False, pathList)) (dir_entries workdir fs))"

section \<open>Parts of a path\<close>

definition GetFilenameWithSuffixAndFilenameOnly :: "string \<Rightarrow> string \<times> string" where
  "GetFilenameWithSuffixAndFilenameOnly p =
     (let file' = after_slash p;
          filenameWithSuffix = Base file';
          fileSuffix = Ext filenameWithSuffix;
          filenameOnly = TrimSuffix filenameWithSuffix fileSuffix in
      (filenameWithSuffix, filenameOnly))"

definition GetRedundantPath :: "string \<Rightarrow> string \<Rightarrow> string res go" where
  "GetRedundantPath shortPath longPath =
     (if Index longPath shortPath = 0
      then (let relativePath = drop (length shortPath) longPath in
            then_do (index_at relativePath 0) (\<lambda>c.
              Inr (Inr (if c = CHR ''/'' then tl relativePath else relativePath))))
      else Inr (Inl ''path does not contain''))"

section \<open>Zip archives\<close>

definition subString :: "string \<Rightarrow> int \<Rightarrow> int \<Rightarrow> string go" where
  "subString str start end' =
     (let len = int (length str) in
      if start < 0 \<or> start > len then Inl (PanicMsg ''start is wrong'')
      else if end' < start \<or> end' > len then Inl (PanicMsg ''end is wrong'')
      else Inr (drop (nat start) (take (nat end') str)))"

definition getDir :: "string \<Rightarrow> string go" where
  "getDir p = subString p 0 (LastIndex p ''/'')"

type_synonym zip = "(string \<times> string) list"

text \<open>
  \<open>compress\<close>: a directory adds its name to the prefix, a file becomes the entry \<open>prefix/name\<close>.  \<open>ord\<close> is the
  order in which \<open>Readdir\<close> lists a directory.
\<close>

fun compress :: "nat \<Rightarrow> (string list \<Rightarrow> string list) \<Rightarrow> fs \<Rightarrow> string \<Rightarrow> string \<Rightarrow> zip \<Rightarrow>
    (error option \<times> zip) option" where
  "compress 0 ord fs f pre zw = None"
| "compress (Suc n) ord fs f pre zw =
     (case Stat fs (path_of f) of
        Inl e \<Rightarrow> Some (Some (errno_msg e), zw)
      | Inr (FFile d) \<Rightarrow> Some (None, zw @ [(pre @ ''/'' @ Base f, d)])
      | Inr FDir \<Rightarrow>
          (case ReadDir (path_of f) fs of
             Inl e \<Rightarrow> Some (Some (errno_msg e), zw)
           | Inr names \<Rightarrow>
               foldl (\<lambda>acc name. case acc of
                   Some (None, zw') \<Rightarrow>
                     (case ReadFile (path_of (f @ ''/'' @ name)) fs of
                        Inl EACCES \<Rightarrow> Some (Some (errno_msg EACCES), zw')
                      | _ \<Rightarrow> compress n ord fs (f @ ''/'' @ name) (pre @ ''/'' @ Base f) zw')
                 | _ \<Rightarrow> acc) (Some (None, zw)) (ord names)))"

fun compress_all :: "nat \<Rightarrow> (string list \<Rightarrow> string list) \<Rightarrow> fs \<Rightarrow> string list \<Rightarrow> zip \<Rightarrow>
    (error option \<times> zip) option" where
  "compress_all n ord fs [] zw = Some (None, zw)"
| "compress_all n ord fs (f # files) zw =
     (case compress n ord fs f [] zw of
        Some (None, zw') \<Rightarrow> compress_all n ord fs files zw'
      | r \<Rightarrow> r)"

text \<open>
  \<open>CompressZip\<close>: the error of \<open>os.Create\<close> is dropped; \<open>nil_file\<close> is what the zip writer reports when it writes to
  no file.  The entries written before an error are in the archive.
\<close>

definition CompressZip :: "(zip \<Rightarrow> string) \<Rightarrow> (zip \<Rightarrow> error option) \<Rightarrow> (string list \<Rightarrow> string list) \<Rightarrow>
    string list \<Rightarrow> string \<Rightarrow> fs \<Rightarrow> (error option \<times> fs) option" where
  "CompressZip zip_bytes nil_file ord files dest fs =
     (case (if Stat fs (path_of (Dir dest)) = Inl ENOENT then MkdirAll (path_of (Dir dest)) fs else (None, fs)) of
        (Some e, fs1) \<Rightarrow> Some (Some (errno_msg e), fs1)
      | (None, fs1) \<Rightarrow>
          (case WriteFile (path_of dest) [] fs1 of
             (Some e, fs2) \<Rightarrow>
               map_option (\<lambda>(err, zw). (if err = None then nil_file zw else err, fs2))
                 (compress_all (Suc (fs_depth fs2)) ord fs2 files [])
           | (None, fs2) \<Rightarrow>
               map_option (\<lambda>(err, zw). (err, snd (WriteFile (path_of dest) (zip_bytes zw) fs2)))
                 (compress_all (Suc (fs_depth fs2)) ord fs2 files [])))"

text \<open>One entry of \<open>DeCompressZip\<close>: the name is appended to the destination as it is.\<close>

fun unzip_entries :: "string \<Rightarrow> zip \<Rightarrow> fs \<Rightarrow> (error option \<times> fs) go" where
  "unzip_entries dest [] fs = Inr (None, fs)"
| "unzip_entries dest ((name, dat) # es) fs =
     (let filename = dest @ name in
      then_do (getDir filename) (\<lambda>dir.
        case MkdirAll (path_of dir) fs of
          (Some e, fs1) \<Rightarrow> Inr (Some (errno_msg e), fs1)
        | (None, fs1) \<Rightarrow> (case WriteFile (path_of filename) dat fs1 of
              (Some e, fs2) \<Rightarrow> Inr (Some (errno_msg e), fs2)
            | (None, fs2) \<Rightarrow> unzip_entries dest es fs2)))"

definition DeCompressZip :: "(string \<Rightarrow> zip res) \<Rightarrow> string \<Rightarrow> string \<Rightarrow> fs \<Rightarrow> (error option \<times> fs) go" where
  "DeCompressZip unzip zipFile dest fs =
     (case ReadFile (path_of zipFile) fs of
        Inl e \<Rightarrow> Inr (Some (errno_msg e), fs)
      | Inr d \<Rightarrow> (case unzip d of Inl e \<Rightarrow> Inr (Some e, fs) | Inr es \<Rightarrow> unzip_entries dest es fs))"

section \<open>The searches find every file once\<close>

lemma fs_depth_bound: "q \<in> set (m_keys (fs_nodes fs)) \<Longrightarrow> length q \<le> fs_depth fs"
proof -
  have "x \<in> set xs \<Longrightarrow> x \<le> foldr max xs 0" for x :: nat and xs
    by (induction xs) auto
  then show "q \<in> set (m_keys (fs_nodes fs)) \<Longrightarrow> length q \<le> fs_depth fs"
    by (simp add: fs_depth_def)
qed

text \<open>A file system whose entries have ordinary names, each once.\<close>

definition fs_plain :: "fs \<Rightarrow> bool" where
  "fs_plain fs \<longleftrightarrow> fs_ok fs \<and> m_wf (fs_nodes fs) \<and> list_all (list_all good_comp) (m_keys (fs_nodes fs)) \<and>
     [] \<notin> set (m_keys (fs_nodes fs))"

lemma fs_lookup_key: "q \<noteq> [] \<Longrightarrow> fs_lookup fs q \<noteq> None \<longleftrightarrow> q \<in> set (m_keys (fs_nodes fs))"
  by (simp add: fs_lookup_def gm.keys_load)

lemma children_iff: "name \<in> set (fs_children fs p) \<longleftrightarrow> p @ [name] \<in> set (m_keys (fs_nodes fs))"
proof
  assume "name \<in> set (fs_children fs p)"
  then obtain q where "q \<in> set (m_keys (fs_nodes fs))" "q \<noteq> []" "butlast q = p" "last q = name"
    by (auto simp: fs_children_def)
  then show "p @ [name] \<in> set (m_keys (fs_nodes fs))" by (metis append_butlast_last_id)
next
  assume "p @ [name] \<in> set (m_keys (fs_nodes fs))"
  then show "name \<in> set (fs_children fs p)"
    by (auto simp: fs_children_def intro!: image_eqI [of _ _ "p @ [name]"])
qed

lemma distinct_children: "m_wf (fs_nodes fs) \<Longrightarrow> distinct (fs_children fs p)"
proof -
  have "inj_on last {q. q \<noteq> [] \<and> butlast q = p}"
    by (rule inj_onI) (metis (mono_tags) append_butlast_last_id mem_Collect_eq)
  then have "inj_on last (set (filter (\<lambda>q. q \<noteq> [] \<and> butlast q = p) (m_keys (fs_nodes fs))))"
    by (rule inj_on_subset) auto
  then show "m_wf (fs_nodes fs) \<Longrightarrow> distinct (fs_children fs p)"
    by (simp add: fs_children_def distinct_map m_wf_def)
qed

definition found :: "(string \<Rightarrow> string \<Rightarrow> bool) \<Rightarrow> fs \<Rightarrow> path \<Rightarrow> path set" where
  "found P fs dir = {q. strict_prefix dir q \<and> (\<exists>d. fs_lookup fs q = Some (FFile d)) \<and> P (last q) (abs_path q)}"

definition found_at :: "(string \<Rightarrow> string \<Rightarrow> bool) \<Rightarrow> fs \<Rightarrow> path \<Rightarrow> path set" where
  "found_at P fs p = {q. prefix p q \<and> (\<exists>d. fs_lookup fs q = Some (FFile d)) \<and> P (last q) (abs_path q)}"

lemma found_at_dir: "fs_lookup fs p = Some FDir \<Longrightarrow> found_at P fs p = found P fs p"
  by (auto simp: found_at_def found_def strict_prefix_def)

lemma found_at_file:
  assumes "fs_ok fs" and "fs_lookup fs p = Some (FFile d)" and "p \<noteq> []"
  shows "found_at P fs p = (if P (last p) (abs_path p) then {p} else {})"
proof -
  have "q = p" if "prefix p q" "fs_lookup fs q = Some n" for q n
  proof (rule ccontr)
    assume "q \<noteq> p"
    then obtain r where "q = p @ r" "r \<noteq> []" using \<open>prefix p q\<close> by (auto simp: prefix_def)
    then show False using fs_ok_prefix [OF assms(1), of p r n] that(2) assms(2) by simp
  qed
  then show ?thesis using assms(2) by (auto simp: found_at_def)
qed

lemma found_split:
  assumes "fs_plain fs"
  shows "found P fs dir = (\<Union>name \<in> set (fs_children fs dir). found_at P fs (dir @ [name]))"
proof -
  have "\<exists>name \<in> set (fs_children fs dir). prefix (dir @ [name]) q"
    if q: "strict_prefix dir q" "fs_lookup fs q = Some n" for q n
  proof -
    obtain c r where qr: "q = dir @ c # r" using q(1) by (auto elim: strict_prefixE')
    have "fs_lookup fs (dir @ [c]) \<noteq> None"
    proof (cases "r = []")
      case False
      then show ?thesis using fs_ok_prefix [of fs "dir @ [c]" r n] assms q(2) qr by (simp add: fs_plain_def)
    qed (use q(2) qr in simp)
    then have "dir @ [c] \<in> set (m_keys (fs_nodes fs))" using fs_lookup_key [of "dir @ [c]"] by simp
    then show ?thesis using qr by (intro bexI [of _ c]) (auto simp: children_iff)
  qed
  then show ?thesis by (fastforce simp: found_def found_at_def strict_prefix_def dest: append_prefixD)
qed

lemma fs_plain_dir_good:
  assumes "fs_plain fs" and "fs_lookup fs p = Some n"
  shows "list_all good_comp p"
proof (cases "p = []")
  case False
  then have "p \<in> set (m_keys (fs_nodes fs))" using assms(2) fs_lookup_key [of p fs] by simp
  with assms(1) show ?thesis by (simp add: fs_plain_def list_all_iff)
qed simp

lemma child_path:
  assumes "list_all good_comp dir" and "dir \<noteq> []"
  shows "abs_path dir @ ''/'' @ name = abs_path (dir @ [name])"
  using assms by (simp add: abs_path_snoc)

lemma dir_entries_set:
  assumes "fs_plain fs" and "list_all good_comp dir"
  shows "set (dir_entries (abs_path dir) fs) \<subseteq> set (fs_children fs dir) \<and> distinct (dir_entries (abs_path dir) fs) \<and>
    (fs_lookup fs dir = Some FDir \<longrightarrow> set (dir_entries (abs_path dir) fs) = set (fs_children fs dir))"
proof -
  have ok: "fs_ok fs" "m_wf (fs_nodes fs)" using assms(1) by (simp_all add: fs_plain_def)
  have "ReadDir dir fs = Inr (sort (fs_children fs dir))" if "fs_lookup fs dir = Some FDir"
    using that ok fs_ok_dirs [OF ok(1) that] Stat_Inr [of fs dir FDir] by (simp add: ReadDir_def fs_ok_def)
  moreover have "ReadDir dir fs = Inr names \<Longrightarrow> names = sort (fs_children fs dir)" for names
    by (auto simp: ReadDir_def split: sum.splits fnode.splits if_splits)
  moreover have "dir_entries (abs_path dir) fs = (case ReadDir dir fs of Inl e \<Rightarrow> [] | Inr names \<Rightarrow> names)"
    using assms(2) by (simp add: dir_entries_def)
  ultimately show ?thesis
    using distinct_children [OF ok(2), of dir] by (cases "ReadDir dir fs") auto
qed

lemma find_files_found:
  assumes "fs_plain fs"
  shows "list_all good_comp dir \<Longrightarrow> dir \<noteq> [] \<Longrightarrow> 0 < n \<Longrightarrow> fs_depth fs < n + length dir \<Longrightarrow>
    \<exists>L. find_files n P fs (abs_path dir) pl = Some (pl @ map abs_path L) \<and> distinct L \<and> set L = found P fs dir"
proof (induction n arbitrary: dir pl)
  case (Suc n)
  have ok: "fs_ok fs" using assms by (simp add: fs_plain_def)
  let ?f = "\<lambda>acc name. case acc of None \<Rightarrow> None | Some pl \<Rightarrow>
        (let currentPath = abs_path dir @ ''/'' @ name in
         if entry_IsDir (abs_path dir) name fs then find_files n P fs currentPath pl
         else if P name currentPath then Some (pl @ [currentPath]) else Some pl)"
  have entry: "\<exists>L. ?f (Some pl) name = Some (pl @ map abs_path L) \<and> distinct L \<and>
      set L = found_at P fs (dir @ [name])"
    if name: "name \<in> set (fs_children fs dir)" for name pl
  proof -
    have key: "dir @ [name] \<in> set (m_keys (fs_nodes fs))" using name by (simp add: children_iff)
    then obtain nd where nd: "fs_lookup fs (dir @ [name]) = Some nd"
      using fs_lookup_key [of "dir @ [name]" fs] by auto
    have g: "list_all good_comp (dir @ [name])" by (rule fs_plain_dir_good [OF assms nd])
    have cp: "abs_path dir @ ''/'' @ name = abs_path (dir @ [name])"
      by (rule child_path [OF Suc.prems(1,2)])
    show ?thesis
    proof (cases nd)
      case FDir
      have "length (dir @ [name]) \<le> fs_depth fs" by (rule fs_depth_bound [OF key])
      then have n: "0 < n" "fs_depth fs < n + length (dir @ [name])" using Suc.prems(4) by auto
      from Suc.IH [OF g _ n, of pl] show ?thesis
        using nd FDir cp Suc.prems(1) found_at_dir [of fs "dir @ [name]" P]
        by (simp add: entry_IsDir_def)
    next
      case (FFile d)
      with nd found_at_file [OF ok, of "dir @ [name]" d P] cp Suc.prems(1) show ?thesis
        by (cases "P name (abs_path (dir @ [name]))")
          (auto simp: entry_IsDir_def intro: exI [of _ "[dir @ [name]]"])
    qed
  qed
  have names: "\<exists>L. foldl ?f (Some pl) names = Some (pl @ map abs_path L) \<and> distinct L \<and>
      set L = (\<Union>name \<in> set names. found_at P fs (dir @ [name]))"
    if "set names \<subseteq> set (fs_children fs dir)" "distinct names" for names pl
    using that
  proof (induction names arbitrary: pl)
    case (Cons name names)
    obtain L1 where L1: "?f (Some pl) name = Some (pl @ map abs_path L1)" "distinct L1"
      "set L1 = found_at P fs (dir @ [name])" using entry [of name pl] Cons.prems by auto
    obtain L2 where L2: "foldl ?f (Some (pl @ map abs_path L1)) names = Some ((pl @ map abs_path L1) @ map abs_path L2)"
      "distinct L2" "set L2 = (\<Union>name \<in> set names. found_at P fs (dir @ [name]))"
      using Cons.IH [of "pl @ map abs_path L1"] Cons.prems by auto
    have "found_at P fs (dir @ [name]) \<inter> found_at P fs (dir @ [b]) = {}" if "b \<in> set names" for b
    proof -
      have "name \<noteq> b" using that Cons.prems(2) by auto
      then show ?thesis unfolding found_at_def prefix_def by auto
    qed
    then have "set L1 \<inter> set L2 = {}" unfolding L1(3) L2(3) by blast
    then have L: "distinct (L1 @ L2)" "set (L1 @ L2) = (\<Union>n \<in> set (name # names). found_at P fs (dir @ [n]))"
      using L1(2,3) L2(2,3) by simp_all
    have "foldl ?f (Some pl) (name # names) = foldl ?f (?f (Some pl) name) names" by (rule foldl_Cons)
    also have "\<dots> = Some ((pl @ map abs_path L1) @ map abs_path L2)" unfolding L1(1) by (rule L2(1))
    finally have "foldl ?f (Some pl) (name # names) = Some (pl @ map abs_path (L1 @ L2))" by simp
    with L show ?case by blast
  qed simp
  show ?case
  proof (cases "fs_lookup fs dir = Some FDir")
    case True
    with names [of "dir_entries (abs_path dir) fs" pl] dir_entries_set [OF assms Suc.prems(1)] show ?thesis
      by (auto simp: found_split [OF assms])
  next
    case False
    have "found P fs dir = {}"
    proof -
      have "fs_lookup fs dir = Some FDir" if "strict_prefix dir q" "fs_lookup fs q = Some n" for q n
      proof -
        obtain r where "q = dir @ r" "r \<noteq> []" using \<open>strict_prefix dir q\<close> by (auto simp: strict_prefix_def prefix_def)
        then show ?thesis using fs_ok_prefix [OF ok, of dir r n] that(2) by simp
      qed
      with False show ?thesis by (auto simp: found_def)
    qed
    moreover have "dir_entries (abs_path dir) fs = []"
      using False Suc.prems(1) Stat_Inr [of fs dir FDir]
      by (auto simp: dir_entries_def ReadDir_def split: sum.splits fnode.splits)
    ultimately show ?thesis by auto
  qed
qed simp

text \<open>
  C25. The search for files with a suffix terminates within the fuel it is given and returns every regular
  file at any depth below the directory whose name has that suffix, each once, and nothing else;
  the search for a file name likewise.
\<close>

theorem find_files_complete:
  assumes "fs_plain fs" and "list_all good_comp dir" and "dir \<noteq> []"
  shows "\<exists>L M. GetSuffixFiles (abs_path dir) sfx pl fs = Some (pl @ map abs_path L) \<and> distinct L \<and>
    set L = {q. strict_prefix dir q \<and> (\<exists>d. fs_lookup fs q = Some (FFile d)) \<and> Ext (abs_path q) = sfx} \<and>
    GetSameFileNameFiles (abs_path dir) name pl fs = Some (pl @ map abs_path M) \<and> distinct M \<and>
    set M = {q. strict_prefix dir q \<and> (\<exists>d. fs_lookup fs q = Some (FFile d)) \<and> last q = name}"
  using find_files_found [OF assms(1-3), of "Suc (fs_depth fs)" "\<lambda>name currentPath. Ext currentPath = sfx" pl]
    find_files_found [OF assms(1-3), of "Suc (fs_depth fs)" "\<lambda>n currentPath. n = name" pl]
  unfolding GetSuffixFiles_def GetSameFileNameFiles_def found_def by auto

definition demo_tree :: fs where
  "demo_tree = \<lparr>fs_nodes = [([''w''], FDir), ([''w'', ''a.sol''], FFile ''A''), ([''w'', ''lib''], FDir),
     ([''w'', ''lib'', ''b.sol''], FFile ''B''), ([''w'', ''c.txt''], FFile ''C'')], fs_deny = []\<rparr>"

lemma demo_tree_plain: "fs_plain demo_tree"
proof -
  have "fs_lookup demo_tree (butlast q) = Some FDir" if q: "fs_lookup demo_tree q = Some n" "q \<noteq> []" for q n
  proof -
    have "(q, n) \<in> set (fs_nodes demo_tree)" using q by (auto simp: fs_lookup_def dest: m_load_Some_in)
    then show ?thesis by (auto simp: demo_tree_def fs_lookup_def m_load_def)
  qed
  then have "fs_ok demo_tree" by (simp add: fs_ok_def) (simp add: demo_tree_def)
  then show ?thesis
    by (simp add: fs_plain_def demo_tree_def m_wf_def m_keys_def good_comp_def dot_def dotdot_def)
qed

theorem find_files_complete_witness:
  "\<exists>L. GetSuffixFiles (abs_path [''w'']) ''.sol'' [] demo_tree = Some (map abs_path L) \<and> distinct L"
  using find_files_complete [OF demo_tree_plain, of "[''w'']" "''.sol''" "[]" "''a.sol''"]
  by (auto simp: good_comp_def dot_def dotdot_def)

section \<open>Zip and unzip\<close>

lemma abs_path_Cons: "xs \<noteq> [] \<Longrightarrow> abs_path (a # xs) = CHR ''/'' # a @ abs_path xs"
  by (simp add: abs_path_def Join_Cons)

definition content :: "fs \<Rightarrow> path \<Rightarrow> string" where
  "content fs q = (case fs_lookup fs q of Some (FFile d) \<Rightarrow> d | _ \<Rightarrow> [])"

definition zip_entry :: "fs \<Rightarrow> string \<Rightarrow> path \<Rightarrow> path \<Rightarrow> string \<times> string" where
  "zip_entry fs pre p q = (pre @ abs_path (drop (length (butlast p)) q), content fs q)"

lemma zip_entry_child:
  assumes "prefix (p @ [name]) q" and "p \<noteq> []"
  shows "zip_entry fs (pre @ CHR ''/'' # last p) (p @ [name]) q = zip_entry fs pre p q"
proof -
  obtain r where q: "q = p @ name # r" using assms(1) by (auto simp: prefix_def)
  have "drop (length (butlast p)) q = last p # name # r"
    using assms(2) by (cases p rule: rev_cases) (simp_all add: q)
  then show ?thesis by (simp add: zip_entry_def q abs_path_Cons)
qed

lemma compress_found:
  assumes "fs_plain fs" and ord: "\<And>names. set (ord names) = set names \<and> (distinct names \<longrightarrow> distinct (ord names))"
  shows "p \<noteq> [] \<Longrightarrow> fs_lookup fs p \<noteq> None \<Longrightarrow> fs_depth fs < n + length p \<Longrightarrow>
    \<exists>L. compress n ord fs (abs_path p) pre zw = Some (None, zw @ map (zip_entry fs pre p) L) \<and> distinct L \<and>
      set L = found_at (\<lambda>a b. True) fs p"
proof (induction n arbitrary: p pre zw)
  case 0
  then have "p \<in> set (m_keys (fs_nodes fs))" using fs_lookup_key by blast
  with 0 fs_depth_bound show ?case by fastforce
next
  case (Suc n)
  have ok: "fs_ok fs" "m_wf (fs_nodes fs)" using assms by (simp_all add: fs_plain_def)
  obtain nd where nd: "fs_lookup fs p = Some nd" using Suc.prems(2) by auto
  have g: "list_all good_comp p" by (rule fs_plain_dir_good [OF assms(1) nd])
  have st: "Stat fs p = Inr nd" by (rule fs_ok_Stat_Some [OF ok(1) nd])
  have base: "Base (abs_path p) = last p"
    using Suc.prems(1) g Base_abs_path [of "butlast p" "last p"] by simp
  show ?case
  proof (cases nd)
    case (FFile d)
    have "drop (length (butlast p)) p = [last p]"
      using Suc.prems(1) by (cases p rule: rev_cases) simp_all
    then have "zip_entry fs pre p p = (pre @ ''/'' @ last p, d)"
      using nd FFile by (simp add: zip_entry_def content_def abs_path_def)
    then show ?thesis
      using st g base FFile found_at_file [OF ok(1), of p d "\<lambda>a b. True"] nd Suc.prems(1)
      by (intro exI [of _ "[p]"]) simp
  next
    case FDir
    let ?names = "sort (fs_children fs p)"
    have rd: "ReadDir p fs = Inr ?names" using st FDir ok(1) by (simp add: ReadDir_def fs_ok_def)
    define f where "f = (\<lambda>acc name. case acc of
                   Some (None, zw') \<Rightarrow>
                     (case ReadFile (path_of (abs_path p @ ''/'' @ name)) fs of
                        Inl EACCES \<Rightarrow> Some (Some (errno_msg EACCES), zw')
                      | _ \<Rightarrow> compress n ord fs (abs_path p @ ''/'' @ name) (pre @ ''/'' @ Base (abs_path p)) zw')
                 | _ \<Rightarrow> acc)"
    have entry: "\<exists>L. f (Some (None, zw')) name = Some (None, zw' @ map (zip_entry fs pre p) L) \<and> distinct L \<and>
        set L = found_at (\<lambda>a b. True) fs (p @ [name])"
      if name: "name \<in> set (fs_children fs p)" for name zw'
    proof -
      have key: "p @ [name] \<in> set (m_keys (fs_nodes fs))" using name by (simp add: children_iff)
      then have c: "fs_lookup fs (p @ [name]) \<noteq> None" using fs_lookup_key [of "p @ [name]" fs] by auto
      then have gc: "list_all good_comp (p @ [name])" using fs_plain_dir_good [OF assms(1)] by blast
      have cp: "abs_path p @ ''/'' @ name = abs_path (p @ [name])" by (rule child_path [OF g Suc.prems(1)])
      obtain L where L: "compress n ord fs (abs_path (p @ [name])) (pre @ ''/'' @ last p) zw' =
          Some (None, zw' @ map (zip_entry fs (pre @ ''/'' @ last p) (p @ [name])) L)" "distinct L"
        "set L = found_at (\<lambda>a b. True) fs (p @ [name])"
        using Suc.IH [of "p @ [name]" "pre @ ''/'' @ last p" zw'] c Suc.prems(3) by auto
      have "map (zip_entry fs (pre @ ''/'' @ last p) (p @ [name])) L = map (zip_entry fs pre p) L"
        using L(3) zip_entry_child [of p name _ fs pre] Suc.prems(1)
        by (intro map_cong) (auto simp: found_at_def)
      moreover have "ReadFile (p @ [name]) fs \<noteq> Inl EACCES"
        using c fs_ok_Stat_Some [OF ok(1)] ok(1) by (auto simp: ReadFile_def fs_ok_def split: fnode.splits)
      ultimately have "f (Some (None, zw')) name = Some (None, zw' @ map (zip_entry fs pre p) L)"
        using L(1) gc cp base by (auto simp: f_def split: sum.splits errno.splits)
      with L(2,3) show ?thesis by blast
    qed
    have names: "\<exists>L. foldl f (Some (None, zw')) names = Some (None, zw' @ map (zip_entry fs pre p) L) \<and> distinct L \<and>
        set L = (\<Union>name \<in> set names. found_at (\<lambda>a b. True) fs (p @ [name]))"
      if "set names \<subseteq> set (fs_children fs p)" "distinct names" for names zw'
      using that
    proof (induction names arbitrary: zw')
      case (Cons name names)
      obtain L1 where L1: "f (Some (None, zw')) name = Some (None, zw' @ map (zip_entry fs pre p) L1)" "distinct L1"
        "set L1 = found_at (\<lambda>a b. True) fs (p @ [name])" using entry [of name zw'] Cons.prems by auto
      obtain L2 where L2: "foldl f (Some (None, zw' @ map (zip_entry fs pre p) L1)) names =
          Some (None, (zw' @ map (zip_entry fs pre p) L1) @ map (zip_entry fs pre p) L2)"
        "distinct L2" "set L2 = (\<Union>name \<in> set names. found_at (\<lambda>a b. True) fs (p @ [name]))"
        using Cons.IH [of "zw' @ map (zip_entry fs pre p) L1"] Cons.prems by auto
      have "found_at (\<lambda>a b. True) fs (p @ [name]) \<inter> found_at (\<lambda>a b. True) fs (p @ [b]) = {}" if "b \<in> set names" for b
      proof -
        have "name \<noteq> b" using that Cons.prems(2) by auto
        then show ?thesis unfolding found_at_def prefix_def by auto
      qed
      then have "set L1 \<inter> set L2 = {}" unfolding L1(3) L2(3) by blast
      then have L: "distinct (L1 @ L2)" "set (L1 @ L2) =
          (\<Union>n \<in> set (name # names). found_at (\<lambda>a b. True) fs (p @ [n]))"
        using L1(2,3) L2(2,3) by simp_all
      have "foldl f (Some (None, zw')) (name # names) = Some (None, zw' @ map (zip_entry fs pre p) (L1 @ L2))"
        using L2(1) by (simp add: L1(1))
      with L show ?case by blast
    qed simp
    have "compress (Suc n) ord fs (abs_path p) pre zw = foldl f (Some (None, zw)) (ord ?names)"
      using st g rd FDir by (simp add: f_def)
    then show ?thesis
      using names [of "ord ?names" zw] ord [of ?names] distinct_children [OF ok(2), of p]
        found_at_dir [of fs p "\<lambda>a b. True"] found_split [OF assms(1), of "\<lambda>a b. True" p] nd FDir
      by auto
  qed
qed

lemma read_adds:
  assumes "adds_dirs p fs fs'" and "readStringFromFile q fs = Inr t"
  shows "readStringFromFile q fs' = Inr t"
  using assms adds_dirs_dirs_ok [OF assms(1)] adds_dirs_Some [OF assms(1)]
  by (auto simp: read_iff adds_dirs_def)

lemma read_write_other:
  assumes "WriteFile p c fs = (None, fs')" and "path_of q \<noteq> p" and "readStringFromFile q fs = Inr t"
  shows "readStringFromFile q fs' = Inr t"
  using WriteFile_None [OF assms(1)] assms(2,3) dirs_ok_put [of fs "path_of q" p "FFile c"]
  by (simp add: read_iff)

lemma read_write_same:
  assumes "WriteFile (path_of p) c fs = (None, fs')"
  shows "readStringFromFile p fs' = Inr c"
  using WriteFile_None [OF assms] dirs_ok_put [of fs "path_of p" "path_of p" "FFile c"] by (simp add: read_iff)

lemma abs_path_under': "ds \<noteq> [] \<Longrightarrow> p \<noteq> [] \<Longrightarrow> abs_path ds @ abs_path p = abs_path (ds @ p)"
  by (simp add: abs_path_def Join_append_single)

lemma str_index_first: "c \<notin> set a \<Longrightarrow> str_index (a @ c # b) [c] = Some (length a)"
  by (induction a) auto

lemma getDir_abs_path:
  assumes "list_all good_comp (xs @ [x])" and "xs \<noteq> []"
  shows "getDir (abs_path (xs @ [x])) = Inr (abs_path xs)"
proof -
  have p: "abs_path (xs @ [x]) = abs_path xs @ CHR ''/'' # x" using assms(2) by (simp add: abs_path_snoc)
  have "LastIndex (abs_path xs @ CHR ''/'' # x) ''/'' = int (length (abs_path xs))"
    using assms(1) str_index_first [of "CHR ''/''" "rev x" "rev (abs_path xs)"]
    by (simp add: LastIndex_def good_comp_def)
  then show ?thesis by (simp add: getDir_def subString_def p Let_def)
qed

definition entries_at :: "(path \<times> string) list \<Rightarrow> zip" where
  "entries_at es = map (\<lambda>(p, d). (abs_path p, d)) es"

lemma unzip_spec:
  assumes ds: "list_all good_comp ds" "ds \<noteq> []"
  shows "list_all (\<lambda>(p, d). p \<noteq> [] \<and> list_all good_comp p) es \<Longrightarrow> distinct (map fst es) \<Longrightarrow>
    \<exists>err fs'. unzip_entries (abs_path ds) (entries_at es) fs = Inr (err, fs') \<and>
      (\<forall>q t. path_of q \<notin> (\<lambda>(p, d). ds @ p) ` set es \<longrightarrow> readStringFromFile q fs = Inr t \<longrightarrow>
        readStringFromFile q fs' = Inr t) \<and>
      (err = None \<longrightarrow> (\<forall>(p, d) \<in> set es. readStringFromFile (abs_path (ds @ p)) fs' = Inr d))"
proof (induction es arbitrary: fs)
  case (Cons e es)
  obtain p d where e: "e = (p, d)" by force
  have p: "p \<noteq> []" "list_all good_comp p" using Cons.prems(1) e by auto
  define xs x where "xs = ds @ butlast p" and "x = last p"
  have f: "abs_path ds @ abs_path p = abs_path (xs @ [x])" "ds @ p = xs @ [x]"
    using ds p abs_path_under' by (simp_all add: xs_def x_def)
  have g: "list_all good_comp (xs @ [x])" "xs \<noteq> []" using ds p f(2) by (simp_all flip: f(2)) (simp add: xs_def)
  obtain e1 fs1 where m: "MkdirAll (path_of (abs_path xs)) fs = (e1, fs1)" by force
  note ad = MkdirAll_adds [OF m, THEN conjunct1]
  show ?case
  proof (cases e1)
    case (Some er)
    then have "unzip_entries (abs_path ds) (entries_at (e # es)) fs = Inr (Some (errno_msg er), fs1)"
      using e f m getDir_abs_path [OF g] by (simp add: entries_at_def)
    then show ?thesis using read_adds [OF ad] by auto
  next
    case None
    obtain e2 fs2 where w: "WriteFile (path_of (abs_path (xs @ [x]))) d fs1 = (e2, fs2)" by force
    show ?thesis
    proof (cases e2)
      case (Some er)
      then have "fs2 = fs1" using WriteFile_cases [OF w] by simp
      with Some have "unzip_entries (abs_path ds) (entries_at (e # es)) fs = Inr (Some (errno_msg er), fs1)"
        using e f m w None getDir_abs_path [OF g] by (simp add: entries_at_def)
      then show ?thesis using read_adds [OF ad] by auto
    next
      case 2: None
      obtain err fs' where u: "unzip_entries (abs_path ds) (entries_at es) fs2 = Inr (err, fs')"
        "\<And>q t. path_of q \<notin> (\<lambda>(p, d). ds @ p) ` set es \<Longrightarrow> readStringFromFile q fs2 = Inr t \<Longrightarrow>
          readStringFromFile q fs' = Inr t"
        "err = None \<Longrightarrow> (p', d') \<in> set es \<Longrightarrow> readStringFromFile (abs_path (ds @ p')) fs' = Inr d'" for p' d'
        using Cons.IH [of fs2] Cons.prems by force
      have step: "unzip_entries (abs_path ds) (entries_at (e # es)) fs = Inr (err, fs')"
        using e f m w None 2 u(1) getDir_abs_path [OF g] by (simp add: entries_at_def)
      have pw: "path_of (abs_path (xs @ [x])) = ds @ p" using g f(2) by simp
      have "path_of (abs_path (ds @ p)) \<notin> (\<lambda>(p, d). ds @ p) ` set es"
        using Cons.prems e pw f(2) by (auto simp: rev_image_eqI)
      moreover have "readStringFromFile (abs_path (ds @ p)) fs2 = Inr d"
        using read_write_same w 2 f(2) by simp
      ultimately have mine: "readStringFromFile (abs_path (ds @ p)) fs' = Inr d" by (rule u(2))
      have "readStringFromFile q fs' = Inr t"
        if "path_of q \<notin> (\<lambda>(p, d). ds @ p) ` set (e # es)" "readStringFromFile q fs = Inr t" for q t
        using that e pw read_write_other [OF w [unfolded 2], of q t] read_adds [OF ad that(2)] u(2) by auto
      with step mine u(3) e show ?thesis by (intro exI [of _ err] exI [of _ fs']) auto
    qed
  qed
qed (simp add: entries_at_def)

text \<open>Nothing is in the way of an archive none of whose names leads through another.\<close>

lemma unzip_room:
  assumes ds: "list_all good_comp ds" "ds \<noteq> []"
  shows "list_all (\<lambda>(p, d). p \<noteq> [] \<and> list_all good_comp p) es \<Longrightarrow> distinct (map fst es) \<Longrightarrow>
    (\<forall>p \<in> fst ` set es. \<forall>p' \<in> fst ` set es. prefix p p' \<longrightarrow> p = p') \<Longrightarrow> fs_deny fs = [] \<Longrightarrow>
    (\<forall>p \<in> fst ` set es. fs_lookup fs (ds @ p) \<noteq> Some FDir \<and>
      (\<forall>q x. strict_prefix q (ds @ p) \<longrightarrow> fs_lookup fs q \<noteq> Some (FFile x))) \<Longrightarrow>
    \<exists>fs'. unzip_entries (abs_path ds) (entries_at es) fs = Inr (None, fs')"
proof (induction es arbitrary: fs)
  case (Cons e es)
  obtain p d where e: "e = (p, d)" by force
  have p: "p \<noteq> []" "list_all good_comp p" using Cons.prems(1) e by auto
  define xs x where "xs = ds @ butlast p" and "x = last p"
  have f: "abs_path ds @ abs_path p = abs_path (xs @ [x])" "ds @ p = xs @ [x]"
    using ds p abs_path_under' by (simp_all add: xs_def x_def)
  have g: "list_all good_comp (xs @ [x])" "xs \<noteq> []" using ds p f(2) by (simp_all flip: f(2)) (simp add: xs_def)
  have "strict_prefix q (xs @ [x])" if "prefix q xs" for q
    using that by (auto simp: strict_prefix_def dest: prefix_length_le)
  then have room: "fs_lookup fs (xs @ [x]) \<noteq> Some FDir" "\<And>q y. prefix q xs \<Longrightarrow> fs_lookup fs q \<noteq> Some (FFile y)"
    using Cons.prems(5) e f(2) by auto
  obtain e1 fs1 where m: "MkdirAll xs fs = (e1, fs1)" by force
  have "fst (mkdir_from [] xs fs) = None" using Cons.prems(4) room(2) by (intro mkdir_from_free) auto
  then have e1: "e1 = None" using m by (simp add: MkdirAll_def)
  have ad: "adds_dirs xs fs fs1" "Stat fs1 xs = Inr FDir" using MkdirAll_adds [OF m] e1 by auto
  have deny: "fs_deny fs1 = []" using ad(1) Cons.prems(4) by (simp add: adds_dirs_def)
  have "\<not> prefix (xs @ [x]) xs" by (auto dest: prefix_length_le)
  then have "fs_lookup fs1 (xs @ [x]) = fs_lookup fs (xs @ [x])" using ad(1) unfolding adds_dirs_def by blast
  then have nd: "fs_lookup fs1 (xs @ [x]) \<noteq> Some FDir" using room(1) by simp
  have "dirs_ok fs1 (xs @ [x])" using ad(2) deny by (simp add: dirs_ok_snoc Stat_Inr)
  then have w: "WriteFile (xs @ [x]) d fs1 = (None, fs_put (xs @ [x]) (FFile d) fs1)"
    using deny nd by (intro WriteFile_ok) auto
  let ?fs2 = "fs_put (xs @ [x]) (FFile d) fs1"
  have apart: "\<not> prefix p p'" "\<not> prefix p' p" if "p' \<in> fst ` set es" for p'
  proof -
    have "fst e \<noteq> p'" using Cons.prems(2) that by auto
    then have "p \<noteq> p'" using e by simp
    moreover have "p \<in> fst ` set (e # es)" "p' \<in> fst ` set (e # es)" using that e by simp_all
    ultimately show "\<not> prefix p p'" "\<not> prefix p' p"
      using Cons.prems(3) [rule_format, of p p'] Cons.prems(3) [rule_format, of p' p] by blast+
  qed
  have "fs_lookup ?fs2 (ds @ p') \<noteq> Some FDir \<and> (\<forall>q y. strict_prefix q (ds @ p') \<longrightarrow> fs_lookup ?fs2 q \<noteq> Some (FFile y))"
    if p': "p' \<in> fst ` set es" for p'
  proof -
    have old: "fs_lookup fs (ds @ p') \<noteq> Some FDir" "\<And>q y. strict_prefix q (ds @ p') \<Longrightarrow> fs_lookup fs q \<noteq> Some (FFile y)"
      using Cons.prems(5) p' by auto
    have "\<not> prefix (ds @ p') xs" using apart(2) [OF p'] f(2) by (metis prefix_snoc same_prefix_prefix)
    then have "fs_lookup fs1 (ds @ p') = fs_lookup fs (ds @ p')" using ad(1) unfolding adds_dirs_def by blast
    moreover have "fs_lookup fs1 q \<noteq> Some (FFile y)" if "strict_prefix q (ds @ p')" for q y
      using ad(1) old(2) [OF that] unfolding adds_dirs_def by (metis fnode.distinct(1) option.inject)
    moreover have "\<not> strict_prefix (xs @ [x]) (ds @ p')" using apart(1) [OF p'] f(2) by (simp add: strict_prefix_def flip: f(2))
    ultimately show ?thesis using old by auto
  qed
  then have places: "\<forall>p' \<in> fst ` set es. fs_lookup ?fs2 (ds @ p') \<noteq> Some FDir \<and>
      (\<forall>q y. strict_prefix q (ds @ p') \<longrightarrow> fs_lookup ?fs2 q \<noteq> Some (FFile y))" by blast
  have names: "list_all (\<lambda>(p, d). p \<noteq> [] \<and> list_all good_comp p) es" "distinct (map fst es)"
    using Cons.prems(1,2) by simp_all
  have "\<forall>p \<in> fst ` set es. \<forall>p' \<in> fst ` set es. prefix p p' \<longrightarrow> p = p'"
    using Cons.prems(3) by (meson image_mono set_subset_Cons subsetD)
  then have "\<exists>fs'. unzip_entries (abs_path ds) (entries_at es) ?fs2 = Inr (None, fs')"
    using Cons.IH [OF names _ _ places] deny by simp
  then show ?case using e f m e1 w g getDir_abs_path [OF g] by (auto simp: entries_at_def)
qed (simp add: entries_at_def)

definition vacant :: "fs \<Rightarrow> path \<Rightarrow> string \<Rightarrow> bool" where
  "vacant fs ds name \<longleftrightarrow> fs_deny fs = [] \<and> (\<forall>q x. prefix q ds \<longrightarrow> fs_lookup fs q \<noteq> Some (FFile x)) \<and>
     (\<forall>rel. fs_lookup fs (ds @ name # rel) = None)"

text \<open>
  Compressing a file or a directory and extracting the archive on another machine gives back the tree:
  every regular file below it is, after an extraction that reported no error, below the destination
  under the directory's name, with its data; no name in such an archive makes the extraction panic,
  and there is no error when the destination has room for that name.
\<close>

theorem zip_roundtrip:
  assumes "fs_plain fs" and "p \<noteq> []" and "fs_lookup fs p \<noteq> None"
    and "\<And>names. set (ord names) = set names \<and> (distinct names \<longrightarrow> distinct (ord names))"
    and "list_all good_comp ds" and "ds \<noteq> []"
  shows "\<exists>zw err fs1. compress_all (Suc (fs_depth fs)) ord fs [abs_path p] [] = Some (None, zw) \<and>
    unzip_entries (abs_path ds) zw fs0 = Inr (err, fs1) \<and>
    (err = None \<longrightarrow> (\<forall>rel d. list_all good_comp rel \<longrightarrow>
      readStringFromFile (abs_path (p @ rel)) fs = Inr d \<longrightarrow>
      readStringFromFile (abs_path (ds @ last p # rel)) fs1 = Inr d)) \<and>
    (vacant fs0 ds (last p) \<longrightarrow> err = None)"
proof -
  let ?k = "length (butlast p)"
  obtain L where L: "compress (Suc (fs_depth fs)) ord fs (abs_path p) [] [] = Some (None, map (zip_entry fs [] p) L)"
    "distinct L" "set L = found_at (\<lambda>a b. True) fs p"
    using compress_found [OF assms(1,4), of p "Suc (fs_depth fs)" "[]" "[]"] assms(2,3) by auto
  define es where "es = map (\<lambda>q. (drop ?k q, content fs q)) L"
  have zw: "map (zip_entry fs [] p) L = entries_at es" by (simp add: es_def entries_at_def zip_entry_def)
  have shape: "\<exists>r. q = p @ r \<and> drop ?k q = last p # r" if "q \<in> set L" for q
    using that L(3) assms(2) by (cases p rule: rev_cases) (auto simp: found_at_def prefix_def)
  have "inj_on (drop ?k) (set L)" using shape by (intro inj_onI) (metis append_take_drop_id list.inject)
  then have dist: "distinct (map fst es)" using L(2) by (simp add: es_def distinct_map o_def)
  have good: "list_all (\<lambda>(p, d). p \<noteq> [] \<and> list_all good_comp p) es"
  proof -
    have "drop ?k q \<noteq> [] \<and> list_all good_comp (drop ?k q)" if "q \<in> set L" for q
    proof -
      have "list_all good_comp (take ?k q @ drop ?k q)"
        using that L(3) fs_plain_dir_good [OF assms(1)] by (auto simp: found_at_def)
      then have "list_all good_comp (drop ?k q)" by (simp only: list_all_append)
      then show ?thesis using shape [OF that] by (metis list.distinct(1))
    qed
    then show ?thesis by (auto simp: es_def list_all_iff)
  qed
  obtain err fs1 where u: "unzip_entries (abs_path ds) (entries_at es) fs0 = Inr (err, fs1)"
    "err = None \<longrightarrow> (\<forall>(p, d) \<in> set es. readStringFromFile (abs_path (ds @ p)) fs1 = Inr d)"
    using unzip_spec [OF assms(5,6) good dist, of fs0] by blast
  have "readStringFromFile (abs_path (ds @ last p # rel)) fs1 = Inr d"
    if "err = None" "list_all good_comp rel" "readStringFromFile (abs_path (p @ rel)) fs = Inr d" for rel d
  proof -
    have "list_all good_comp p" using assms(3) fs_plain_dir_good [OF assms(1)] by blast
    then have look: "fs_lookup fs (p @ rel) = Some (FFile d)"
      using that fs_ok_read [of fs "abs_path (p @ rel)" d] assms(1) by (simp add: fs_plain_def)
    then have q: "p @ rel \<in> set L" using L(3) by (auto simp: found_at_def)
    then have "(last p # rel, d) \<in> set es"
      using shape [OF q] look by (auto simp: es_def content_def intro!: image_eqI [of _ _ "p @ rel"])
    with u(2) that(1) show ?thesis by auto
  qed
  moreover have "err = None" if room: "vacant fs0 ds (last p)"
  proof -
    have top: "\<exists>r. p' = last p # r" if p': "p' \<in> fst ` set es" for p'
    proof -
      obtain q where "q \<in> set L" "p' = drop ?k q" using p' unfolding es_def by (auto simp del: length_butlast)
      then show ?thesis using shape [of q] by blast
    qed
    have apart: "p1 = p2" if p12: "p1 \<in> fst ` set es" "p2 \<in> fst ` set es" "prefix p1 p2" for p1 p2
    proof (rule ccontr)
      assume ne: "p1 \<noteq> p2"
      obtain q1 q2 where q: "q1 \<in> set L" "q2 \<in> set L" "p1 = drop ?k q1" "p2 = drop ?k q2"
        using p12 by (auto simp: es_def)
      then obtain r1 r2 where r: "q1 = p @ r1" "p1 = last p # r1" "q2 = p @ r2" "p2 = last p # r2" using shape by metis
      then obtain t where "q2 = q1 @ t" "t \<noteq> []" using p12(3) ne by (auto simp: prefix_def)
      moreover have "\<exists>d1. fs_lookup fs q1 = Some (FFile d1)" "\<exists>d2. fs_lookup fs q2 = Some (FFile d2)"
        using q L(3) by (auto simp: found_at_def)
      ultimately show False using assms(1) fs_ok_prefix [of fs q1 t] by (auto simp: fs_plain_def)
    qed
    have free: "fs_lookup fs0 (ds @ p') \<noteq> Some FDir \<and> (\<forall>q x. strict_prefix q (ds @ p') \<longrightarrow> fs_lookup fs0 q \<noteq> Some (FFile x))"
      if p': "p' \<in> fst ` set es" for p'
    proof -
      obtain r where r: "p' = last p # r" using top [OF p'] by blast
      have "prefix q ds \<or> (\<exists>r'. q = ds @ last p # r')" if "strict_prefix q (ds @ p')" for q
        using that r by (auto simp: strict_prefix_def prefix_append prefix_Cons)
      then show ?thesis using room r unfolding vacant_def by fastforce
    qed
    show ?thesis
      using unzip_room [OF assms(5,6) good dist, of fs0] apart free room u(1) by (auto simp: vacant_def)
  qed
  ultimately show ?thesis using L(1) zw u(1) by auto
qed

lemma demo_unzip:
  "map_option (\<lambda>(e, zw). map_sum id fst (unzip_entries ''/out'' zw demo_tree))
     (compress_all (Suc (fs_depth demo_tree)) (\<lambda>ns. ns) demo_tree [''/w''] []) = Some (Inr None)"
  by code_simp

theorem zip_roundtrip_witness:
  "\<exists>zw fs1. compress_all (Suc (fs_depth demo_tree)) (\<lambda>ns. ns) demo_tree [abs_path [''w'']] [] = Some (None, zw) \<and>
     unzip_entries (abs_path [''out'']) zw demo_tree = Inr (None, fs1) \<and>
     readStringFromFile (abs_path [''out'', ''w'', ''lib'', ''b.sol'']) fs1 = Inr ''B''"
proof -
  have "fs_lookup demo_tree [''w''] \<noteq> None" by (simp add: demo_tree_def fs_lookup_def m_load_def)
  from zip_roundtrip [OF demo_tree_plain _ this, of "\<lambda>ns. ns" "[''out'']" demo_tree]
  obtain zw err fs1 where r: "compress_all (Suc (fs_depth demo_tree)) (\<lambda>ns. ns) demo_tree [abs_path [''w'']] [] = Some (None, zw)"
    "unzip_entries (abs_path [''out'']) zw demo_tree = Inr (err, fs1)"
    "err = None \<longrightarrow> (\<forall>rel d. list_all good_comp rel \<longrightarrow> readStringFromFile (abs_path ([''w''] @ rel)) demo_tree = Inr d \<longrightarrow>
      readStringFromFile (abs_path ([''out''] @ last [''w''] # rel)) fs1 = Inr d)"
    by (auto simp: good_comp_def dot_def dotdot_def)
  have "err = None" using demo_unzip r(1,2) by (simp add: abs_path_def)
  moreover have "readStringFromFile (abs_path ([''w''] @ [''lib'', ''b.sol''])) demo_tree = Inr ''B''" by code_simp
  moreover have "list_all good_comp [''lib'', ''b.sol'']" by (simp add: good_comp_def dot_def dotdot_def)
  ultimately have "readStringFromFile (abs_path ([''out''] @ last [''w''] # [''lib'', ''b.sol''])) fs1 = Inr ''B''"
    using r(3) by blast
  with r(1,2) \<open>err = None\<close> show ?thesis by auto
qed

text \<open>An entry whose name climbs out of the destination is written there.\<close>

lemma unzip_escapes:
  assumes "list_all good_comp (ds @ [c])" and "list_all good_comp rel" and "rel \<noteq> []"
  shows "path_of (abs_path (ds @ [c]) @ abs_path (dotdot # rel)) = ds @ rel"
proof -
  have d: "CHR ''/'' \<notin> set dotdot" "c \<noteq> dotdot" "dotdot \<noteq> []" "dotdot \<noteq> dot"
    using assms(1) by (simp_all add: good_comp_def dotdot_def dot_def)
  have "abs_path (ds @ [c]) @ abs_path (dotdot # rel) = CHR ''/'' # Join (ds @ c # dotdot # rel) ''/''"
    using abs_path_under' [of "ds @ [c]" "dotdot # rel"] by (simp add: abs_path_def)
  moreover have "Split (Join (ds @ c # dotdot # rel) ''/'') ''/'' = ds @ c # dotdot # rel"
    using assms d by (intro Split_Join_single) (auto simp: list_all_iff good_comp_def)
  moreover have "clean_comps True [] (ds @ c # dotdot # rel) = ds @ rel"
    using clean_comps_good [of "ds @ [c]" True "[]" "dotdot # rel"] assms d
      clean_comps_good_all [OF assms(2), of True "rev ds"] by simp
  ultimately show ?thesis by (simp add: path_of_def Split_Cons_sep)
qed

end
