(* ===== verification/Checks.thy ===== *)
theory Checks
  imports Actions FileUtils
begin

text \<open>
  The contract checks: the report types of \<open>model/contract_check.go\<close>, the names of
  \<open>consts/contract_check_enum.go\<close>, and the actions \<open>solhint-check\<close>, \<open>mythril-check\<close>, \<open>slither-check\<close> and
  \<open>check-aggregation\<close>.

  A check runs a tool on every contract below a directory and writes its output to a report file; its
  \<open>Post\<close> reads the reports back line by line and writes their sum to \<open>total_result.txt\<close>, which the
  aggregation collects.  An action's fields are a record that \<open>Hook\<close> returns updated.  A \<open>Post\<close> that meets
  a directory among its reports reads it for ever; its value is then \<open>None\<close>.  JSON is the argument \<open>J\<close>.
\<close>

section \<open>Reports (model/contract_check.go)\<close>

record 'm CheckDetails =
  cd_Name :: string
  cd_Issue :: int
  cd_GasLimit :: string
  cd_Message :: 'm

record 'm CheckResult =
  cr_Name :: string
  cr_Result :: string
  cr_Tool :: string
  cr_SolcVersion :: string
  cr_Context :: "'m CheckDetails list"
  cr_Total :: int

record StyleDetails =
  sty_Line :: string
  sty_Column :: string
  sty_Level :: string
  sty_OriginalText :: string
  sty_Note :: string
  sty_Tool :: string

record MethodsDetails =
  mth_Contract :: string
  mth_Category :: string
  mth_Function :: string
  mth_Visibility :: string
  mth_ViewPure :: string
  mth_Returns :: string
  mth_Modifiers :: string

definition NewContractCheckResult :: "string \<Rightarrow> string \<Rightarrow> string \<Rightarrow> 'm CheckDetails list \<Rightarrow> int \<Rightarrow> 'm CheckResult" where
  "NewContractCheckResult name result tool context cnt =
     \<lparr>cr_Name = name, cr_Result = result, cr_Tool = tool, cr_SolcVersion = [], cr_Context = context, cr_Total = cnt\<rparr>"

definition NewContractCheckResultDetails :: "string \<Rightarrow> int \<Rightarrow> 'm \<Rightarrow> 'm CheckDetails" where
  "NewContractCheckResultDetails name issue message =
     \<lparr>cd_Name = name, cd_Issue = issue, cd_GasLimit = [], cd_Message = message\<rparr>"

definition NewStyleDetails :: "string \<Rightarrow> string \<Rightarrow> string \<Rightarrow> string \<Rightarrow> string \<Rightarrow> string \<Rightarrow> StyleDetails" where
  "NewStyleDetails line column level originalText note tool =
     \<lparr>sty_Line = line, sty_Column = column, sty_Level = level, sty_OriginalText = originalText,
      sty_Note = note, sty_Tool = tool\<rparr>"

text \<open>The details of ESLint have the same six fields.\<close>

record json_lib =
  js_style :: "string \<Rightarrow> StyleDetails list CheckResult option"
  js_style_out :: "StyleDetails list CheckResult \<Rightarrow> string"
  js_style_msg :: "StyleDetails list \<Rightarrow> string"
  js_eslint :: "string \<Rightarrow> StyleDetails list CheckResult option"
  js_methods :: "string \<Rightarrow> MethodsDetails list CheckResult option"
  js_methods_msg :: "MethodsDetails list \<Rightarrow> string"
  js_raw :: "string \<Rightarrow> string CheckResult option"
  js_raw_list :: "string CheckResult list \<Rightarrow> string res"

subsection \<open>consts/contract_check_enum.go\<close>

record ContractCheckEnum =
  en_Name :: string
  en_Result :: string
  en_Tool :: string

definition contractCheckResult :: "string \<Rightarrow> string \<Rightarrow> ContractCheckEnum" where
  "contractCheckResult name tool = \<lparr>en_Name = name, en_Result = [], en_Tool = tool\<rparr>"

definition ContractMethodsPropertiesReport :: ContractCheckEnum where
  "ContractMethodsPropertiesReport = contractCheckResult ''Contract Methods Properties Report'' ''sol-profiler''"
definition ContractStyleGuideValidationsReport :: ContractCheckEnum where
  "ContractStyleGuideValidationsReport = contractCheckResult ''Code Quality Analysis Report'' ''Solhint''"
definition ContractSecurityAnalysisReport :: ContractCheckEnum where
  "ContractSecurityAnalysisReport = contractCheckResult ''Security Analysis Report'' ''Mythril''"
definition FrontEndCheckReport :: ContractCheckEnum where
  "FrontEndCheckReport = contractCheckResult ''Static analysis report'' ''ESLint''"
definition EthGasCheckReport :: ContractCheckEnum where
  "EthGasCheckReport = contractCheckResult ''Gas Usage Analysis Report'' ''eth-gas-reporter''"
definition FormalReport :: ContractCheckEnum where
  "FormalReport = contractCheckResult ''Formal Specification and Verification Report'' ''Move Prove''"

definition CheckSuccess :: string where "CheckSuccess = ''Success''"
definition CheckFail :: string where "CheckFail = ''Fail''"

section \<open>Reading lines\<close>

text \<open>
  \<open>bufio.Reader.ReadLine\<close> with its buffer of 4096 bytes: a longer line comes in pieces, and a piece that
  would end in a carriage return leaves it to the next one.
\<close>

definition read_buffer :: nat where "read_buffer = 4096"

definition ReadLine :: "string \<Rightarrow> string \<times> string" where
  "ReadLine s =
     (let line = takeWhile (\<lambda>c. c \<noteq> CHR 0x0A) s in
      if length line < read_buffer
      then (if length line < length s
            then (if HasSuffix line [CHR 0x0D] then butlast line else line, drop (Suc (length line)) s)
            else (line, []))
      else (let piece = take read_buffer s in
            if last piece = CHR 0x0D then (butlast piece, drop (read_buffer - 1) s)
            else (piece, drop read_buffer s)))"

lemma ReadLine_shorter: "s \<noteq> [] \<Longrightarrow> length (snd (ReadLine s)) < length s"
  by (auto simp: ReadLine_def Let_def read_buffer_def)

function read_lines :: "string \<Rightarrow> string list" where
  "read_lines s = (if s = [] then [] else fst (ReadLine s) # read_lines (snd (ReadLine s)))"
  by pat_completeness auto
termination by (relation "measure length") (simp_all add: ReadLine_shorter)

declare read_lines.simps [simp del]

section \<open>The common part of the checks\<close>

definition ctx_string_ok :: "string \<Rightarrow> error \<Rightarrow> ('y aworld, string) act" where
  "ctx_string_ok key msg w =
     (case m_load (w_ctx w) key of Some (CStr s) \<Rightarrow> ret s w | _ \<Rightarrow> fail msg w)"

definition check_context :: "('y aworld, string \<times> string \<times> string) act" where
  "check_context =
     seq (ctx_string_ok ''workdir'' ''workdir is empty'') (\<lambda>workdir.
     seq (ctx_string_ok ''name'' ''get job name error'') (\<lambda>jobName.
     seq (ctx_string_ok ''id'' ''get job id error'') (\<lambda>jobId.
     ret (workdir, jobName, jobId))))"

definition home_dir :: "'y os_lib \<Rightarrow> string" where
  "home_dir OS = (case os_home OS of Inl e \<Rightarrow> ''.'' | Inr h \<Rightarrow> h)"

definition check_dir :: "'y os_lib \<Rightarrow> string \<Rightarrow> string \<Rightarrow> string \<Rightarrow> string" where
  "check_dir OS jobName jobId tool = PathJoin [home_dir OS, ''pipelines/jobs'', jobName, ''/check'', jobId, tool]"

definition ensure_dir :: "string \<Rightarrow> ('y aworld, unit) act" where
  "ensure_dir d =
     seq (look (\<lambda>w. Stat (w_fs w) (path_of d))) (\<lambda>st.
     if st = Inl ENOENT then act_MkdirAll d else ret ())"

definition suffix_files :: "string \<Rightarrow> string \<Rightarrow> fs \<Rightarrow> string list" where
  "suffix_files dir sfx fs = (case GetSuffixFiles dir sfx [] fs of None \<Rightarrow> [] | Some l \<Rightarrow> l)"

text \<open>\<open>ExecuteCommand\<close>: the output with the error.\<close>

definition check_command :: "'y os_lib \<Rightarrow> string list \<Rightarrow> string \<Rightarrow> ('y aworld, string \<times> error option) act" where
  "check_command OS commands workdir =
     seq (out_command OS (Join commands '' '')) (\<lambda>u.
     seq (act_run_cmd OS commands workdir) (\<lambda>(out, err).
     seq (out_command OS out) (\<lambda>u.
     seq (case err of None \<Rightarrow> ret () | Some e \<Rightarrow> out_line OS e) (\<lambda>u.
     ret (out, err)))))"

text \<open>
  The loop over the contracts: run the tool, write its output to the report named after the contract.
  A lenient check only fails on an error without output.
\<close>

definition report_path :: "string \<Rightarrow> string \<Rightarrow> string" where
  "report_path destDir p = PathJoin [destDir, snd (GetFilenameWithSuffixAndFilenameOnly p) @ ''.txt'']"

fun write_reports :: "'y os_lib \<Rightarrow> bool \<Rightarrow> (string \<Rightarrow> string res go) \<Rightarrow> string \<Rightarrow> string \<Rightarrow> string list \<Rightarrow>
    ('y aworld, unit) act" where
  "write_reports OS lenient cmd workdir destDir [] = ret ()"
| "write_reports OS lenient cmd workdir destDir (p # ps) =
     seq (checked (cmd p)) (\<lambda>c. case c of Inl e \<Rightarrow> fail e | Inr command \<Rightarrow>
     seq (check_command OS (Fields command) workdir) (\<lambda>(out, err).
     case err of
       Some e \<Rightarrow>
         if lenient \<and> out \<noteq> []
         then seq (act_WriteFile (report_path destDir p) out) (\<lambda>u. write_reports OS lenient cmd workdir destDir ps)
         else fail e
     | None \<Rightarrow> seq (act_WriteFile (report_path destDir p) out) (\<lambda>u. write_reports OS lenient cmd workdir destDir ps)))"

definition check_report :: "int \<Rightarrow> ActionResult option" where
  "check_report jid = Some (empty_ActionResult\<lparr>ar_Reports := [\<lparr>rep_Id = jid, rep_Url = [], rep_Type = 2, rep_Content = []\<rparr>]\<rparr>)"

text \<open>An early return with the action as it is.\<close>

definition guarded :: "'o \<Rightarrow> ('w, 'a) act \<Rightarrow> ('a \<Rightarrow> ('w, 'o \<times> 'r res) act) \<Rightarrow> ('w, 'o \<times> 'r res) act" where
  "guarded a m k = seq (attempt m) (\<lambda>r. case r of Inl e \<Rightarrow> ret (a, Inl e) | Inr x \<Rightarrow> k x)"

text \<open>The entries of the report directory, in the order of \<open>Readdir(-1)\<close>.\<close>

definition report_entries :: "'y os_lib \<Rightarrow> string \<Rightarrow> fs \<Rightarrow> string list res" where
  "report_entries OS p fs =
     (if p = [] then Inl (errno_msg ENOENT)
      else (case Stat fs (path_of p) of
          Inl e \<Rightarrow> Inl (errno_msg e)
        | Inr n \<Rightarrow>
            if denied fs (path_of p) then Inl (errno_msg EACCES)
            else if n \<noteq> FDir then Inl ''check result path is err''
            else (case ReadDir (path_of p) fs of
                Inl e \<Rightarrow> Inl (errno_msg e)
              | Inr names \<Rightarrow> Inr (os_readdir OS names))))"

text \<open>
  The loop over the reports; \<open>prs\<close> reads the lines of one, \<open>nm\<close> names the contract.  The success flag is
  cleared by the first issue.
\<close>

fun report_loop :: "(string list \<Rightarrow> StyleDetails list go) \<Rightarrow> (string \<Rightarrow> string) \<Rightarrow> fs \<Rightarrow> string \<Rightarrow> string list \<Rightarrow>
    StyleDetails list CheckDetails list \<times> bool \<times> int \<Rightarrow>
    (StyleDetails list CheckDetails list \<times> bool \<times> int) res go option" where
  "report_loop prs nm fs dir [] acc = Some (Inr (Inr acc))"
| "report_loop prs nm fs dir (info # infos) (list, successFlag, cnt) =
     (let p = path_of (PathJoin [dir, info]) in
      case Stat fs p of
        Inl e \<Rightarrow> Some (Inr (Inl ''file open fail''))
      | Inr n \<Rightarrow>
          if denied fs p then Some (Inr (Inl ''file open fail''))
          else (case n of
              FDir \<Rightarrow> None
            | FFile d \<Rightarrow>
                (case prs (read_lines d) of
                   Inl pn \<Rightarrow> Some (Inl pn)
                 | Inr ds \<Rightarrow>
                     (let details = NewContractCheckResultDetails (nm info) (int (length ds)) ds in
                      report_loop prs nm fs dir infos
                        (list @ [details], successFlag \<and> ds = [], cnt + cd_Issue details)))))"

definition check_Post :: "'y os_lib \<Rightarrow> json_lib \<Rightarrow> ContractCheckEnum \<Rightarrow> (string list \<Rightarrow> StyleDetails list go) \<Rightarrow>
    (string \<Rightarrow> string) \<Rightarrow> string \<Rightarrow> 'y aworld \<Rightarrow> (unit res outcome \<times> 'y aworld) option" where
  "check_Post OS J report prs nm dir w =
     (case report_entries OS dir (w_fs w) of
        Inl e \<Rightarrow> Some (fail e w)
      | Inr infos \<Rightarrow>
          (case report_loop prs nm (w_fs w) dir infos ([], True, 0) of
             None \<Rightarrow> None
           | Some (Inl pn) \<Rightarrow> Some (crash ''index out of range'' w)
           | Some (Inr (Inl e)) \<Rightarrow> Some (fail e w)
           | Some (Inr (Inr (list, successFlag, cnt))) \<Rightarrow>
               Some (act_WriteFile (PathJoin [dir, ''total_result.txt''])
                 (js_style_out J (NewContractCheckResult (en_Name report)
                    (if successFlag then CheckSuccess else CheckFail) (en_Tool report) list cnt)) w)))"

section \<open>solhint-check (action_solhint.go)\<close>

record SolHintAction =
  sh_path :: string
  sh_filePath :: "string list"
  sh_basePath :: string

definition NewSolHintAction :: "Step \<Rightarrow> SolHintAction" where
  "NewSolHintAction step = \<lparr>sh_path = step_with step ''path'', sh_filePath = [], sh_basePath = []\<rparr>"

text \<open>Text with quotation marks, written with tildes.\<close>

definition quoted :: "string \<Rightarrow> string" where
  "quoted s = map (\<lambda>c. if c = CHR ''~'' then CHR 0x22 else c) s"

definition SolHintCheckRule :: string where
  "SolHintCheckRule = quoted (Join
     [''{'',
      ''  ~extends~: ~solhint:recommended~,'',
      ''  ~rules~: {'',
      ''    ~code-complexity~: [~warn~,7],'',
      ''    ~function-max-lines~: [~warn~,50],'',
      ''    ~max-states-count~: [~warn~,15],'',
      ''    ~no-empty-blocks~: ~off~,'',
      ''    ~no-unused-vars~: ~warn~,'',
      ''    ~payable-fallback~: ~warn~,'',
      ''    ~reason-string~: [~warn~,{~maxLength~:64}],'',
      ''    ~constructor-syntax~: ~warn~,'',
      ''    ~avoid-call-value~: ~warn~,'',
      ''    ~avoid-low-level-calls~: ~warn~,'',
      ''    ~avoid-throw~: ~warn~,'',
      ''    ~compiler-version~: [~off~,~^0.8.13~],'',
      ''    ~avoid-tx-origin~: ~warn~,'',
      ''    ~multiple-sends~: ~warn~,'',
      ''    ~reentrancy~: ~warn~,'',
      ''    ~not-rely-on-block-hash~: ~warn~,'',
      ''    ~not-rely-on-time~: ~warn~,'',
      ''    ~state-visibility~: ~warn~,'',
      ''    ~quotes~: [~warn~,~double~],'',
      ''    ~visibility-modifier-order~: ~warn~'',
      ''  }'',
      ''}'',
      ''''] nl)"

definition SolHint_Pre :: "('y aworld, unit) act" where
  "SolHint_Pre =
     seq (ctx_string_ok ''workdir'' ''workdir is empty'') (\<lambda>workdir.
     act_WriteFile (PathJoin [workdir, ''.solhint.json'']) SolHintCheckRule)"

definition SolHint_Hook :: "'y os_lib \<Rightarrow> SolHintAction \<Rightarrow>
    ('y aworld, SolHintAction \<times> ActionResult option res) act" where
  "SolHint_Hook OS a =
     guarded a check_context (\<lambda>(workdir, jobName, jobId).
     seq (look (\<lambda>w. suffix_files (PathJoin [workdir, sh_path a]) ''.sol'' (w_fs w))) (\<lambda>absPathList.
     let destDir = check_dir OS jobName jobId ''solhint'' in
     guarded a (ensure_dir destDir) (\<lambda>u.
     let a1 = a\<lparr>sh_basePath := workdir\<rparr> in
     guarded a1 (write_reports OS False (\<lambda>p. Inr (Inr (''solhint -f stylish '' @ p))) workdir destDir absPathList) (\<lambda>u.
     ret (a1\<lparr>sh_filePath := absPathList, sh_path := destDir\<rparr>, map_sum id check_report (Atoi jobId))))))"

text \<open>A line of the report: an issue has its columns two spaces apart, the first is \<open>line:column\<close>.\<close>

definition gap :: string where "gap = ''  ''"

definition solhint_line :: "string \<Rightarrow> StyleDetails go" where
  "solhint_line s =
     (let split = Split s gap in
      then_do (index_at split 1) (\<lambda>s1.
      let lineAndCol = Split (TrimSpace s1) '':'' in
      then_do (index_at lineAndCol 0) (\<lambda>l.
      then_do (index_at lineAndCol 1) (\<lambda>c.
      then_do (index_at split 2) (\<lambda>level.
      then_do (slice split 3 (int (length split) - 1)) (\<lambda>note.
        Inr (NewStyleDetails l c level [] (Join note '' '') ''solhint'')))))))"

fun solhint_lines :: "string list \<Rightarrow> StyleDetails list go" where
  "solhint_lines [] = Inr []"
| "solhint_lines (s # ss) =
     (if Contains s gap
      then then_do (solhint_line s) (\<lambda>d. then_do (solhint_lines ss) (\<lambda>ds. Inr (d # ds)))
      else solhint_lines ss)"

text \<open>The name of the contract: its path below the working directory, found by its file name.\<close>

fun contract_name :: "string \<Rightarrow> string list \<Rightarrow> string \<Rightarrow> string" where
  "contract_name base [] name = name"
| "contract_name base (s # ss) name =
     (if Contains s name \<and> Index s (base @ ''/'') \<noteq> -1
      then drop (nat (Index s (base @ ''/'')) + length (base @ ''/'')) s
      else contract_name base ss name)"

definition SolHint_Post :: "'y os_lib \<Rightarrow> json_lib \<Rightarrow> SolHintAction \<Rightarrow> 'y aworld \<Rightarrow>
    (unit res outcome \<times> 'y aworld) option" where
  "SolHint_Post OS J a =
     check_Post OS J ContractStyleGuideValidationsReport solhint_lines
       (\<lambda>info. contract_name (sh_basePath a) (sh_filePath a) (ReplaceOne info ''.txt'' ''.sol'')) (sh_path a)"

section \<open>mythril-check (action_mythril.go)\<close>

record MythRilAction =
  my_path :: string
  my_solcVersion :: string

definition NewMythRilAction :: "Step \<Rightarrow> MythRilAction" where
  "NewMythRilAction step = \<lparr>my_path = step_with step ''path'', my_solcVersion = step_with step ''solc-version''\<rparr>"

definition MythRilSolcJson :: "string \<Rightarrow> string" where
  "MythRilSolcJson s = ''{'' @ nl @ quoted ''  ~remappings~: ['' @ s @ '']'' @ nl @ ''}''"

definition MythRilMapping :: "string \<Rightarrow> string" where
  "MythRilMapping name = quoted ''~'' @ name @ ''/=node_modules/'' @ name @ quoted ''/~''"

definition MythRil_Pre :: "('y aworld, unit) act" where
  "MythRil_Pre =
     seq (ctx_string_ok ''workdir'' ''workdir is empty'') (\<lambda>workdir.
     let nodeModules = PathJoin [workdir, ''node_modules''] in
     seq (look (\<lambda>w. case ReadDir (path_of nodeModules) (w_fs w) of
          Inl e \<Rightarrow> MythRilSolcJson []
        | Inr files \<Rightarrow> MythRilSolcJson
            (Join (map MythRilMapping (filter (\<lambda>n. entry_IsDir nodeModules n (w_fs w)) files)) '',''))) (\<lambda>fileContent.
     act_WriteFile (PathJoin [workdir, ''.myhril.json'']) fileContent))"

definition mythril_command :: "MythRilAction \<Rightarrow> string \<Rightarrow> string \<Rightarrow> string res go" where
  "mythril_command a workdir p =
     then_do (GetRedundantPath (PathJoin [workdir, my_path a]) p) (\<lambda>r.
       Inr (map_sum id (\<lambda>redundantPath.
         ''docker run --rm -v '' @ workdir @ '':/tmp -w /tmp mythril/myth analyze /tmp/'' @
         PathJoin [my_path a, redundantPath] @ '' --solc-json '' @ ''.myhril.json'' @ '' --execution-timeout 15'' @
         (if my_solcVersion a \<noteq> [] then '' --solv '' @ my_solcVersion a else [])) r))"

definition MythRil_Hook :: "'y os_lib \<Rightarrow> MythRilAction \<Rightarrow> ('y aworld, MythRilAction \<times> ActionResult option res) act" where
  "MythRil_Hook OS a =
     guarded a check_context (\<lambda>(workdir, jobName, jobId).
     seq (look (\<lambda>w. suffix_files (PathJoin [workdir, my_path a]) ''.sol'' (w_fs w))) (\<lambda>absPathList.
     let destDir = check_dir OS jobName jobId ''mythril'' in
     guarded a (ensure_dir destDir) (\<lambda>u.
     guarded a (write_reports OS True (mythril_command a workdir) workdir destDir absPathList) (\<lambda>u.
     ret (a\<lparr>my_path := destDir\<rparr>, map_sum id check_report (Atoi jobId))))))"

text \<open>
  The report is read until its end mark; a line with a position completes the issue before it when it
  has no text of its own.
\<close>

definition mythril_note :: "string \<Rightarrow> string go" where
  "mythril_note s =
     (if Contains s ''Error:'' \<or> Contains s ''Note:''
      then slice s (Index s '':'' + 2) (int (length s)) else Inr [])"

definition set_position :: "string \<Rightarrow> string \<Rightarrow> StyleDetails list \<Rightarrow> StyleDetails list" where
  "set_position l c ds = butlast ds @ [(last ds)\<lparr>sty_Line := l, sty_Column := c\<rparr>]"

fun mythril_loop :: "string list \<Rightarrow> StyleDetails list \<Rightarrow> StyleDetails list go" where
  "mythril_loop [] ds = Inr ds"
| "mythril_loop (s # ss) ds =
     (if Contains s ''The analysis was completed successfully'' then Inr ds
      else if Contains s ''===='' then Inr ds
      else then_do (mythril_note s) (\<lambda>note.
        let split = Split s '':'' in
        if Contains s ''-->'' \<and> length split < 3 then mythril_loop ss ds
        else
          (let line = (if Contains s ''-->'' then split ! 1 else []);
               column = (if Contains s ''-->'' then split ! 2 else []) in
           if note = [] \<and> line = [] then mythril_loop ss ds
           else if note = [] \<and> length ds \<ge> 1 then mythril_loop ss (set_position line column ds)
           else mythril_loop ss (ds @ [NewStyleDetails line column [] [] note ''mythril'']))))"

definition MythRil_Post :: "'y os_lib \<Rightarrow> json_lib \<Rightarrow> MythRilAction \<Rightarrow> 'y aworld \<Rightarrow>
    (unit res outcome \<times> 'y aworld) option" where
  "MythRil_Post OS J a =
     check_Post OS J ContractSecurityAnalysisReport (\<lambda>ls. mythril_loop ls [])
       (\<lambda>info. ReplaceOne info ''.txt'' ''.sol'') (my_path a)"

section \<open>slither-check (action_slither.go)\<close>

definition slither_command :: "string \<Rightarrow> string \<Rightarrow> string res go" where
  "slither_command basePath p =
     then_do (GetRedundantPath basePath p) (\<lambda>r. Inr (map_sum id (\<lambda>redundantPath.
       ''docker run --rm -v '' @ basePath @ '':/tmp bingjian/solidity_check:slither_091_1_0816 slither /tmp/'' @
       redundantPath) r))"

text \<open>
  The error that is returned at the end is that of \<open>os.Stat\<close> on the directory of the reports: the ones in
  between have a scope of their own.
\<close>

definition Slither_Hook :: "'y os_lib \<Rightarrow> string \<Rightarrow> ('y aworld, ActionResult option) act" where
  "Slither_Hook OS p =
     seq check_context (\<lambda>(workdir, jobName, jobId).
     let basePath = PathJoin [workdir, p] in
     seq (look (\<lambda>w. suffix_files basePath ''.sol'' (w_fs w))) (\<lambda>absPathList.
     let destDir = check_dir OS jobName jobId ''slither'' in
     seq (look (\<lambda>w. Stat (w_fs w) (path_of destDir))) (\<lambda>st.
     seq (ensure_dir destDir) (\<lambda>u.
     seq (write_reports OS False (slither_command basePath) workdir destDir absPathList) (\<lambda>u.
     case st of Inl e \<Rightarrow> fail (errno_msg e) | Inr n \<Rightarrow> ret None)))))"

text \<open>The action is its path; \<open>Pre\<close> and \<open>Post\<close> do nothing.\<close>

definition NewSlitherAction :: "Step \<Rightarrow> string" where
  "NewSlitherAction step = step_with step ''path''"

definition Slither_Pre :: "('y aworld, unit) act" where "Slither_Pre = ret ()"
definition Slither_Post :: "('y aworld, unit) act" where "Slither_Post = ret ()"

section \<open>check-aggregation (action_check_aggregation.go)\<close>

definition NewCheckAggregationAction :: "Step \<Rightarrow> string" where
  "NewCheckAggregationAction step = step_with step ''path''"

definition CheckAggregation_Pre :: "('y aworld, unit) act" where "CheckAggregation_Pre = ret ()"
definition CheckAggregation_Post :: "('y aworld, unit) act" where "CheckAggregation_Post = ret ()"

definition to_raw :: "('m \<Rightarrow> string) \<Rightarrow> 'm CheckResult \<Rightarrow> string CheckResult" where
  "to_raw msg r =
     \<lparr>cr_Name = cr_Name r, cr_Result = cr_Result r, cr_Tool = cr_Tool r, cr_SolcVersion = [],
      cr_Context = map (\<lambda>d. \<lparr>cd_Name = cd_Name d, cd_Issue = cd_Issue d, cd_GasLimit = [],
        cd_Message = msg (cd_Message d)\<rparr>) (cr_Context r),
      cr_Total = cr_Total r\<rparr>"

text \<open>What is looked for in a result file, and how it is then read.\<close>

definition agg_blocks :: "json_lib \<Rightarrow> (string list \<times> (string \<Rightarrow> string CheckResult option)) list" where
  "agg_blocks J =
     [([en_Name ContractMethodsPropertiesReport], \<lambda>s. map_option (to_raw (\<lambda>m. ReplaceAll (js_methods_msg J m)
         (CHR 0x5C # ''u001b'') [])) (js_methods J s)),
      ([en_Name ContractStyleGuideValidationsReport], \<lambda>s. map_option (to_raw (js_style_msg J)) (js_style J s)),
      ([en_Name ContractSecurityAnalysisReport, en_Name FormalReport],
         \<lambda>s. map_option (to_raw (js_style_msg J)) (js_style J s)),
      ([en_Name FrontEndCheckReport], \<lambda>s. map_option (to_raw (js_style_msg J)) (js_eslint J s)),
      ([en_Name EthGasCheckReport], js_raw J)]"

text \<open>A file that cannot be decoded skips the blocks that are left.\<close>

fun agg_file :: "(string list \<times> (string \<Rightarrow> string CheckResult option)) list \<Rightarrow> string \<Rightarrow> string CheckResult list" where
  "agg_file [] s = []"
| "agg_file ((names, dec) # bs) s =
     (if \<exists>n \<in> set names. Contains s n
      then (case dec s of None \<Rightarrow> [] | Some r \<Rightarrow> r # agg_file bs s)
      else agg_file bs s)"

fun agg_files :: "json_lib \<Rightarrow> fs \<Rightarrow> string list \<Rightarrow> string CheckResult list res" where
  "agg_files J fs [] = Inr []"
| "agg_files J fs (p # ps) =
     (case ReadFile (path_of p) fs of
        Inl e \<Rightarrow> Inl ''file open fail''
      | Inr s \<Rightarrow> map_sum id (\<lambda>rs. agg_file (agg_blocks J) s @ rs) (agg_files J fs ps))"

definition result_files :: "string \<Rightarrow> fs \<Rightarrow> string list" where
  "result_files dir fs = (case GetSameFileNameFiles dir ''total_result.txt'' [] fs of None \<Rightarrow> [] | Some l \<Rightarrow> l)"

definition CheckAggregation_Hook :: "'y os_lib \<Rightarrow> json_lib \<Rightarrow> ('y aworld, ActionResult option) act" where
  "CheckAggregation_Hook OS J =
     seq (ctx_string_ok ''name'' ''get job name error'') (\<lambda>jobName.
     seq (ctx_string_ok ''id'' ''get job id error'') (\<lambda>jobId.
     let destDir = PathJoin [home_dir OS, ''pipelines/jobs'', jobName, ''/check'', jobId] in
     seq (look (\<lambda>w. result_files destDir (w_fs w))) (\<lambda>absPathList.
     seq (ensure_dir destDir) (\<lambda>u.
     seq (look (\<lambda>w. agg_files J (w_fs w) absPathList)) (\<lambda>r. case r of Inl e \<Rightarrow> fail e | Inr checkResultList \<Rightarrow>
     let p = PathJoin [destDir, ''check_aggregation_result.txt''] in
     seq (act_WriteFile p []) (\<lambda>u.
     case js_raw_list J checkResultList of Inl e \<Rightarrow> fail e | Inr marshal \<Rightarrow>
     seq (act_WriteFile p marshal) (\<lambda>u.
     case Atoi jobId of
       Inl e \<Rightarrow> fail e
     | Inr jid \<Rightarrow> ret (Some (empty_ActionResult\<lparr>ar_Reports :=
         [\<lparr>rep_Id = jid, rep_Url = p, rep_Type = 2, rep_Content = []\<rparr>]\<rparr>)))))))))"

section \<open>What a check stores\<close>

subsection \<open>Lines and columns\<close>

lemma read_lines_Nil [simp]: "read_lines [] = []"
  by (simp add: read_lines.simps)

lemma read_lines_line:
  assumes "CHR 0x0A \<notin> set l" and "length l < read_buffer" and "\<not> HasSuffix l [CHR 0x0D]"
  shows "read_lines (l @ nl @ t) = l # read_lines t"
proof -
  have "takeWhile (\<lambda>c. c \<noteq> CHR 0x0A) (l @ nl @ t) = l"
    using assms(1) by (auto simp: nl_def takeWhile_append)
  then have "ReadLine (l @ nl @ t) = (l, t)" using assms(2,3) by (simp add: ReadLine_def nl_def)
  then show ?thesis using read_lines.simps [of "l @ nl @ t"] by (simp add: nl_def)
qed

fun single_spaced :: "string \<Rightarrow> bool" where
  "single_spaced [] = True"
| "single_spaced [c] = (c \<noteq> CHR '' '')"
| "single_spaced (c # d # s) = (\<not> (c = CHR '' '' \<and> d = CHR '' '') \<and> single_spaced (d # s))"

lemma split_scan_gap:
  "single_spaced f \<Longrightarrow> split_scan gap cur (f @ gap @ t) = (cur @ f) # split_scan gap [] t"
  by (induction f arbitrary: cur rule: single_spaced.induct) (auto simp: gap_def)

lemma split_scan_no_gap: "single_spaced f \<Longrightarrow> split_scan gap cur f = [cur @ f]"
  by (induction f arbitrary: cur rule: single_spaced.induct) (auto simp: gap_def)

lemma Split_gap: "xs \<noteq> [] \<Longrightarrow> list_all single_spaced xs \<Longrightarrow> Split (Join xs gap) gap = xs"
  unfolding Split_def
  by (induction xs gap rule: Join.induct) (auto simp: split_scan_gap split_scan_no_gap)

text \<open>A report as solhint prints it: issues in columns, and other lines.\<close>

datatype report_row =
    Issue string string string string string
  | Other string

fun row_text :: "report_row \<Rightarrow> string" where
  "row_text (Issue l c level note rule) = Join [[], l @ '':'' @ c, level, note, rule] gap"
| "row_text (Other s) = s"

definition number :: "string \<Rightarrow> bool" where
  "number s \<longleftrightarrow> s \<noteq> [] \<and> (\<forall>c \<in> set s. digit_val c \<noteq> None)"

fun row_ok :: "report_row \<Rightarrow> bool" where
  "row_ok (Issue l c level note rule) \<longleftrightarrow> number l \<and> number c \<and> single_spaced level \<and> single_spaced note \<and>
     single_spaced rule"
| "row_ok (Other s) \<longleftrightarrow> \<not> Contains s gap"

definition line_ok :: "string \<Rightarrow> bool" where
  "line_ok s \<longleftrightarrow> CHR 0x0A \<notin> set s \<and> length s < read_buffer \<and> \<not> HasSuffix s [CHR 0x0D]"

definition report_text :: "report_row list \<Rightarrow> string" where
  "report_text rows = concat (map (\<lambda>r. row_text r @ nl) rows)"

fun issues :: "report_row list \<Rightarrow> StyleDetails list" where
  "issues [] = []"
| "issues (Issue l c level note rule # rows) = NewStyleDetails l c level [] note ''solhint'' # issues rows"
| "issues (Other s # rows) = issues rows"

lemma read_report: "list_all (\<lambda>r. line_ok (row_text r)) rows \<Longrightarrow> read_lines (report_text rows) = map row_text rows"
  by (induction rows) (auto simp: report_text_def line_ok_def read_lines_line)

lemma number_chars:
  assumes "number s" and "c \<in> set s"
  shows "\<not> is_space c \<and> c \<noteq> CHR '':'' \<and> c \<noteq> CHR '' ''"
proof -
  have "digit_val c \<noteq> None" using assms by (simp add: number_def)
  then show ?thesis by (auto simp: digit_val_def is_space_def split: if_splits)
qed

lemma no_space_single_spaced: "(\<And>c. c \<in> set s \<Longrightarrow> c \<noteq> CHR '' '') \<Longrightarrow> single_spaced s"
  by (induction s rule: single_spaced.induct) auto

lemma solhint_issue_line:
  assumes "row_ok (Issue l c level note rule)"
  shows "Contains (row_text (Issue l c level note rule)) gap \<and>
    solhint_line (row_text (Issue l c level note rule)) = Inr (NewStyleDetails l c level [] note ''solhint'')"
proof -
  let ?pos = "l @ '':'' @ c"
  have lc: "number l" "number c" using assms by auto
  have "single_spaced ?pos" using number_chars [OF lc(1)] number_chars [OF lc(2)]
    by (intro no_space_single_spaced) auto
  then have split: "Split (row_text (Issue l c level note rule)) gap = [[], ?pos, level, note, rule]"
    using Split_gap [of "[[], ?pos, level, note, rule]"] assms by simp
  have "TrimSpace ?pos = ?pos"
    using number_chars [OF lc(1)] number_chars [OF lc(2)] by (intro TrimSpace_id) (auto simp: is_space_def)
  moreover have colon: "CHR '':'' \<notin> set l" "CHR '':'' \<notin> set c"
    using number_chars [OF lc(1)] number_chars [OF lc(2)] by blast+
  ultimately have "solhint_line (row_text (Issue l c level note rule)) = Inr (NewStyleDetails l c level [] note ''solhint'')"
    unfolding solhint_line_def split by (simp add: index_at_def slice_def)
  moreover have "Contains (row_text (Issue l c level note rule)) gap"
    by (simp add: gap_def Contains_def)
  ultimately show ?thesis by simp
qed

lemma solhint_lines_report: "list_all row_ok rows \<Longrightarrow> solhint_lines (map row_text rows) = Inr (issues rows)"
  by (induction rows rule: issues.induct) (auto simp: solhint_issue_line simp del: row_text.simps(1) row_ok.simps(1))

subsection \<open>The result of solhint-check\<close>

text \<open>The reports of a directory: each a readable file with the rows that solhint printed.\<close>

definition holds_reports :: "fs \<Rightarrow> string \<Rightarrow> (string \<times> report_row list) list \<Rightarrow> bool" where
  "holds_reports fs dir R \<longleftrightarrow> (\<forall>(info, rows) \<in> set R.
     Stat fs (path_of (PathJoin [dir, info])) = Inr (FFile (report_text rows)) \<and>
     \<not> denied fs (path_of (PathJoin [dir, info])) \<and>
     list_all row_ok rows \<and> list_all (\<lambda>r. line_ok (row_text r)) rows)"

definition issue_count :: "(string \<times> report_row list) list \<Rightarrow> int" where
  "issue_count R = (\<Sum>(info, rows) \<leftarrow> R. int (length (issues rows)))"

definition clean_reports :: "(string \<times> report_row list) list \<Rightarrow> bool" where
  "clean_reports R \<longleftrightarrow> (\<forall>(info, rows) \<in> set R. issues rows = [])"

lemma report_loop_reports:
  "holds_reports fs dir R \<Longrightarrow> report_loop solhint_lines nm fs dir (map fst R) (list, ok, t) =
     Some (Inr (Inr (list @ map (\<lambda>(info, rows). NewContractCheckResultDetails (nm info)
         (int (length (issues rows))) (issues rows)) R,
       ok \<and> clean_reports R, t + issue_count R)))"
proof (induction R arbitrary: list ok t)
  case (Cons x R)
  obtain info rows where x: "x = (info, rows)" by (cases x)
  have "solhint_lines (read_lines (report_text rows)) = Inr (issues rows)"
    using Cons.prems x solhint_lines_report [of rows] by (simp add: holds_reports_def read_report)
  moreover have "holds_reports fs dir R" using Cons.prems by (simp add: holds_reports_def)
  ultimately show ?case
    using Cons.prems Cons.IH x
    by (simp add: holds_reports_def NewContractCheckResultDetails_def clean_reports_def issue_count_def conj_assoc)
qed (simp add: clean_reports_def issue_count_def)


text \<open>A line that is in columns but is not an issue makes \<open>Post\<close> panic.\<close>

lemma solhint_lines_panic:
  "s \<in> set ss \<Longrightarrow> Contains s gap \<Longrightarrow> solhint_line s = Inl p \<Longrightarrow> \<exists>q. solhint_lines ss = Inl q"
proof (induction ss)
  case (Cons x ss)
  then show ?case by (cases "solhint_line x"; cases "solhint_lines ss") auto
qed simp

lemma solhint_Post_panics:
  assumes "report_entries OS (sh_path a) (w_fs w) = Inr (info # infos)"
    and "Stat (w_fs w) (path_of (PathJoin [sh_path a, info])) = Inr (FFile d)"
    and "\<not> denied (w_fs w) (path_of (PathJoin [sh_path a, info]))"
    and "s \<in> set (read_lines d)" and "Contains s gap" and "length (Split s gap) < 3"
  shows "SolHint_Post OS J a w = Some (crash ''index out of range'' w)"
proof -
  have "\<exists>p. solhint_line s = Inl p"
    using assms(6) by (auto simp: solhint_line_def Let_def index_at_def then_do_def split: sum.splits)
  then obtain q where "solhint_lines (read_lines d) = Inl q"
    using solhint_lines_panic [OF assms(4,5)] by blast
  then show ?thesis using assms(1-3) by (simp add: SolHint_Post_def check_Post_def)
qed

definition demo_rows :: "report_row list" where
  "demo_rows = [Other ''/w/a.sol'', Issue ''2'' ''1'' ''warning'' ''Use double quotes'' ''quotes'', Other []]"

definition demo_checks :: "unit aworld" where
  "demo_checks = \<lparr>w_fs = \<lparr>fs_nodes = [([''r''], FDir), ([''r'', ''a.txt''], FFile (report_text demo_rows))], fs_deny = []\<rparr>,
     w_out = fst demo_out, w_ctx = [], w_time = 1, w_ext = \<lparr>ax_heap = [], ax_rest = ()\<rparr>\<rparr>"


subsection \<open>One report per file name\<close>

text \<open>A tool whose output depends on its command line only, and that leaves the world alone.\<close>

definition pure_tool :: "'y os_lib \<Rightarrow> (string list \<Rightarrow> string \<times> error option) \<Rightarrow> bool" where
  "pure_tool OS out \<longleftrightarrow> (\<forall>c d w. os_run OS c d w = (out c, w))"

lemma check_command_pure:
  assumes "pure_tool OS out"
  shows "\<exists>w'. check_command OS c d w = (Returns (Inr (out c)), w') \<and> w_fs w' = w_fs w \<and> w_ctx w' = w_ctx w"
  using assms
  by (cases "out c"; cases "snd (out c)")
    (auto simp: check_command_def seq_def out_command_def out_line_def upd_def act_run_cmd_def pure_tool_def ret_def)

lemma act_WriteFile_Inr:
  assumes "act_WriteFile p c w = (Returns (Inr u), w')"
  shows "WriteFile (path_of p) c (w_fs w) = (None, w_fs w')" and "w_ctx w' = w_ctx w"
  using assms by (auto simp: act_WriteFile_def split: prod.splits option.splits)

lemma write_reports_step:
  assumes "pure_tool OS out" and "cmd p = Inr (Inr c)"
    and "write_reports OS lenient cmd workdir dest (p # ps) w = (Returns (Inr u), w')"
  shows "\<exists>w1. WriteFile (path_of (report_path dest p)) (fst (out (Fields c))) (w_fs w) = (None, w_fs w1) \<and>
    write_reports OS lenient cmd workdir dest ps w1 = (Returns (Inr u), w')"
proof -
  obtain w0 where c: "check_command OS (Fields c) workdir w = (Returns (Inr (out (Fields c))), w0)" "w_fs w0 = w_fs w"
    using check_command_pure [OF assms(1)] by blast
  have "seq (act_WriteFile (report_path dest p) (fst (out (Fields c))))
      (\<lambda>u. write_reports OS lenient cmd workdir dest ps) w0 = (Returns (Inr u), w')"
    using assms(2,3) c(1) by (cases lenient; cases "out (Fields c)"; cases "snd (out (Fields c))")
      (auto simp: seq_Returns checked_def seq_def fail_def split: if_splits)
  then obtain v w1 where "act_WriteFile (report_path dest p) (fst (out (Fields c))) w0 = (Returns (Inr v), w1)"
    "write_reports OS lenient cmd workdir dest ps w1 = (Returns (Inr u), w')"
    by (auto simp: seq_Inr_iff)
  then show ?thesis using act_WriteFile_Inr(1) c(2) by metis
qed

lemma write_reports_other:
  assumes "pure_tool OS out" and "\<forall>q \<in> set ps. \<exists>c. cmd q = Inr (Inr c)"
    and "write_reports OS lenient cmd workdir dest ps w = (Returns (Inr u), w')"
    and "readStringFromFile f (w_fs w) = Inr d" and "\<forall>q \<in> set ps. path_of f \<noteq> path_of (report_path dest q)"
  shows "readStringFromFile f (w_fs w') = Inr d"
  using assms(2-5)
proof (induction ps arbitrary: w)
  case Nil
  then show ?case by (simp add: ret_def)
next
  case (Cons p ps)
  then obtain c where "cmd p = Inr (Inr c)" by auto
  from write_reports_step [OF assms(1) this Cons.prems(2)] obtain w1 where w1:
    "WriteFile (path_of (report_path dest p)) (fst (out (Fields c))) (w_fs w) = (None, w_fs w1)"
    "write_reports OS lenient cmd workdir dest ps w1 = (Returns (Inr u), w')" by blast
  then show ?case using Cons.prems read_write_other [OF w1(1), of f d] by (intro Cons.IH [of w1]) auto
qed

text \<open>
  A check that went through its contracts has written, for every contract, a report with the output
  of the tool for the last contract of the same file name: contracts of one name in different
  directories share a report, and only the last is kept.
\<close>

theorem reports_written:
  assumes "pure_tool OS out" and "\<forall>q \<in> set ps. \<exists>c. cmd q = Inr (Inr c)"
    and "write_reports OS lenient cmd workdir dest ps w = (Returns (Inr u), w')" and "p \<in> set ps"
  shows "\<exists>q c. q = last (filter (\<lambda>q. path_of (report_path dest q) = path_of (report_path dest p)) ps) \<and>
    cmd q = Inr (Inr c) \<and> GetFileData (report_path dest p) (w_fs w') = Inr (fst (out (Fields c)))"
  using assms(2-4)
proof (induction ps arbitrary: w p)
  case (Cons x ps)
  let ?same = "\<lambda>p q. path_of (report_path dest q) = path_of (report_path dest p)"
  obtain c where c: "cmd x = Inr (Inr c)" using Cons.prems(1) by auto
  from write_reports_step [OF assms(1) c Cons.prems(2)] obtain w1 where
    w1: "WriteFile (path_of (report_path dest x)) (fst (out (Fields c))) (w_fs w) = (None, w_fs w1)"
    "write_reports OS lenient cmd workdir dest ps w1 = (Returns (Inr u), w')" by blast
  show ?case
  proof (cases "\<exists>q \<in> set ps. ?same p q")
    case True
    then obtain q where q: "q \<in> set ps" "?same p q" by blast
    have "?same q = ?same p" using q(2) by auto
    moreover have "filter (?same p) ps \<noteq> []" using q by (auto simp: filter_empty_conv)
    moreover have "GetFileData (report_path dest p) (w_fs w') = GetFileData (report_path dest q) (w_fs w')"
      using q(2) by (simp add: GetFileData_def)
    ultimately show ?thesis using Cons.IH [OF _ w1(2) q(1)] Cons.prems(1) by simp
  next
    case False
    then have px: "?same p x" using Cons.prems(3) by auto
    have none: "filter (?same p) ps = []" using False by (auto simp: filter_empty_conv)
    have "readStringFromFile (report_path dest x) (w_fs w1) = Inr (fst (out (Fields c)))"
      by (rule read_write_same [OF w1(1)])
    then have "readStringFromFile (report_path dest p) (w_fs w1) = Inr (fst (out (Fields c)))"
      using px by (simp add: read_iff)
    then have "readStringFromFile (report_path dest p) (w_fs w') = Inr (fst (out (Fields c)))"
      using write_reports_other [OF assms(1) _ w1(2)] Cons.prems(1) False by (metis list.set_intros(2))
    then show ?thesis using px none c by (simp add: GetFileData_iff)
  qed
qed simp

text \<open>Two contracts \<open>a.sol\<close>; the tool prints its command line.\<close>

definition echo_os :: "unit os_lib" where
  "echo_os = demo_os\<lparr>os_run := \<lambda>c d w. ((Join c '' '', None), w)\<rparr>"

lemma demo_reports:
  "fst (write_reports echo_os False (\<lambda>p. Inr (Inr (''solhint '' @ p))) ''/w'' ''/r''
     [''/w/x/a.sol'', ''/w/y/a.sol''] demo_checks) = Returns (Inr ())"
  by code_simp

theorem reports_written_witness:
  "\<exists>w'. snd (write_reports echo_os False (\<lambda>p. Inr (Inr (''solhint '' @ p))) ''/w'' ''/r''
      [''/w/x/a.sol'', ''/w/y/a.sol''] demo_checks) = w' \<and>
    GetFileData (report_path ''/r'' ''/w/x/a.sol'') (w_fs w') = Inr ''solhint /w/y/a.sol''"
proof -
  have tool: "pure_tool echo_os (\<lambda>c. (Join c '' '', None))" by (simp add: pure_tool_def echo_os_def)
  obtain w' where w': "write_reports echo_os False (\<lambda>p. Inr (Inr (''solhint '' @ p))) ''/w'' ''/r''
      [''/w/x/a.sol'', ''/w/y/a.sol''] demo_checks = (Returns (Inr ()), w')"
    using demo_reports by (metis prod.collapse)
  have l: "last (filter (\<lambda>q. path_of (report_path ''/r'' q) = path_of (report_path ''/r'' ''/w/x/a.sol''))
      [''/w/x/a.sol'', ''/w/y/a.sol'']) = ''/w/y/a.sol''" by code_simp
  have f: "Fields ''solhint /w/y/a.sol'' = [''solhint'', ''/w/y/a.sol'']" by code_simp
  from reports_written [OF tool _ w', of "''/w/x/a.sol''"] w' l f show ?thesis by simp
qed

subsection \<open>slither-check fails on every first run\<close>

lemma check_context_strings:
  assumes "m_load (w_ctx w) ''workdir'' = Some (CStr wd)" and "m_load (w_ctx w) ''name'' = Some (CStr nm)"
    and "m_load (w_ctx w) ''id'' = Some (CStr jid)"
  shows "check_context w = (Returns (Inr (wd, nm, jid)), w)"
  using assms by (simp add: check_context_def ctx_string_ok_def seq_def ret_def)

text \<open>
  The slither check succeeds if and only if the directory for its reports existed before it ran and all
  reports could be written: it returns the error of looking for that directory, so in every run
  of a job the first slither step fails, although it has written its reports.
\<close>

theorem slither_needs_old_directory:
  assumes "m_load (w_ctx w) ''workdir'' = Some (CStr wd)" and "m_load (w_ctx w) ''name'' = Some (CStr nm)"
    and "m_load (w_ctx w) ''id'' = Some (CStr jid)"
  shows "(\<exists>x. fst (Slither_Hook OS p w) = Returns (Inr x)) \<longleftrightarrow>
    (\<exists>n. Stat (w_fs w) (path_of (check_dir OS nm jid ''slither'')) = Inr n) \<and>
    (\<exists>w'. write_reports OS False (slither_command (PathJoin [wd, p])) wd (check_dir OS nm jid ''slither'')
       (suffix_files (PathJoin [wd, p]) ''.sol'' (w_fs w)) w = (Returns (Inr ()), w'))"
proof (cases "Stat (w_fs w) (path_of (check_dir OS nm jid ''slither''))")
  case (Inl e)
  have "fst (Slither_Hook OS p w) \<noteq> Returns (Inr x)" for x
  proof
    assume "fst (Slither_Hook OS p w) = Returns (Inr x)"
    then obtain w' where "Slither_Hook OS p w = (Returns (Inr x), w')" by (metis prod.collapse)
    then show False
      using check_context_strings [OF assms] Inl
      by (auto simp: Slither_Hook_def seq_Inr_iff look_def Let_def fail_def)
  qed
  then show ?thesis using Inl by auto
next
  case (Inr n)
  let ?m = "write_reports OS False (slither_command (PathJoin [wd, p])) wd (check_dir OS nm jid ''slither'')
    (suffix_files (PathJoin [wd, p]) ''.sol'' (w_fs w))"
  have "Slither_Hook OS p w = seq ?m (\<lambda>u. ret None) w"
    using Inr check_context_strings [OF assms]
    by (simp add: Slither_Hook_def seq_def look_def ensure_dir_def Let_def ret_def)
  then have "(\<exists>x. fst (Slither_Hook OS p w) = Returns (Inr x)) \<longleftrightarrow> (\<exists>w'. ?m w = (Returns (Inr ()), w'))"
    by (cases "?m w"; cases "fst (?m w)") (auto simp: seq_def ret_def split: sum.splits)
  then show ?thesis using Inr by simp
qed

definition demo_slither :: "unit aworld" where
  "demo_slither = demo_checks\<lparr>w_ctx := [(''workdir'', CStr ''/w''), (''name'', CStr ''j''), (''id'', CStr ''1'')]\<rparr>"

theorem slither_needs_old_directory_witness:
  "fst (Slither_Hook demo_os [] demo_slither) \<noteq> Returns (Inr None)"
proof -
  have "Stat (w_fs demo_slither) (path_of (check_dir demo_os ''j'' ''1'' ''slither'')) = Inl ENOENT" by code_simp
  moreover have "m_load (w_ctx demo_slither) ''workdir'' = Some (CStr ''/w'')"
    "m_load (w_ctx demo_slither) ''name'' = Some (CStr ''j'')" "m_load (w_ctx demo_slither) ''id'' = Some (CStr ''1'')"
    by (simp_all add: demo_slither_def m_load_def)
  ultimately show ?thesis using slither_needs_old_directory [of demo_slither "''/w''" "''j''" "''1''" demo_os "[]"] by auto
qed

end
