(* ===== verification/Artifacts.thy ===== *)
theory Artifacts
  imports Checks
begin

text \<open>
  The action \<open>hamster-artifactory\<close> (\<open>action_artifactory.go\<close>): the files that match the paths of the step are
  saved in the directory of the run, packed into one archive or copied one by one.  The bytes of an
  archive (\<open>zb\<close>), the error of a zip writer without a file (\<open>nilf\<close>) and the pattern matcher (\<open>mt\<close>) are
  arguments.  The search is \<open>FileUtils.GetFiles\<close>, of which the action has a copy.
\<close>

section \<open>The action\<close>

record ArtifactoryAction =
  af_name :: string
  af_path :: "string list"
  af_compress :: bool

text \<open>\<open>strconv.ParseBool\<close>; its error leaves false.\<close>

definition ParseBool :: "string \<Rightarrow> bool" where
  "ParseBool s \<longleftrightarrow> s \<in> {''1'', ''t'', ''T'', ''TRUE'', ''true'', ''True''}"

definition NewArtifactoryAction :: "Step \<Rightarrow> ArtifactoryAction" where
  "NewArtifactoryAction step =
     (let s = step_with step ''path'';
          p = (if s \<noteq> [] \<and> last s = CHR 0x0A then butlast s else s);
          compress = (case m_load (step_With step) ''compress'' of None \<Rightarrow> True | Some v \<Rightarrow> ParseBool v) in
      \<lparr>af_name = step_with step ''name'', af_path = Split p nl, af_compress = compress\<rparr>)"

definition matching_files :: "(string \<Rightarrow> string \<Rightarrow> bool res) \<Rightarrow> string \<Rightarrow> string list \<Rightarrow> fs \<Rightarrow> string list" where
  "matching_files mt workdir fuzzyPath fs =
     (case GetFiles (Suc (fs_depth fs)) mt workdir fuzzyPath [] fs of None \<Rightarrow> [] | Some l \<Rightarrow> l)"

definition Artifactory_Pre :: "(string \<Rightarrow> string \<Rightarrow> bool res) \<Rightarrow> ArtifactoryAction \<Rightarrow>
    ('y aworld, ArtifactoryAction) act" where
  "Artifactory_Pre mt a =
     (if \<not> (length (af_path a) > 0 \<and> af_path a ! 0 \<noteq> [])
      then fail ''the path parameter of the save artifact is required''
      else if af_name a = [] then fail ''the name parameter of the save artifact is required''
      else seq (ctx_string_ok ''workdir'' ''get workdir error'') (\<lambda>workdir.
        look (\<lambda>w. a\<lparr>af_path := matching_files mt workdir
          (map (\<lambda>p. PathJoin [workdir, p]) (af_path a)) (w_fs w)\<rparr>)))"

definition artifact_dir :: "'y os_lib \<Rightarrow> string \<Rightarrow> string \<Rightarrow> string" where
  "artifact_dir OS jobName jobId = PathJoin [home_dir OS, ''pipelines/jobs'', jobName, ''/artifactory'', jobId]"

definition artifact_path :: "'y os_lib \<Rightarrow> string \<Rightarrow> string \<Rightarrow> string \<Rightarrow> string" where
  "artifact_path OS jobName jobId name =
     PathJoin [home_dir OS, ''pipelines/jobs'', jobName, ''/artifactory'', jobId, name]"

text \<open>\<open>os.Open\<close>.\<close>

definition can_open :: "fs \<Rightarrow> string \<Rightarrow> bool" where
  "can_open fs p \<longleftrightarrow> isl (Stat fs (path_of p)) = False \<and> \<not> denied fs (path_of p)"

definition art_result :: "Artifactory list \<Rightarrow> ActionResult option" where
  "art_result l = Some (empty_ActionResult\<lparr>ar_Artifactorys := l\<rparr>)"

definition act_CompressZip :: "(zip \<Rightarrow> string) \<Rightarrow> (zip \<Rightarrow> error option) \<Rightarrow> (string list \<Rightarrow> string list) \<Rightarrow>
    string list \<Rightarrow> string \<Rightarrow> ('y aworld, unit) act" where
  "act_CompressZip zb nilf ord files dest w =
     (case CompressZip zb nilf ord files dest (w_fs w) of
        Some (None, fs') \<Rightarrow> (Returns (Inr ()), w\<lparr>w_fs := fs'\<rparr>)
      | Some (Some e, fs') \<Rightarrow> (Returns (Inl ''compression failed''), w\<lparr>w_fs := fs'\<rparr>)
      | None \<Rightarrow> (Returns (Inl ''compression failed''), w))"

text \<open>
  Copying one file: opened for writing without truncation, so what an older file has beyond the new
  data stays; a directory is opened as well, its failing read is not noticed.
\<close>

definition overwrite :: "string \<Rightarrow> string \<Rightarrow> fs \<Rightarrow> errno option \<times> fs" where
  "overwrite p d fs =
     (let old = (case ReadFile (path_of p) fs of Inl e \<Rightarrow> [] | Inr t \<Rightarrow> t) in
      WriteFile (path_of p) (d @ drop (length d) old) fs)"

fun copy_files :: "string \<Rightarrow> string list \<Rightarrow> fs \<Rightarrow> Artifactory list \<times> fs" where
  "copy_files basePath [] fs = ([], fs)"
| "copy_files basePath (p # ps) fs =
     (if \<not> can_open fs p then copy_files basePath ps fs
      else
        (let dest = PathJoin [basePath, Base p];
             src = (case ReadFile (path_of p) fs of Inl e \<Rightarrow> [] | Inr d \<Rightarrow> d) in
         case overwrite dest src fs of
           (Some e, fs1) \<Rightarrow> copy_files basePath ps fs1
         | (None, fs1) \<Rightarrow>
             (case copy_files basePath ps fs1 of
                (l, fs2) \<Rightarrow> (\<lparr>art_Name = Base dest, art_Url = dest\<rparr> # l, fs2))))"

definition Artifactory_Hook :: "'y os_lib \<Rightarrow> (zip \<Rightarrow> string) \<Rightarrow> (zip \<Rightarrow> error option) \<Rightarrow> ArtifactoryAction \<Rightarrow>
    ('y aworld, ActionResult option) act" where
  "Artifactory_Hook OS zb nilf a =
     seq (upd (\<lambda>w. w\<lparr>w_out := NewStage (os_format OS) (os_map_order OS) (\<lambda>_. w_time w) (w_time w)
           ''artifactory'' (w_out w)\<rparr>)) (\<lambda>u.
     seq (ctx_string_ok ''name'' ''get job name error'') (\<lambda>jobName.
     seq (ctx_string_ok ''id'' ''get job id error'') (\<lambda>jobId.
     if af_compress a then
       (let dest = artifact_path OS jobName jobId (af_name a) in
        seq (look (\<lambda>w. list_all (can_open (w_fs w)) (af_path a))) (\<lambda>ok.
        if \<not> ok then fail ''file open fail''
        else seq (act_CompressZip zb nilf (os_readdir OS) (af_path a) dest) (\<lambda>u.
          ret (art_result [\<lparr>art_Name = af_name a, art_Url = dest\<rparr>]))))
     else
       (let basePath = artifact_dir OS jobName jobId in
        seq (attempt (act_MkdirAll basePath)) (\<lambda>u.
        seq (look (\<lambda>w. copy_files basePath (af_path a) (w_fs w))) (\<lambda>(l, fs').
        seq (upd (\<lambda>w. w\<lparr>w_fs := fs'\<rparr>)) (\<lambda>u.
        ret (art_result l))))))))"

definition Artifactory_Post :: "('y aworld, unit) act" where "Artifactory_Post = ret ()"

section \<open>A saved archive can be unpacked\<close>

lemma fs_plain_put:
  assumes "fs_plain fs" and "list_all good_comp q" and "q \<noteq> []" and "fs_lookup fs (butlast q) = Some FDir"
    and "fs_lookup fs q \<noteq> Some FDir"
  shows "fs_plain (fs_put q n fs)"
proof -
  have ne: "butlast q \<noteq> q" using assms(3) by (metis append_butlast_last_id not_Cons_self2 self_append_conv)
  have look: "fs_lookup (fs_put q n fs) r = (if r = q then Some n else fs_lookup fs r)" for r
    using assms(3) by simp
  have "fs_ok (fs_put q n fs)"
    using assms(1,4,5) ne unfolding fs_plain_def fs_ok_def look
    by (auto split: if_splits)
  moreover have "set (m_keys (fs_nodes (fs_put q n fs))) = insert q (set (m_keys (fs_nodes fs)))"
    by (simp add: fs_put_def gm.set_keys_store)
  ultimately show ?thesis using assms(1-3) by (auto simp: fs_plain_def fs_put_def list_all_iff)
qed

lemma mkdir_from_plain:
  "mkdir_from pre cs fs = (e, fs') \<Longrightarrow> fs_plain fs \<Longrightarrow> fs_lookup fs pre = Some FDir \<Longrightarrow>
    list_all good_comp (pre @ cs) \<Longrightarrow> fs_plain fs'"
proof (induction pre cs fs arbitrary: e fs' rule: mkdir_from.induct)
  case (2 pre c cs fs)
  note st = fs_ok_Stat [of fs "pre @ [c]"]
  show ?case
  proof (cases "fs_lookup fs (pre @ [c])")
    case None
    then have S: "Stat fs (pre @ [c]) = Inl ENOENT" using st 2(4,5) by (simp add: fs_plain_def)
    have "fs_plain (fs_put (pre @ [c]) FDir fs)" using None 2(4-6) by (intro fs_plain_put) auto
    then show ?thesis using 2(1) [OF S refl] 2(3,6) S by simp
  next
    case (Some n)
    then have S: "Stat fs (pre @ [c]) = Inr n" using st 2(4,5) by (simp add: fs_plain_def)
    show ?thesis
    proof (cases n)
      case FDir
      then show ?thesis using 2(2) [of n, OF S] S Some 2(3,4,6) by simp
    next
      case (FFile d)
      then show ?thesis using S 2(3,4) by simp
    qed
  qed
qed simp

text \<open>After \<open>CompressZip\<close> has made room for the archive, everything outside its path is as before.\<close>

lemma archive_room:
  assumes "fs_plain fs" and "list_all good_comp (D @ [f])"
    and free: "\<And>q x. prefix q D \<Longrightarrow> fs_lookup fs q \<noteq> Some (FFile x)" and "fs_lookup fs (D @ [f]) \<noteq> Some FDir"
  shows "\<exists>fs1. (if Stat fs D = Inl ENOENT then MkdirAll D fs else (None, fs)) = (None, fs1) \<and>
    WriteFile (D @ [f]) c fs1 = (None, fs_put (D @ [f]) (FFile c) fs1) \<and>
    fs_plain (fs_put (D @ [f]) (FFile c) fs1) \<and>
    (\<forall>q. \<not> prefix q (D @ [f]) \<longrightarrow> fs_lookup (fs_put (D @ [f]) (FFile c) fs1) q = fs_lookup fs q)"
proof -
  have perm: "fs_deny fs = []" using assms(1) by (simp add: fs_plain_def fs_ok_def)
  obtain e fs1 where m: "(if Stat fs D = Inl ENOENT then MkdirAll D fs else (None, fs)) = (e, fs1)"
    by (cases "if Stat fs D = Inl ENOENT then MkdirAll D fs else (None, fs)")
  have st: "Stat fs D = Inr FDir \<or> Stat fs D = Inl ENOENT"
    using resolve_free [of "[]" D fs] free perm by (simp add: Stat_def)
  have "e = None \<and> fs_plain fs1 \<and> fs_lookup fs1 D = Some FDir \<and> adds_dirs D fs fs1"
  proof (cases "Stat fs D = Inl ENOENT")
    case True
    then have mk: "MkdirAll D fs = (e, fs1)" using m by simp
    moreover have "fst (mkdir_from [] D fs) = None" using free perm by (intro mkdir_from_free) auto
    ultimately have "e = None" by (simp add: MkdirAll_def)
    moreover have "fs_plain fs1"
      using mkdir_from_plain [of "[]" D fs e fs1] mk assms(1,2) by (simp add: MkdirAll_def)
    ultimately show ?thesis using MkdirAll_adds [OF mk] by (simp add: Stat_Inr)
  next
    case False
    then show ?thesis using m st assms(1) by (simp add: Stat_Inr)
  qed
  then have f1: "e = None" "fs_plain fs1" "fs_lookup fs1 D = Some FDir" "adds_dirs D fs fs1" by blast+
  have nd: "fs_lookup fs1 (D @ [f]) \<noteq> Some FDir"
  proof -
    have "\<not> prefix (D @ [f]) D" by (auto dest: prefix_length_le)
    then have "fs_lookup fs1 (D @ [f]) = fs_lookup fs (D @ [f])" using f1(4) unfolding adds_dirs_def by blast
    then show ?thesis using assms(4) by simp
  qed
  have "fs_ok fs1" using f1(2) by (simp add: fs_plain_def)
  then have "dirs_ok fs1 (D @ [f])" "\<not> denied fs1 (D @ [f])"
    using fs_ok_dirs [of fs1 D FDir] f1(3) by (auto simp: dirs_ok_snoc fs_ok_def)
  then have "WriteFile (D @ [f]) c fs1 = (None, fs_put (D @ [f]) (FFile c) fs1)"
    using nd by (intro WriteFile_ok) auto
  moreover have "fs_plain (fs_put (D @ [f]) (FFile c) fs1)"
    using fs_plain_put [OF f1(2) assms(2)] f1(3) nd by simp
  moreover have "fs_lookup (fs_put (D @ [f]) (FFile c) fs1) q = fs_lookup fs q" if "\<not> prefix q (D @ [f])" for q
  proof -
    have "\<not> prefix q D" "q \<noteq> D @ [f]" using that by (auto simp: prefix_def)
    then show ?thesis using f1(4) by (auto simp: adds_dirs_def)
  qed
  ultimately show ?thesis using m f1(1) by blast
qed

definition unpacks :: "fs \<Rightarrow> path \<Rightarrow> zip \<Rightarrow> path \<Rightarrow> fs \<Rightarrow> bool" where
  "unpacks fs p zw ds fs0 \<longleftrightarrow> (\<exists>err fs1. unzip_entries (abs_path ds) zw fs0 = Inr (err, fs1) \<and>
    (err = None \<longrightarrow> (\<forall>rel d. list_all good_comp rel \<longrightarrow> readStringFromFile (abs_path (p @ rel)) fs = Inr d \<longrightarrow>
      readStringFromFile (abs_path (ds @ last p # rel)) fs1 = Inr d)) \<and>
    (vacant fs0 ds (last p) \<longrightarrow> err = None))"

text \<open>Packing one file or directory: the archive is in place, and unpacks to what was packed.\<close>

lemma CompressZip_unpacks:
  assumes plain: "fs_plain fs" and p: "p \<noteq> []" "fs_lookup fs p \<noteq> None"
    and ord: "\<And>names. set (ord names) = set names \<and> (distinct names \<longrightarrow> distinct (ord names))"
    and D: "list_all good_comp (D @ [f])" "\<not> prefix p (D @ [f])"
    and free: "\<And>q x. prefix q D \<Longrightarrow> fs_lookup fs q \<noteq> Some (FFile x)" "fs_lookup fs (D @ [f]) \<noteq> Some FDir"
  shows "\<exists>fs' zw. CompressZip zb nilf ord [abs_path p] (abs_path (D @ [f])) fs = Some (None, fs') \<and>
    GetFileData (abs_path (D @ [f])) fs' = Inr (zb zw) \<and>
    (\<forall>ds fs0. list_all good_comp ds \<longrightarrow> ds \<noteq> [] \<longrightarrow> unpacks fs p zw ds fs0)"
proof -
  have dir: "path_of (Dir (abs_path (D @ [f]))) = D" "path_of (abs_path (D @ [f])) = D @ [f]"
    using D(1) by (simp_all add: Dir_abs_path)
  obtain fs1 where r: "(if Stat fs D = Inl ENOENT then MkdirAll D fs else (None, fs)) = (None, fs1)"
    "WriteFile (D @ [f]) [] fs1 = (None, fs_put (D @ [f]) (FFile []) fs1)"
    "fs_plain (fs_put (D @ [f]) (FFile []) fs1)"
    "\<forall>q. \<not> prefix q (D @ [f]) \<longrightarrow> fs_lookup (fs_put (D @ [f]) (FFile []) fs1) q = fs_lookup fs q"
    using archive_room [OF plain D(1) free, of "[]"] by blast
  define fs2 where "fs2 = fs_put (D @ [f]) (FFile []) fs1"
  have outside: "\<not> prefix (p @ rel) (D @ [f])" for rel using D(2) by (auto simp: prefix_def)
  have p2: "fs_plain fs2" "fs_lookup fs2 p \<noteq> None" using r(3,4) p(2) outside [of "[]"] by (simp_all add: fs2_def)
  obtain L where "compress (Suc (fs_depth fs2)) ord fs2 (abs_path p) [] [] = Some (None, map (zip_entry fs2 [] p) L)"
    using compress_found [OF p2(1) ord, of p "Suc (fs_depth fs2)" "[]" "[]"] p(1) p2(2) by auto
  then obtain zw where zw: "compress_all (Suc (fs_depth fs2)) ord fs2 [abs_path p] [] = Some (None, zw)" by simp
  have "WriteFile (D @ [f]) (zb zw) fs2 = (None, fs_put (D @ [f]) (FFile (zb zw)) fs2)"
    using WriteFile_None [OF r(2)] dirs_ok_put [of fs1 "D @ [f]" "D @ [f]" "FFile []"]
    by (intro WriteFile_ok) (auto simp: fs2_def)
  then have w: "WriteFile (path_of (abs_path (D @ [f]))) (zb zw) fs2 = (None, fs_put (D @ [f]) (FFile (zb zw)) fs2)"
    using dir by simp
  have "CompressZip zb nilf ord [abs_path p] (abs_path (D @ [f])) fs = Some (None, fs_put (D @ [f]) (FFile (zb zw)) fs2)"
    unfolding CompressZip_def dir r(1) using r(2) [folded fs2_def] zw w dir(2) by simp
  moreover have "GetFileData (abs_path (D @ [f])) (fs_put (D @ [f]) (FFile (zb zw)) fs2) = Inr (zb zw)"
    using read_write_same [OF w] by (simp add: GetFileData_iff)
  moreover have "unpacks fs p zw ds fs0" if ds: "list_all good_comp ds" "ds \<noteq> []" for ds fs0
  proof -
    have same: "readStringFromFile (abs_path (p @ rel)) fs2 = Inr d"
      if "list_all good_comp rel" "readStringFromFile (abs_path (p @ rel)) fs = Inr d" for rel d
    proof -
      have "list_all good_comp (p @ rel)" using that(1) p(2) fs_plain_dir_good [OF plain] by auto
      then show ?thesis
        using that(2) r(4) outside [of rel] fs_ok_read [of fs "abs_path (p @ rel)" d]
          fs_ok_read [of fs2 "abs_path (p @ rel)" d] plain p2(1)
        by (simp add: fs_plain_def fs2_def)
    qed
    from zip_roundtrip [OF p2(1) p(1) p2(2) ord ds, of fs0] zw same show ?thesis
      unfolding unpacks_def by (metis option.inject prod.inject)
  qed
  ultimately show ?thesis by blast
qed

text \<open>
  Saving a file or a directory as a compressed artifact succeeds whenever the path of the archive is
  free: the step returns the archive's name and path, the archive is in the directory of the run,
  and unpacking it elsewhere without an error gives back every file with its data; there is no error when
  the destination has room.
\<close>

theorem artifact_restored:
  assumes "fs_plain (w_fs w)" and "p \<noteq> []" and "fs_lookup (w_fs w) p \<noteq> None"
    and "\<And>names. set (os_readdir OS names) = set names \<and> (distinct names \<longrightarrow> distinct (os_readdir OS names))"
    and "m_load (w_ctx w) ''name'' = Some (CStr nm)" and "m_load (w_ctx w) ''id'' = Some (CStr jid)"
    and "af_compress a" and "af_path a = [abs_path p]"
    and "artifact_path OS nm jid (af_name a) = abs_path (D @ [f])" and "list_all good_comp (D @ [f])"
    and "\<not> prefix p (D @ [f])" and "\<And>q x. prefix q D \<Longrightarrow> fs_lookup (w_fs w) q \<noteq> Some (FFile x)"
    and "fs_lookup (w_fs w) (D @ [f]) \<noteq> Some FDir"
  shows "\<exists>w' zw. Artifactory_Hook OS zb nilf a w =
      (Returns (Inr (art_result [\<lparr>art_Name = af_name a, art_Url = abs_path (D @ [f])\<rparr>])), w') \<and>
    GetFileData (abs_path (D @ [f])) (w_fs w') = Inr (zb zw) \<and>
    (\<forall>ds fs0. list_all good_comp ds \<longrightarrow> ds \<noteq> [] \<longrightarrow> unpacks (w_fs w) p zw ds fs0)"
proof -
  obtain fs' zw where z: "CompressZip zb nilf (os_readdir OS) [abs_path p] (abs_path (D @ [f])) (w_fs w) = Some (None, fs')"
    "GetFileData (abs_path (D @ [f])) fs' = Inr (zb zw)"
    "\<forall>ds fs0. list_all good_comp ds \<longrightarrow> ds \<noteq> [] \<longrightarrow> unpacks (w_fs w) p zw ds fs0"
    using CompressZip_unpacks [OF assms(1-4,10-13)] by blast
  obtain n where n: "fs_lookup (w_fs w) p = Some n" using assms(3) by blast
  then have "path_of (abs_path p) = p" using fs_plain_dir_good [OF assms(1)] by simp
  moreover have "Stat (w_fs w) p = Inr n" "fs_deny (w_fs w) = []"
    using n assms(1) fs_ok_Stat_Some by (auto simp: fs_plain_def fs_ok_def)
  ultimately have "can_open (w_fs w) (abs_path p)" by (simp add: can_open_def)
  then have "\<exists>w'. Artifactory_Hook OS zb nilf a w =
      (Returns (Inr (art_result [\<lparr>art_Name = af_name a, art_Url = abs_path (D @ [f])\<rparr>])), w') \<and> w_fs w' = fs'"
    using assms(5-9) z(1)
    by (simp add: Artifactory_Hook_def seq_def upd_def ctx_string_ok_def ret_def look_def act_CompressZip_def Let_def)
  with z(2,3) show ?thesis by blast
qed

definition demo_save :: "unit aworld" where
  "demo_save = demo_checks\<lparr>w_fs := demo_tree, w_ctx := [(''name'', CStr ''j''), (''id'', CStr ''1'')]\<rparr>"

theorem artifact_restored_witness:
  "\<forall>zb nilf. \<exists>w' zw. Artifactory_Hook demo_os zb nilf \<lparr>af_name = ''out.zip'', af_path = [abs_path [''w'']], af_compress = True\<rparr> demo_save =
      (Returns (Inr (art_result [\<lparr>art_Name = ''out.zip'', art_Url = ''/h/pipelines/jobs/j/artifactory/1/out.zip''\<rparr>])), w') \<and>
    GetFileData ''/h/pipelines/jobs/j/artifactory/1/out.zip'' (w_fs w') = Inr (zb zw)"
proof (intro allI)
  fix zb nilf
  let ?a = "\<lparr>af_name = ''out.zip'', af_path = [abs_path [''w'']], af_compress = True\<rparr>"
  let ?D = "[''h'', ''pipelines'', ''jobs'', ''j'', ''artifactory'', ''1'']"
  have fs: "w_fs demo_save = demo_tree" by (simp add: demo_save_def)
  have path: "artifact_path demo_os ''j'' ''1'' (af_name ?a) = abs_path (?D @ [''out.zip''])" by code_simp
  have url: "abs_path (?D @ [''out.zip'']) = ''/h/pipelines/jobs/j/artifactory/1/out.zip''" by code_simp
  have free: "fs_lookup (w_fs demo_save) q \<noteq> Some (FFile x)" if "prefix q ?D" for q x
  proof -
    from that consider "q = []" | r where "q = ''h'' # r" by (cases q) auto
    then show ?thesis
    proof cases
      case 2
      show ?thesis unfolding fs 2 by (simp add: demo_tree_def fs_lookup_def m_load_def)
    qed simp
  qed
  have nodes: "fs_plain (w_fs demo_save)" "fs_lookup (w_fs demo_save) [''w''] \<noteq> None"
    "fs_lookup (w_fs demo_save) (?D @ [''out.zip'']) \<noteq> Some FDir"
    using demo_tree_plain by (simp_all add: fs) (simp_all add: demo_tree_def fs_lookup_def m_load_def)
  have ctx: "m_load (w_ctx demo_save) ''name'' = Some (CStr ''j'')" "m_load (w_ctx demo_save) ''id'' = Some (CStr ''1'')"
    by (simp_all add: demo_save_def m_load_def)
  have ord: "set (os_readdir demo_os names) = set names \<and> (distinct names \<longrightarrow> distinct (os_readdir demo_os names))" for names
    by (simp add: demo_os_def)
  have names: "list_all good_comp (?D @ [''out.zip''])" "\<not> prefix [''w''] (?D @ [''out.zip''])"
    by (simp_all add: good_comp_def dot_def dotdot_def)
  have a: "af_compress ?a" "af_path ?a = [abs_path [''w'']]" by simp_all
  from artifact_restored [OF nodes(1) _ nodes(2) ord ctx a path names free nodes(3), where zb = zb and nilf = nilf]
  obtain w' zw where "Artifactory_Hook demo_os zb nilf ?a demo_save =
      (Returns (Inr (art_result [\<lparr>art_Name = af_name ?a, art_Url = abs_path (?D @ [''out.zip''])\<rparr>])), w')"
    "GetFileData (abs_path (?D @ [''out.zip''])) (w_fs w') = Inr (zb zw)" by blast
  then show "\<exists>w' zw. Artifactory_Hook demo_os zb nilf \<lparr>af_name = ''out.zip'', af_path = [abs_path [''w'']], af_compress = True\<rparr> demo_save =
      (Returns (Inr (art_result [\<lparr>art_Name = ''out.zip'', art_Url = ''/h/pipelines/jobs/j/artifactory/1/out.zip''\<rparr>])), w') \<and>
    GetFileData ''/h/pipelines/jobs/j/artifactory/1/out.zip'' (w_fs w') = Inr (zb zw)"
    unfolding url by auto
qed

text \<open>A copied artifact keeps the end of a longer file that was there before.\<close>

lemma copy_not_truncated:
  assumes "GetFileData p fs = Inr (take (length d) old @ rest)" and "length d \<le> length old"
    and "overwrite p d fs = (None, fs')"
  shows "GetFileData p fs' = Inr (d @ rest)"
proof -
  have "ReadFile (path_of p) fs = Inr (take (length d) old @ rest)"
    using assms(1) by (auto simp: GetFileData_def split: sum.splits)
  then have "WriteFile (path_of p) (d @ rest) fs = (None, fs')" using assms(2,3) by (simp add: overwrite_def)
  from read_write_same [OF this] show ?thesis by (simp add: GetFileData_iff)
qed

end
