(* ===== verification/StoreSpec.thy ===== *)
theory StoreSpec
  imports JobStore
begin

text \<open>
  What the store of \<open>job/job.go\<close> promises: three finite maps, from job names to job files and from job
  names with the number of a run to job details and logs.  The functions of the code on a file system
  refine the operations of these maps; their errors are those of the maps.
\<close>

section \<open>The abstract store\<close>

datatype store_key = Job_File string | Detail_File string int | Log_File string int

datatype store_op =
    Put_Job string string
  | Put_Detail string int string
  | Put_Log string int string
  | Drop_Job string
  | Drop_Detail string int

type_synonym store_map = "store_key \<Rightarrow> string option"

fun spec_op :: "store_op \<Rightarrow> store_map \<Rightarrow> bool \<times> store_map" where
  "spec_op (Put_Job n y) m = (True, m(Job_File n \<mapsto> y))"
| "spec_op (Put_Detail n i y) m = (True, m(Detail_File n i \<mapsto> y))"
| "spec_op (Put_Log n i y) m = (True, m(Log_File n i \<mapsto> y))"
| "spec_op (Drop_Job n) m = (m (Job_File n) \<noteq> None, m(Job_File n := None))"
| "spec_op (Drop_Detail n i) m = (m (Detail_File n i) \<noteq> None, m(Detail_File n i := None))"

fun spec_ops :: "store_op list \<Rightarrow> store_map \<Rightarrow> bool list \<times> store_map" where
  "spec_ops [] m = ([], m)"
| "spec_ops (oper # opers) m =
     (case spec_op oper m of (b, m1) \<Rightarrow> case spec_ops opers m1 of (bs, m2) \<Rightarrow> (b # bs, m2))"

section \<open>The operations of the code\<close>

fun run_op :: "string \<Rightarrow> store_op \<Rightarrow> fs \<Rightarrow> error option \<times> fs" where
  "run_op cfg (Put_Job n y) fs = SaveJob cfg n y fs"
| "run_op cfg (Put_Detail n i y) fs = SaveStringJobDetail cfg n i y fs"
| "run_op cfg (Put_Log n i y) fs = SaveJobLogString cfg n i y fs"
| "run_op cfg (Drop_Job n) fs = DeleteJob cfg n fs"
| "run_op cfg (Drop_Detail n i) fs = DeleteJobDetail cfg n i fs"

fun run_ops :: "string \<Rightarrow> store_op list \<Rightarrow> fs \<Rightarrow> error option list \<times> fs" where
  "run_ops cfg [] fs = ([], fs)"
| "run_ops cfg (oper # opers) fs =
     (case run_op cfg oper fs of (e, fs1) \<Rightarrow> case run_ops cfg opers fs1 of (es, fs2) \<Rightarrow> (e # es, fs2))"

text \<open>The map a file system stands for: what the reading functions return.\<close>

definition found :: "string res \<Rightarrow> string option" where
  "found r = (case r of Inl e \<Rightarrow> None | Inr d \<Rightarrow> Some d)"

fun key_name :: "store_key \<Rightarrow> string" where
  "key_name (Job_File n) = n"
| "key_name (Detail_File n i) = n"
| "key_name (Log_File n i) = n"

fun read_key :: "string \<Rightarrow> store_key \<Rightarrow> fs \<Rightarrow> string res" where
  "read_key cfg (Job_File n) fs = GetJob cfg n fs"
| "read_key cfg (Detail_File n i) fs = ReadStringJobDetail cfg n i fs"
| "read_key cfg (Log_File n i) fs = GetJobLogString cfg n i fs"

definition view :: "string \<Rightarrow> fs \<Rightarrow> store_map" where
  "view cfg fs k = (if good_comp (key_name k) then found (read_key cfg k fs) else None)"

fun op_name :: "store_op \<Rightarrow> string" where
  "op_name (Put_Job n y) = n"
| "op_name (Put_Detail n i y) = n"
| "op_name (Put_Log n i y) = n"
| "op_name (Drop_Job n) = n"
| "op_name (Drop_Detail n i) = n"

section \<open>Where the texts are\<close>

fun key_dir :: "store_key \<Rightarrow> path" where
  "key_dir (Job_File n) = [''jobs'', n]"
| "key_dir (Detail_File n i) = [''jobs'', n, ''job-details'']"
| "key_dir (Log_File n i) = [''jobs'', n, ''job-details-log'']"

fun key_file :: "store_key \<Rightarrow> string" where
  "key_file (Job_File n) = n @ ''.yml''"
| "key_file (Detail_File n i) = Itoa i @ ''.yml''"
| "key_file (Log_File n i) = Itoa i @ ''.log''"

definition key_path :: "path \<Rightarrow> store_key \<Rightarrow> path" where
  "key_path cs k = (cs @ key_dir k) @ [key_file k]"

lemma key_path_inj: "key_path cs k = key_path cs l \<Longrightarrow> k = l"
  by (cases k; cases l) (auto simp: key_path_def)

lemma key_path_not_dir: "\<not> prefix (key_path cs k) (cs @ key_dir l)"
  using yml_not_dir by (cases k; cases l) (auto simp: key_path_def)

lemma key_path_good: "list_all good_comp cs \<Longrightarrow> good_comp (key_name k) \<Longrightarrow> list_all good_comp (key_path cs k)"
  using good_comp_ext by (cases k) (auto simp: key_path_def good_comp_def [of "key_name k"] dest: good_compD)

lemma read_key_eq:
  assumes "list_all good_comp cs" and "good_comp (key_name k)"
  shows "read_key (abs_path cs) k fs = readStringFromFile (abs_path (key_path cs k)) fs"
  using assms by (cases k) (simp_all add: GetJob_def ReadStringJobDetail_def GetJobLogString_def store_paths key_path_def)

text \<open>The stores on which the operations are exact: nothing is in the way of a directory or of a file.\<close>

definition store_ok :: "path \<Rightarrow> fs \<Rightarrow> bool" where
  "store_ok cs fs \<longleftrightarrow> fs_ok fs \<and> list_all good_comp cs \<and>
     (\<forall>k q x. good_comp (key_name k) \<longrightarrow> prefix q (cs @ key_dir k) \<longrightarrow> fs_lookup fs q \<noteq> Some (FFile x)) \<and>
     (\<forall>k. good_comp (key_name k) \<longrightarrow> fs_lookup fs (key_path cs k) \<noteq> Some FDir)"

lemma view_eq:
  assumes "store_ok cs fs" and "good_comp (key_name k)"
  shows "view (abs_path cs) fs k =
    (case fs_lookup fs (key_path cs k) of Some (FFile d) \<Rightarrow> Some d | _ \<Rightarrow> None)"
proof -
  have g: "list_all good_comp cs" "fs_ok fs" using assms(1) by (simp_all add: store_ok_def)
  have p: "path_of (abs_path (key_path cs k)) = key_path cs k" using key_path_good [OF g(1) assms(2)] by simp
  have r: "readStringFromFile (abs_path (key_path cs k)) fs = Inr d \<longleftrightarrow>
      fs_lookup fs (key_path cs k) = Some (FFile d)" for d
    using fs_ok_read [OF g(2)] p by simp
  have "found (readStringFromFile (abs_path (key_path cs k)) fs) =
      (case fs_lookup fs (key_path cs k) of Some (FFile d) \<Rightarrow> Some d | _ \<Rightarrow> None)"
  proof (cases "readStringFromFile (abs_path (key_path cs k)) fs")
    case (Inl e)
    then have "fs_lookup fs (key_path cs k) \<noteq> Some (FFile d)" for d using r [of d] by simp
    then show ?thesis using Inl by (auto simp: found_def split: option.split fnode.split)
  next
    case (Inr d)
    then show ?thesis using r [of d] by (simp add: found_def)
  qed
  then show ?thesis using assms(2) read_key_eq [OF g(1) assms(2)] by (simp add: view_def)
qed

section \<open>The operations refine the maps\<close>

lemma mkdir_from_ok:
  "mkdir_from pre cs fs = (e, fs') \<Longrightarrow> fs_ok fs \<Longrightarrow> fs_lookup fs pre = Some FDir \<Longrightarrow> fs_ok fs'"
proof (induction pre cs fs arbitrary: e fs' rule: mkdir_from.induct)
  case (2 pre c cs fs)
  have st: "Stat fs (pre @ [c]) = (case fs_lookup fs (pre @ [c]) of None \<Rightarrow> Inl ENOENT | Some n \<Rightarrow> Inr n)"
    using fs_ok_Stat [OF 2(4), of "pre @ [c]"] 2(5) by simp
  show ?case
  proof (cases "fs_lookup fs (pre @ [c])")
    case None
    then have "fs_ok (fs_put (pre @ [c]) FDir fs)" using 2(4,5) by (intro fs_ok_put) auto
    then show ?thesis using 2(1) [OF _ refl] st None 2(3) by simp
  next
    case (Some n)
    then show ?thesis using 2(2) st 2(3,4) by (cases n) auto
  qed
qed simp

text \<open>Writing a text where the way is free: directories may be added, one file is put.\<close>

lemma save_free:
  assumes "fs_ok fs" and "list_all good_comp (D @ [f])"
    and free: "\<And>q x. prefix q D \<Longrightarrow> fs_lookup fs q \<noteq> Some (FFile x)" and "fs_lookup fs (D @ [f]) \<noteq> Some FDir"
  shows "\<exists>fs1. saveStringToFile (abs_path (D @ [f])) t fs = (None, fs_put (D @ [f]) (FFile t) fs1) \<and>
    fs_ok (fs_put (D @ [f]) (FFile t) fs1) \<and> adds_dirs D fs fs1"
proof -
  have p: "path_of (abs_path (D @ [f])) = D @ [f]" "path_of (Dir (abs_path (D @ [f]))) = D"
    using assms(2) by (simp_all add: Dir_abs_path)
  have perm: "fs_deny fs = []" using assms(1) by (simp add: fs_ok_def)
  obtain e fs1 where c: "createDirIfNotExist (Dir (abs_path (D @ [f]))) fs = (e, fs1)" by fastforce
  have ad: "adds_dirs D fs fs1" using createDirIfNotExist_adds [OF c] p(2) by simp
  have 1: "e = None \<and> fs_ok fs1 \<and> fs_lookup fs1 D = Some FDir"
  proof (cases "Stat fs D = Inl ENOENT")
    case True
    then obtain e' where m: "MkdirAll D fs = (e', fs1)" "e = go_err e'"
      using c p(2) by (auto simp: createDirIfNotExist_def isFileExist_def split: prod.splits)
    moreover have "fst (mkdir_from [] D fs) = None" using free perm by (intro mkdir_from_free) auto
    moreover have "fs_ok fs1" using mkdir_from_ok [of "[]" D fs] m(1) assms(1) by (simp add: MkdirAll_def)
    ultimately show ?thesis using MkdirAll_adds [OF m(1)] by (auto simp: MkdirAll_def go_err_def Stat_Inr)
  next
    case False
    then have "e = None" "fs1 = fs"
      using c p(2) by (simp_all add: createDirIfNotExist_def isFileExist_def)
    moreover have "Stat fs D = Inr FDir"
    proof (cases "Stat fs D")
      case (Inr n)
      then show ?thesis using free [of D] by (cases n) (auto simp: Stat_Inr)
    next
      case (Inl e)
      have "resolve_from fs [] D = Inr FDir \<or> resolve_from fs [] D = Inl ENOENT"
        using free perm by (intro resolve_free) auto
      then show ?thesis using False by (auto simp: Stat_def)
    qed
    ultimately show ?thesis using assms(1) by (simp add: Stat_Inr)
  qed
  have "\<not> prefix (D @ [f]) D" by (auto dest: prefix_length_le)
  then have nd: "fs_lookup fs1 (D @ [f]) \<noteq> Some FDir" using ad assms(4) unfolding adds_dirs_def by metis
  have "dirs_ok fs1 (D @ [f])" "\<not> denied fs1 (D @ [f])"
    using 1 fs_ok_dirs [of fs1 D FDir] by (auto simp: dirs_ok_snoc fs_ok_def)
  then have "WriteFile (D @ [f]) t fs1 = (None, fs_put (D @ [f]) (FFile t) fs1)"
    using nd by (intro WriteFile_ok) auto
  moreover have "fs_ok (fs_put (D @ [f]) (FFile t) fs1)" using 1 nd by (intro fs_ok_put) auto
  ultimately show ?thesis using c 1 ad p(1) by (auto simp: saveStringToFile_def go_err_def)
qed

lemma put_key:
  assumes ok: "store_ok cs fs" and k: "good_comp (key_name k)"
  shows "\<exists>fs'. saveStringToFile (abs_path (key_path cs k)) t fs = (None, fs') \<and> store_ok cs fs' \<and>
    view (abs_path cs) fs' = (view (abs_path cs) fs)(k \<mapsto> t)"
proof -
  let ?D = "cs @ key_dir k" and ?p = "key_path cs k"
  have g: "fs_ok fs" "list_all good_comp (?D @ [key_file k])" "list_all good_comp cs"
    using ok k key_path_good [of cs k] by (simp_all add: store_ok_def key_path_def)
  have "\<And>q x. prefix q ?D \<Longrightarrow> fs_lookup fs q \<noteq> Some (FFile x)"
    "fs_lookup fs (?D @ [key_file k]) \<noteq> Some FDir"
    using ok k unfolding store_ok_def key_path_def by blast+
  from save_free [OF g(1,2) this] obtain fs1 where
    s: "saveStringToFile (abs_path ?p) t fs = (None, fs_put ?p (FFile t) fs1)"
    "fs_ok (fs_put ?p (FFile t) fs1)" "adds_dirs ?D fs fs1" unfolding key_path_def by blast
  let ?fs = "fs_put ?p (FFile t) fs1"
  have putp: "fs_lookup ?fs q = (if q = ?p then Some (FFile t) else fs_lookup fs1 q)" for q
    by (simp add: key_path_def)
  have other: "fs_lookup ?fs (key_path cs l) = fs_lookup fs (key_path cs l)" if "l \<noteq> k" for l
  proof -
    have "key_path cs l \<noteq> ?p" using that key_path_inj by blast
    moreover have "fs_lookup fs1 (key_path cs l) = fs_lookup fs (key_path cs l)"
      using s(3) key_path_not_dir [of cs l k] unfolding adds_dirs_def by blast
    ultimately show ?thesis using putp by metis
  qed
  have at: "fs_lookup ?fs ?p = Some (FFile t)" by (simp add: putp)
  have dirs: "fs_lookup ?fs q \<noteq> Some (FFile x)" if "good_comp (key_name l)" "prefix q (cs @ key_dir l)" for l q x
  proof -
    have "q \<noteq> ?p" using key_path_not_dir that(2) by blast
    moreover have "fs_lookup fs1 q = fs_lookup fs q \<or> fs_lookup fs1 q = Some FDir"
      using s(3) unfolding adds_dirs_def by metis
    moreover have "fs_lookup fs q \<noteq> Some (FFile x)" using ok that unfolding store_ok_def by blast
    ultimately show ?thesis using putp [of q] by auto
  qed
  have ok': "store_ok cs ?fs"
    unfolding store_ok_def
  proof (intro conjI allI impI)
    fix l assume "good_comp (key_name l)"
    then show "fs_lookup ?fs (key_path cs l) \<noteq> Some FDir"
      using other [of l] at ok by (cases "l = k") (auto simp: store_ok_def)
  qed (use s(2) g(3) dirs in auto)
  have "view (abs_path cs) ?fs l = ((view (abs_path cs) fs)(k \<mapsto> t)) l" for l
  proof (cases "good_comp (key_name l)")
    case True
    then show ?thesis using view_eq [OF ok' True] view_eq [OF ok True] other [of l] at by (cases "l = k") simp_all
  next
    case False
    then show ?thesis using k by (auto simp: view_def)
  qed
  then show ?thesis using s(1) ok' by blast
qed

lemma drop_key:
  assumes ok: "store_ok cs fs" and k: "good_comp (key_name k)"
  shows "\<exists>e fs'. deleteFile (abs_path (key_path cs k)) fs = (e, fs') \<and> store_ok cs fs' \<and>
    (e = None \<longleftrightarrow> view (abs_path cs) fs k \<noteq> None) \<and> view (abs_path cs) fs' = (view (abs_path cs) fs)(k := None)"
proof (cases "fs_lookup fs (key_path cs k)")
  case None
  let ?p = "key_path cs k"
  have g: "list_all good_comp cs" "fs_ok fs" using ok by (simp_all add: store_ok_def)
  have p: "path_of (abs_path ?p) = ?p" using key_path_good [OF g(1) k] by simp
  have "Stat fs ?p = Inr FDir \<or> Stat fs ?p = Inl ENOENT"
  proof -
    have "prefix q ?p \<Longrightarrow> fs_lookup fs q \<noteq> Some (FFile x)" for q x
      using ok k None unfolding store_ok_def key_path_def by (metis option.distinct(1) prefix_snoc)
    then show ?thesis
      using resolve_free [of "[]" ?p fs] g(2) by (simp add: Stat_def fs_ok_def)
  qed
  then have "Stat fs ?p = Inl ENOENT" using None by (auto simp: Stat_Inr)
  then have "deleteFile (abs_path ?p) fs = (Some ''file not exist'', fs)"
    using p by (simp add: deleteFile_def isFileExist_def)
  moreover have "view (abs_path cs) fs k = None" using view_eq [OF ok k] None by simp
  ultimately show ?thesis using ok by auto
next
  case (Some n)
  let ?p = "key_path cs k" and ?fs = "fs_del (key_path cs k) fs"
  have g: "list_all good_comp cs" "fs_ok fs" using ok by (simp_all add: store_ok_def)
  have p: "path_of (abs_path ?p) = ?p" "?p \<noteq> []" using key_path_good [OF g(1) k] by (simp_all add: key_path_def)
  obtain d where n: "n = FFile d" using ok k Some by (cases n) (auto simp: store_ok_def)
  have st: "Stat fs ?p = Inr (FFile d)" "Stat fs (butlast ?p) = Inr FDir"
    using g(2) Some n p(2) fs_ok_Stat_Some by (auto simp: fs_ok_def)
  have r: "deleteFile (abs_path ?p) fs = (None, ?fs)"
    using st p g(2) by (simp add: deleteFile_def isFileExist_def Remove_def go_err_def fs_ok_def)
  have look: "fs_lookup ?fs q = (if q = ?p then None else fs_lookup fs q)" for q using p(2) by simp
  have "fs_ok ?fs"
  proof -
    have "butlast q \<noteq> ?p" if "fs_lookup fs q = Some m" "q \<noteq> []" for q m
      using g(2) that Some n by (auto simp: fs_ok_def)
    then show ?thesis using g(2) unfolding fs_ok_def look by (auto split: if_splits)
  qed
  then have ok': "store_ok cs ?fs" using ok unfolding store_ok_def look by auto
  have "view (abs_path cs) ?fs l = ((view (abs_path cs) fs)(k := None)) l" for l
  proof (cases "good_comp (key_name l)")
    case True
    then show ?thesis
      using view_eq [OF ok' True] view_eq [OF ok True] look key_path_inj [of cs l k] by (cases "l = k") auto
  qed (auto simp: view_def)
  moreover have "view (abs_path cs) fs k = Some d" using view_eq [OF ok k] Some n by simp
  ultimately show ?thesis using r ok' by auto
qed

text \<open>One operation: its error is that of the map, and the file system stands for the new map.\<close>

lemma run_op_refines:
  assumes "store_ok cs fs" and "good_comp (op_name oper)" and "run_op (abs_path cs) oper fs = (e, fs')"
  shows "store_ok cs fs' \<and> spec_op oper (view (abs_path cs) fs) = (e = None, view (abs_path cs) fs')"
proof -
  have cs: "list_all good_comp cs" using assms(1) by (simp add: store_ok_def)
  note put = put_key [OF assms(1)] and drop = drop_key [OF assms(1)]
  note paths = store_paths [OF cs] key_path_def
  show ?thesis
  proof (cases oper)
    case (Put_Job n y)
    then show ?thesis using put [of "Job_File n" y] assms(2,3) by (auto simp: SaveJob_def paths)
  next
    case (Put_Detail n i y)
    then show ?thesis using put [of "Detail_File n i" y] assms(2,3) by (auto simp: SaveStringJobDetail_def paths)
  next
    case (Put_Log n i y)
    then show ?thesis using put [of "Log_File n i" y] assms(2,3) by (auto simp: SaveJobLogString_def paths)
  next
    case (Drop_Job n)
    then show ?thesis using drop [of "Job_File n"] assms(2,3) by (auto simp: DeleteJob_def paths)
  next
    case (Drop_Detail n i)
    have "DeleteJobDetail (abs_path cs) n i fs = (e, fs') \<Longrightarrow>
        \<exists>e'. deleteFile (GetJobDetailFilePath (abs_path cs) n i) fs = (e', fs') \<and> (e' = None \<longleftrightarrow> e = None)"
      by (auto simp: DeleteJobDetail_def deleteFile_def Let_def split: if_splits)
    then show ?thesis using drop [of "Detail_File n i"] assms(2,3) Drop_Detail by (auto simp: paths)
  qed
qed

text \<open>
  C27. The store refines three finite maps: after any sequence of saving and deleting job files, job
  details and logs, what the reading functions return is what the maps hold, the operations that
  failed are those that deleted what the maps did not hold, and the store is again one on which
  the next sequence is exact.
\<close>

theorem store_refines:
  assumes "store_ok cs fs" and "\<forall>oper \<in> set opers. good_comp (op_name oper)"
    and "run_ops (abs_path cs) opers fs = (es, fs')"
  shows "spec_ops opers (view (abs_path cs) fs) = (map (\<lambda>e. e = None) es, view (abs_path cs) fs') \<and> store_ok cs fs'"
  using assms
proof (induction opers arbitrary: fs es)
  case (Cons oper opers)
  obtain e fs1 where 1: "run_op (abs_path cs) oper fs = (e, fs1)" by fastforce
  obtain es1 where 2: "run_ops (abs_path cs) opers fs1 = (es1, fs')" "es = e # es1"
    using Cons.prems(3) 1 by (auto split: prod.splits)
  have r: "store_ok cs fs1" "spec_op oper (view (abs_path cs) fs) = (e = None, view (abs_path cs) fs1)"
    using run_op_refines [OF Cons.prems(1) _ 1] Cons.prems(2) by simp_all
  show ?case using Cons.IH [OF r(1) _ 2(1)] Cons.prems(2) r(2) 2(2) by simp
qed simp

lemma empty_store_ok: "list_all good_comp cs \<Longrightarrow> store_ok cs \<lparr>fs_nodes = [], fs_deny = []\<rparr>"
proof -
  assume cs: "list_all good_comp cs"
  have look: "fs_lookup \<lparr>fs_nodes = [], fs_deny = []\<rparr> q = (if q = [] then Some FDir else None)" for q
    by (simp add: fs_lookup_def m_load_def)
  then show ?thesis using cs by (auto simp: store_ok_def fs_ok_def key_path_def)
qed

theorem store_refines_witness:
  "\<exists>es fs'. run_ops (abs_path [''p'']) [Put_Job ''j'' ''a'', Put_Detail ''j'' 1 ''b'', Drop_Job ''j'', Drop_Job ''j'']
      \<lparr>fs_nodes = [], fs_deny = []\<rparr> = (es, fs') \<and> map (\<lambda>e. e = None) es = [True, True, True, False] \<and>
    view (abs_path [''p'']) fs' (Job_File ''j'') = None \<and> view (abs_path [''p'']) fs' (Detail_File ''j'' 1) = Some ''b''"
proof -
  let ?opers = "[Put_Job ''j'' ''a'', Put_Detail ''j'' 1 ''b'', Drop_Job ''j'', Drop_Job ''j'']"
  obtain es fs' where r: "run_ops (abs_path [''p'']) ?opers \<lparr>fs_nodes = [], fs_deny = []\<rparr> = (es, fs')" by fastforce
  have g: "list_all good_comp [''p'']" "\<forall>oper \<in> set ?opers. good_comp (op_name oper)"
    by (simp_all add: good_comp_def dot_def dotdot_def)
  have "spec_ops ?opers (view (abs_path [''p'']) \<lparr>fs_nodes = [], fs_deny = []\<rparr>) =
      (map (\<lambda>e. e = None) es, view (abs_path [''p'']) fs')"
    using store_refines [OF empty_store_ok [OF g(1)] g(2) r] by blast
  then have "map (\<lambda>e. e = None) es = [True, True, True, False]"
    "view (abs_path [''p'']) fs' (Job_File ''j'') = None" "view (abs_path [''p'']) fs' (Detail_File ''j'' 1) = Some ''b''"
    by (auto simp: fun_eq_iff split: if_splits)
  then show ?thesis using r by (intro exI conjI)
qed

end
