(* ===== verification/RunShape.thy ===== *)
theory RunShape
  imports Executor
begin

text \<open>
  What a run makes of the stages of its job (\<open>executor/executor.go\<close>): the goroutine that refreshes the
  durations of running steps every two seconds, and the form of the job detail at the end of a run.
\<close>

section \<open>The refresh of durations\<close>

definition tick_step :: "nat \<Rightarrow> nat \<Rightarrow> ('h, 'x) run \<Rightarrow> ('h, 'x) run" where
  "tick_step i j r =
     (if step_Status (the_step i j r) = STATUS_RUNNING
      then set_step i j (\<lambda>s. s\<lparr>step_Duration := Milliseconds (w_time (r_w r) - step_StartTime s)\<rparr>) r
      else r)"

text \<open>One round of the goroutine; like the run it works on the job detail itself and saves it.\<close>

definition duration_tick :: "exec_env \<Rightarrow> ('h, 'x) run \<Rightarrow> ('h, 'x) run" where
  "duration_tick E r =
     save_detail E (fold (\<lambda>i r. fold (\<lambda>j r. tick_step i j r) (stage_steps i r) r)
       [0..<length (jd_Stages (r_job r))] r)"

section \<open>Updating one step\<close>

definition upd_step :: "nat \<Rightarrow> nat \<Rightarrow> (Step \<Rightarrow> Step) \<Rightarrow> StageDetail list \<Rightarrow> StageDetail list" where
  "upd_step i j f ss = ss[i := (ss ! i)\<lparr>sd_Stage := map_step j f (sd_Stage (ss ! i))\<rparr>]"

abbreviation stages_of :: "('h, 'x) run \<Rightarrow> StageDetail list" where
  "stages_of r \<equiv> jd_Stages (r_job r)"

lemma stages_set_step [simp]: "stages_of (set_step i j f r) = upd_step i j f (stages_of r)"
  by (simp add: set_step_def upd_step_def Let_def split: option.split)

lemma length_upd_step [simp]: "length (upd_step i j f ss) = length ss"
  by (simp add: upd_step_def)

lemma map_step_comp: "map_step j g (map_step j f st) = map_step j (g \<circ> f) st"
  by (cases "j < length (stage_Steps st)") (simp_all add: map_step_def list_update_beyond)

lemma upd_step_comp [simp]: "upd_step i j g (upd_step i j f ss) = upd_step i j (g \<circ> f) ss"
  by (cases "i < length ss") (simp_all add: upd_step_def map_step_comp list_update_beyond)

lemma stages_executeAction [simp]: "stages_of (executeAction L ah r) = stages_of r"
  by (simp add: executeAction_def set_status_def Let_def split: option.split outcome.split prod.split)

section \<open>Steps, stages and runs that have ended\<close>

definition step_shape :: "Step \<Rightarrow> Step" where
  "step_shape s = s\<lparr>step_Status := STATUS_NOTRUN, step_StartTime := 0, step_Duration := 0\<rparr>"

definition step_ended :: "Step \<Rightarrow> Step \<Rightarrow> bool" where
  "step_ended s s' \<longleftrightarrow> s' = s \<or> step_shape s' = step_shape s \<and> step_Status s' \<in> {STATUS_SUCCESS, STATUS_FAIL}"

definition steps_ended :: "StageDetail \<Rightarrow> StageDetail \<Rightarrow> bool" where
  "steps_ended sd sd' \<longleftrightarrow> sd_Name sd' = sd_Name sd \<and> stage_Needs (sd_Stage sd') = stage_Needs (sd_Stage sd) \<and>
     list_all2 step_ended (stage_Steps (sd_Stage sd)) (stage_Steps (sd_Stage sd'))"

lemma step_ended_refl [simp]: "step_ended s s"
  by (simp add: step_ended_def)

lemma step_ended_trans: "step_ended a b \<Longrightarrow> step_ended b c \<Longrightarrow> step_ended a c"
  by (auto simp: step_ended_def)

lemma steps_ended_refl [simp]: "steps_ended sd sd"
  by (simp add: steps_ended_def list_all2_refl)

lemma steps_ended_trans: "steps_ended a b \<Longrightarrow> steps_ended b c \<Longrightarrow> steps_ended a c"
  unfolding steps_ended_def
  using list_all2_trans [of step_ended step_ended step_ended, OF step_ended_trans] by auto

lemma steps_ended_upd:
  assumes "\<And>s. step_ended s (f s)" and "i < length ss"
  shows "steps_ended (ss ! i) (upd_step i j f ss ! i)"
proof -
  have "step_ended (xs ! k) (xs[j := f (xs ! j)] ! k)" if "k < length xs" for k xs
    using assms(1) that by (cases "k = j") (auto simp: nth_list_update)
  then show ?thesis
    using assms(2) by (simp add: upd_step_def map_step_def steps_ended_def list_all2_conv_all_nth)
qed

text \<open>An action runs for one step: the step has ended, everything else is as before.\<close>

lemma run_action_stages:
  assumes "run_action E L i j step env r = Inr r'"
  shows "\<exists>f. (\<forall>s. step_ended s (f s)) \<and> stages_of r' = upd_step i j f (stages_of r)"
  using assms
proof (rule run_action_cases)
  fix ah r3 w
  let ?r4 = "executeAction L ah (on_out (NewStep (step_Name step)) r3)"
  assume c: "choose_action L step env (start_step E i j r) = Inr (ah, r3)"
    and r': "r' = end_step E i j w (set_step i j (\<lambda>s. s\<lparr>step_Duration := Milliseconds
       (w_time (r_w ?r4) - step_StartTime s)\<rparr>) ?r4)"
  have "stages_of r3 = stages_of (start_step E i j r)" using choose_action_eq [OF c] by auto
  moreover define st where "st = (if r_err ?r4 \<noteq> None then STATUS_FAIL else STATUS_SUCCESS)"
  moreover define d where "d = (\<lambda>t. Milliseconds (w_time (r_w ?r4) - t))"
  ultimately have "stages_of r' = upd_step i j ((\<lambda>s. s\<lparr>step_Status := st\<rparr>) \<circ>
      ((\<lambda>s. s\<lparr>step_Duration := d (step_StartTime s)\<rparr>) \<circ>
       (\<lambda>s. s\<lparr>step_StartTime := w_time (r_w r), step_Status := STATUS_RUNNING\<rparr>))) (stages_of r)"
    unfolding r' by (simp add: end_step_def start_step_def Let_def)
  moreover have "step_ended s (((\<lambda>s. s\<lparr>step_Status := st\<rparr>) \<circ>
      ((\<lambda>s. s\<lparr>step_Duration := d (step_StartTime s)\<rparr>) \<circ>
       (\<lambda>s. s\<lparr>step_StartTime := w_time (r_w r), step_Status := STATUS_RUNNING\<rparr>))) s)" for s
    by (simp add: step_ended_def step_shape_def st_def)
  ultimately show ?thesis by blast
qed

lemma step_loop_stages:
  assumes "step_loop E L i js r = Inr r'" and "i < length (stages_of r)"
  shows "\<exists>sd. stages_of r' = (stages_of r)[i := sd] \<and> steps_ended (stages_of r ! i) sd \<and>
    sd_Status sd = sd_Status (stages_of r ! i)"
  using assms
proof (induction js arbitrary: r)
  case Nil
  then show ?case by (intro exI [of _ "stages_of r ! i"]) simp
next
  case (Cons j js)
  obtain r1 env where r1: "stages_of r1 = stages_of r" and
    cont: "r' = r1 \<or> (\<exists>r2. run_action E L i j (the_step i j r) env r1 = Inr r2 \<and> step_loop E L i js r2 = Inr r')"
  proof (cases "step_RunsOn (the_step i j r) = []")
    case True
    then show ?thesis using Cons.prems(1) that [of r None] by (auto simp: Let_def then_do_Inr_iff)
  next
    case False
    with Cons.prems(1) obtain d r0 where n: "new_action L K_Docker (the_step i j r) r = Inr (d, r0)"
      and rest: "(let r2 = executeAction L (Some d) r0 in if r_err r2 \<noteq> None then Inr r2
          else then_do (run_action E L i j (the_step i j r) (Some d) r2) (step_loop E L i js)) = Inr r'"
      by (auto simp: Let_def then_do_Inr_iff)
    have "stages_of (executeAction L (Some d) r0) = stages_of r" using new_action_eq [OF n] by auto
    then show ?thesis
      using rest that [of "executeAction L (Some d) r0" "Some d"]
      by (auto simp: Let_def then_do_Inr_iff split: if_splits)
  qed
  from cont show ?case
  proof
    assume "r' = r1"
    then show ?thesis using r1 by (intro exI [of _ "stages_of r ! i"]) simp
  next
    assume "\<exists>r2. run_action E L i j (the_step i j r) env r1 = Inr r2 \<and> step_loop E L i js r2 = Inr r'"
    then obtain r2 f where 2: "\<And>s. step_ended s (f s)" "stages_of r2 = upd_step i j f (stages_of r)"
      "step_loop E L i js r2 = Inr r'" using run_action_stages r1 by metis
    from Cons.IH [OF 2(3)] 2(2) Cons.prems(2) obtain sd where
      sd: "stages_of r' = (upd_step i j f (stages_of r))[i := sd]"
      "steps_ended (upd_step i j f (stages_of r) ! i) sd" "sd_Status sd = sd_Status (upd_step i j f (stages_of r) ! i)"
      by auto
    have "steps_ended (stages_of r ! i) sd"
      using steps_ended_trans [OF steps_ended_upd [OF 2(1) Cons.prems(2)] sd(2)] .
    then show ?thesis using sd(1,3) Cons.prems(2) by (intro exI [of _ sd]) (simp add: upd_step_def)
  qed
qed

definition stage_done :: "Status \<Rightarrow> StageDetail \<Rightarrow> StageDetail \<Rightarrow> bool" where
  "stage_done st sd sd' \<longleftrightarrow> steps_ended sd sd' \<and> sd_Status sd' = st"

lemma one_stage:
  assumes "step_loop E L i (stage_steps i r) (start_stage E i r) = Inr r3" and "i < length (stages_of r)"
  shows "\<exists>sd. stages_of (end_stage E i r3) = (stages_of r)[i := sd] \<and>
    stage_done (if r_err r3 = None then STATUS_SUCCESS else STATUS_FAIL) (stages_of r ! i) sd"
proof -
  define r1 where "r1 = start_stage E i r"
  define t where "t = w_time (r_w r)"
  have 1: "stages_of r1 = (stages_of r)[i := (stages_of r ! i)\<lparr>sd_Status := STATUS_RUNNING, sd_StartTime := t\<rparr>]"
    by (simp add: r1_def t_def start_stage_def set_stage_def Let_def)
  from step_loop_stages [of E L i "stage_steps i r" r1 r3] assms 1 obtain sd where
    sd: "stages_of r3 = (stages_of r)[i := sd]" "steps_ended (stages_of r ! i) sd"
    by (auto simp: r1_def steps_ended_def)
  let ?sd = "sd\<lparr>sd_Status := (if r_err r3 \<noteq> None then STATUS_FAIL else STATUS_SUCCESS),
      sd_Duration := Milliseconds (w_time (r_w r3) - sd_StartTime sd)\<rparr>"
  have "stages_of (end_stage E i r3) = (stages_of r)[i := ?sd]"
    using sd(1) assms(2) by (simp add: end_stage_def set_stage_def)
  then show ?thesis using sd(2) by (intro exI [of _ ?sd]) (simp add: stage_done_def steps_ended_def)
qed

section \<open>The end of a run\<close>

text \<open>
  The stages \<open>k\<close> and following, in order: up to stage \<open>m\<close> they are done, the last of them with the error
  of the run, and the others are as they were.
\<close>

definition ran :: "nat \<Rightarrow> nat \<Rightarrow> error option \<Rightarrow> StageDetail list \<Rightarrow> StageDetail list \<Rightarrow> bool" where
  "ran k m err ss ss' \<longleftrightarrow> k < m \<and> m \<le> length ss \<and> length ss' = length ss \<and>
     (\<forall>i < length ss. if k \<le> i \<and> i < m
        then stage_done (if i = m - 1 \<and> err \<noteq> None then STATUS_FAIL else STATUS_SUCCESS) (ss ! i) (ss' ! i)
        else ss' ! i = ss ! i) \<and>
     (err = None \<longrightarrow> m = length ss)"

lemma ranD:
  assumes "ran k m err ss ss'"
  shows "k < m" and "m \<le> length ss" and "length ss' = length ss" and "err = None \<Longrightarrow> m = length ss"
    and "i < length ss \<Longrightarrow> k \<le> i \<Longrightarrow> i < m \<Longrightarrow>
       stage_done (if i = m - 1 \<and> err \<noteq> None then STATUS_FAIL else STATUS_SUCCESS) (ss ! i) (ss' ! i)"
    and "i < length ss \<Longrightarrow> \<not> (k \<le> i \<and> i < m) \<Longrightarrow> ss' ! i = ss ! i"
  using assms unfolding ran_def by presburger+

lemma stage_loop_ran:
  assumes "stage_loop E L ckey [k..<length (stages_of r)] r = Inr r'" and "k < length (stages_of r)"
  shows "\<exists>m. ran k m (r_err r') (stages_of r) (stages_of r')"
  using assms
proof (induction "length (stages_of r) - k" arbitrary: k r)
  case (Suc n)
  let ?l = "length (stages_of r)"
  have upt: "[k..<?l] = k # [Suc k..<?l]" using Suc.prems(2) by (rule upt_conv_Cons)
  obtain r3 where 3: "step_loop E L k (stage_steps k r) (start_stage E k r) = Inr r3"
    and rest: "if r_err r3 \<noteq> None then \<exists>ex. r' = (end_stage E k r3)\<lparr>r_ex := ex\<rparr>
      else stage_loop E L ckey [Suc k..<?l] (end_stage E k r3) = Inr r'"
  proof -
    obtain r3 where "step_loop E L k (stage_steps k r) (start_stage E k r) = Inr r3"
      and "(let r5 = end_stage E k r3 in if r_err r5 \<noteq> None
        then Inr (r5\<lparr>r_ex := (r_ex r5)\<lparr>ex_cancelled := ex_cancelled (r_ex r5) @ [ckey]\<rparr>\<rparr>)
        else stage_loop E L ckey [Suc k..<?l] r5) = Inr r'"
      using Suc.prems(1) unfolding upt stage_loop.simps(2) then_do_Inr_iff by blast
    then show ?thesis by (intro that [of r3]) (auto simp: Let_def split: if_splits)
  qed
  obtain sd where sd: "stages_of (end_stage E k r3) = (stages_of r)[k := sd]"
    "stage_done (if r_err r3 = None then STATUS_SUCCESS else STATUS_FAIL) (stages_of r ! k) sd"
    using one_stage [OF 3 Suc.prems(2)] by blast
  have len: "length (stages_of (end_stage E k r3)) = ?l" using sd(1) by simp
  show ?case
  proof (cases "r_err r3 \<noteq> None")
    case True
    then have "stages_of r' = (stages_of r)[k := sd]" "r_err r' = r_err r3" using rest sd(1) by auto
    then have "ran k (Suc k) (r_err r') (stages_of r) (stages_of r')"
      using sd(2) True Suc.prems(2) by (auto simp: ran_def nth_list_update)
    then show ?thesis ..
  next
    case False
    then have loop: "stage_loop E L ckey [Suc k..<?l] (end_stage E k r3) = Inr r'" using rest by simp
    show ?thesis
    proof (cases "Suc k < ?l")
      case True
      have n: "n = length (stages_of (end_stage E k r3)) - Suc k" using Suc.hyps(2) len by simp
      obtain m where m: "ran (Suc k) m (r_err r') ((stages_of r)[k := sd]) (stages_of r')"
        using Suc.hyps(1) [OF n] loop True sd(1) unfolding len by auto
      let ?st = "\<lambda>i. if i = m - 1 \<and> r_err r' \<noteq> None then STATUS_FAIL else STATUS_SUCCESS"
      note m' = ranD [OF m, unfolded length_list_update]
      have here: "stages_of r' ! k = sd" using m'(6) [of k] Suc.prems(2) by simp
      have done_here: "stage_done STATUS_SUCCESS (stages_of r ! k) sd" using sd(2) \<open>\<not> r_err r3 \<noteq> None\<close> by simp
      have "if k \<le> i \<and> i < m then stage_done (?st i) (stages_of r ! i) (stages_of r' ! i)
          else stages_of r' ! i = stages_of r ! i" if "i < ?l" for i
      proof (cases "i = k")
        case True
        moreover have "k \<noteq> m - 1" using m'(1) by linarith
        ultimately show ?thesis using here done_here m'(1) by simp
      next
        case False
        then have "(stages_of r)[k := sd] ! i = stages_of r ! i" by simp
        then show ?thesis using m'(5,6) [OF that] False by auto
      qed
      then have "ran k m (r_err r') (stages_of r) (stages_of r')"
        using m'(1-4) unfolding ran_def by (intro conjI allI impI) (simp_all only: Suc_lessD)
      then show ?thesis ..
    next
      case False
      then have "r' = end_stage E k r3" "Suc k = ?l" using loop Suc.prems(2) by auto
      then have "ran k (Suc k) (r_err r') (stages_of r) (stages_of r')"
        using sd \<open>\<not> r_err r3 \<noteq> None\<close> Suc.prems(2)
        by (auto simp: ran_def nth_list_update less_Suc_eq_le dest: le_antisym)
      then show ?thesis ..
    qed
  qed
qed simp


text \<open>A refresh that finds no running step changes nothing before it saves.\<close>

definition none_running :: "StageDetail list \<Rightarrow> bool" where
  "none_running ss \<longleftrightarrow> (\<forall>sd \<in> set ss. \<forall>s \<in> set (stage_Steps (sd_Stage sd)). step_Status s \<noteq> STATUS_RUNNING)"

lemma duration_tick_idle:
  assumes "none_running (stages_of r)"
  shows "duration_tick E r = save_detail E r"
proof -
  have step: "tick_step i j r = r" if "i < length (stages_of r)" "j < length (stage_Steps (sd_Stage (stages_of r ! i)))" for i j
    using assms that nth_mem unfolding tick_step_def the_step_def none_running_def by fastforce
  have "fold (\<lambda>j r. tick_step i j r) js r = r"
    if "i < length (stages_of r)" "\<forall>j \<in> set js. j < length (stage_Steps (sd_Stage (stages_of r ! i)))" for i js
    using that by (induction js) (simp_all add: step)
  then have stage: "fold (\<lambda>j r. tick_step i j r) (stage_steps i r) r = r" if "i < length (stages_of r)" for i
    using that by (simp add: stage_steps_def)
  have "fold (\<lambda>i r. fold (\<lambda>j r. tick_step i j r) (stage_steps i r) r) ns r = r"
    if "\<forall>i \<in> set ns. i < length (stages_of r)" for ns
    using that by (induction ns) (simp_all add: stage)
  then show ?thesis by (simp add: duration_tick_def)
qed

text \<open>A refresh at any other time changes nothing but the durations of running steps.\<close>

lemma tick_step_statuses:
  "i < length (stages_of r) \<Longrightarrow> statuses k (tick_step i j r) = statuses k r"
proof (cases "k = i")
  case True
  then show "i < length (stages_of r) \<Longrightarrow> ?thesis"
    using statuses_set_step_keep [of i r "\<lambda>s. s\<lparr>step_Duration := Milliseconds (w_time (r_w r) - step_StartTime s)\<rparr>" j]
    by (simp add: tick_step_def del: stages_set_step)
qed (simp add: tick_step_def upd_step_def)

lemma list_all2_right: "list_all2 P xs ys \<Longrightarrow> y \<in> set ys \<Longrightarrow> \<exists>x \<in> set xs. P x y"
  by (induction rule: list_all2_induct) auto

lemma ran_none_running:
  assumes "ran k m err ss ss'" and "none_running ss"
  shows "none_running ss'"
proof -
  have "step_Status s \<noteq> STATUS_RUNNING" if i: "i < length ss'" and s: "s \<in> set (stage_Steps (sd_Stage (ss' ! i)))" for i s
  proof -
    have len: "i < length ss" using ranD(3) [OF assms(1)] i by simp
    have old: "\<forall>s \<in> set (stage_Steps (sd_Stage (ss ! i))). step_Status s \<noteq> STATUS_RUNNING"
      using assms(2) nth_mem [OF len] unfolding none_running_def by blast
    have "ss' ! i = ss ! i \<or> steps_ended (ss ! i) (ss' ! i)"
      using ranD(5,6) [OF assms(1) len] unfolding stage_done_def by blast
    then have "list_all2 step_ended (stage_Steps (sd_Stage (ss ! i))) (stage_Steps (sd_Stage (ss' ! i)))"
      by (auto simp: steps_ended_def list_all2_refl)
    from list_all2_right [OF this s] obtain s0
      where "s0 \<in> set (stage_Steps (sd_Stage (ss ! i)))" "step_ended s0 s" by blast
    then show ?thesis using old by (auto simp: step_ended_def)
  qed
  then have "\<forall>s \<in> set (stage_Steps (sd_Stage sd)). step_Status s \<noteq> STATUS_RUNNING" if "sd \<in> set ss'" for sd
    using that unfolding in_set_conv_nth [of sd ss'] by blast
  then show ?thesis unfolding none_running_def by blast
qed

text \<open>
  C28. The job detail that a run leaves is well formed: its stages are the sorted stages of the job, in
  order, with their steps; only statuses and times differ.  The stages before some point are done
  with all their steps (those that ran are successful or failed), the later ones are untouched, and
  only the last stage that ran may have failed.  The run is a success exactly when no error is
  returned, and then every stage has run.  A job that had no running step has none at the end, so
  the refresh that is still alive then saves the same detail again.
\<close>

theorem run_well_formed:
  fixes L :: "('h, 'x) action_lib"
  assumes "StageSort (e_stage_order E) job = Inr stages" and "stages \<noteq> []"
    and "Execute E L jid job ex w = Inr (err, jd, ex', w')"
  shows "(\<exists>m. ran 0 m err stages (jd_Stages jd)) \<and> jd_Id jd = jid \<and>
    jd_Status jd = (if err = None then STATUS_SUCCESS else STATUS_FAIL) \<and>
    (none_running stages \<longrightarrow> none_running (jd_Stages jd) \<and>
       (\<forall>r :: ('h, 'x) run. r_job r = jd \<longrightarrow> duration_tick E r = save_detail E r))"
proof -
  let ?r0 = "start_run E jid job stages ex w"
  obtain r where r: "stage_loop E L (cancel_key (job_Name job) jid) [0..<length stages] ?r0 = Inr r"
    and fin: "err = r_err (finish_run E (job_Name job) r)" "jd = r_job (finish_run E (job_Name job) r)"
    using assms(1,3) by (auto simp: Execute_def then_do_Inr_iff Let_def)
  have "stages_of ?r0 = stages" by (simp add: start_run_def new_wrapper_def Let_def split: prod.split)
  then obtain m where m: "ran 0 m (r_err r) stages (stages_of r)"
    using stage_loop_ran [of E L _ 0 ?r0 r] r assms(2) by auto
  have f: "err = r_err r" "jd_Stages jd = stages_of r" "jd_Status jd = (if r_err r = None then STATUS_SUCCESS else STATUS_FAIL)"
    "jd_Id jd = jd_Id (r_job r)"
    unfolding fin by (auto simp: finish_run_def Let_def split: prod.split option.split)
  have "jd_Id (r_job r) = jid"
    using stage_loop_frame [OF r] by (simp add: frame_def)
  moreover have "none_running stages \<Longrightarrow> none_running (jd_Stages jd)"
    using ran_none_running [OF m] f(2) by simp
  moreover have "duration_tick E r = save_detail E r" if "r_job r = jd" "none_running (jd_Stages jd)"
    for r :: "('h, 'x) run"
    using duration_tick_idle [of r E] that by simp
  ultimately show ?thesis using m f by (intro conjI) auto
qed

theorem run_well_formed_witness:
  "\<exists>err jd ex w m. Execute demo_env demo_lib 1 two_steps NewExecutor demo_world = Inr (err, jd, ex, w) \<and>
    jd_Id jd = 1 \<and> none_running (jd_Stages jd) \<and>
    ran 0 m err [NewStageDetail ''s'' \<lparr>stage_Steps = [demo_step ''a'', demo_step ''b''], stage_Needs = []\<rparr>] (jd_Stages jd)"
proof -
  let ?stages = "[NewStageDetail ''s'' \<lparr>stage_Steps = [demo_step ''a'', demo_step ''b''], stage_Needs = []\<rparr>]"
  have "\<exists>jd ex' w'. Execute demo_env demo_lib 1 two_steps NewExecutor demo_world = Inr (None, jd, ex', w') \<and>
      jd_Status jd = STATUS_SUCCESS"
    by (rule masked_run [OF demo_lib_total two_steps_sorted, where e = "''boom''" and k = K_Shell
        and st = "demo_step ''a''" and st' = "demo_step ''b''" and sts = "[]"])
      (simp_all add: demo_step_def action_kind_def demo_lib_def)
  then obtain jd ex w where r: "Execute demo_env demo_lib 1 two_steps NewExecutor demo_world = Inr (None, jd, ex, w)"
    by blast
  have "none_running ?stages" by (simp add: none_running_def NewStageDetail_def demo_step_def)
  then show ?thesis using r run_well_formed [OF two_steps_sorted _ r] by blast
qed

end
