(* ===== verification/Http.thy ===== *)
theory Http
  imports Actions
begin

text \<open>
  HTTP requests (\<open>utils/httputil.go\<close>).  A request is data, with its body as a JSON value or a form; the
  client is the argument \<open>ht_do\<close>: it answers with an error, or with a status and a body.  As
  \<open>SetResult\<close> of the client documents, a body is decoded for the statuses 200 to 299 only, and stays
  zero for the others; a body that cannot be decoded is an error.
\<close>

datatype json =
    JNull
  | JBool bool
  | JInt int
  | JStr string
  | JArr "json list"
  | JObj "(string \<times> json) list"

datatype http_body = No_Body | Json_Body json | Form_Body "(string \<times> string) list"

record http_request =
  hr_method :: string
  hr_url :: string
  hr_query :: "(string, string) gomap"
  hr_path :: "(string, string) gomap"
  hr_headers :: "(string, string) gomap"
  hr_body :: http_body

record 'w http_lib =
  ht_do :: "http_request \<Rightarrow> 'w \<Rightarrow> (error + int \<times> string) \<times> 'w"
  ht_env :: "string \<Rightarrow> string"

definition NewRequest :: "string \<Rightarrow> string \<Rightarrow> http_request" where
  "NewRequest method url =
     \<lparr>hr_method = method, hr_url = url, hr_query = [], hr_path = [],
      hr_headers = [(''Accept'', ''application/json, text/plain, */*''),
        (''Content-Type'', ''application/json;charset=UTF-8'')], hr_body = No_Body\<rparr>"

definition SetHeaders :: "(string \<times> string) list \<Rightarrow> http_request \<Rightarrow> http_request" where
  "SetHeaders hs rq = rq\<lparr>hr_headers := fold (\<lambda>(k, v). m_store k v) hs (hr_headers rq)\<rparr>"

text \<open>A request whose body is decoded into \<open>zero\<close>.\<close>

definition http_call :: "'w http_lib \<Rightarrow> (string \<Rightarrow> 'a res) \<Rightarrow> 'a \<Rightarrow> http_request \<Rightarrow> ('w, int \<times> 'a) act" where
  "http_call H dec zero rq w =
     (case ht_do H rq w of
        (Inl e, w') \<Rightarrow> (Returns (Inl e), w')
      | (Inr (status, body), w') \<Rightarrow>
          (if 200 \<le> status \<and> status \<le> 299
           then (case dec body of
               Inl e \<Rightarrow> (Returns (Inl e), w')
             | Inr x \<Rightarrow> (Returns (Inr (status, x)), w'))
           else (Returns (Inr (status, zero)), w')))"

end
