(* ===== verification/MetaScan.thy ===== *)
theory MetaScan
  imports Http
begin

text \<open>
  The action \<open>metascan_action\<close> (\<open>action_metascan_check.go\<close>): it finds or creates a project at a scan
  service, starts a scan, polls its state, fetches the result and regroups it by file.

  Every request is made with the access token of the step; a service that answers 401 gets one more
  request with a fresh token.  The fields of the action are a record that the calls pass on.  The
  service is the HTTP client of theory \<open>Http\<close>; decoding and encoding JSON is the record \<open>scan_json\<close>, and
  \<open>gjson\<close> is what it finds in a text (\<open>CQView\<close>).
\<close>

section \<open>Data\<close>

record MetaScanCheckAction =
  ms_engineType :: string
  ms_scanToken :: string
  ms_projectName :: string
  ms_projectUrl :: string
  ms_organizationId :: string
  ms_tool :: string
  ms_userId :: string

record MetaScanProject =
  mp_Id :: string
  mp_Title :: string

record MetaProjectRes =
  pr_Total :: int
  pr_TotalPages :: int
  pr_Items :: "MetaScanProject list"
  pr_Message :: string

record CreateProjectRes =
  cp_Message :: string
  cp_Data :: MetaScanProject
  cp_Code :: int

record StartTaskRes =
  st_Id :: string
  st_TaskState :: string
  st_EngineTasks :: "string list"
  st_Message :: string

record TaskStatusRes =
  ts_State :: string
  ts_Message :: string

record Impact =
  im_Critical :: int
  im_Low :: int
  im_High :: int
  im_Medium :: int
  im_Informational :: int

record SummaryDataRes =
  su_Success :: bool
  su_Error :: string
  su_Impact :: Impact
  su_Message :: string

record TaskResultRes =
  tr_Title :: string
  tr_Result :: string
  tr_Message :: string

definition zero_Impact :: Impact where
  "zero_Impact = \<lparr>im_Critical = 0, im_Low = 0, im_High = 0, im_Medium = 0, im_Informational = 0\<rparr>"

subsection \<open>Security analyzer\<close>

record MalwareWorkflowEngine =
  mw_Id :: string
  mw_Code :: string
  mw_Severity :: string
  mw_Title :: string
  mw_Confidence :: string
  mw_Description :: string
  mw_Recommendation :: string

record FormatMalwareWorkflowEngine = MalwareWorkflowEngine +
  fm_ShowTitle :: string
  fm_Hightlights :: "int list"
  fm_LineStart :: int
  fm_LineEnd :: int

record AffectedFile =
  fa_Filepath :: string
  fa_FilepathRelative :: string
  fa_Hightlights :: "int list"
  fa_LineStart :: int
  fa_LineEnd :: int

record SecurityAnalyzerResult =
  sr_Mwe :: MalwareWorkflowEngine
  sr_ShowTitle :: string
  sr_AffectedFiles :: "AffectedFile list"

record SecurityAnalyzerResponse =
  sa_Success :: bool
  sa_Error :: string
  sa_Results :: "SecurityAnalyzerResult list"
  sa_FileMapping :: "(string, string) gomap"

record FormatSecurityAnalyzerResult =
  fs_Filepath :: string
  fs_Mwe :: "FormatMalwareWorkflowEngine list"
  fs_FileKey :: string

subsection \<open>Code quality\<close>

record CQAffectedFile =
  ca_Line :: int
  ca_Column :: int
  ca_Highlights :: "int list"

record Detail =
  dt_Code :: string
  dt_Category :: string
  dt_Severity :: string
  dt_Title :: string
  dt_Description :: string
  dt_AffectedFiles :: CQAffectedFile

record 'd Issue =
  is_FilePath :: string
  is_FileAddress :: string
  is_Details :: "'d list"

record CQResult =
  cv_code :: string
  cv_category :: string
  cv_severity :: string
  cv_title :: string
  cv_description :: string
  cv_affectedFiles :: "(string \<times> CQAffectedFile) list"

record CQView =
  cq_version :: string
  cq_success :: bool
  cq_file_mapping :: "(string, string) gomap"
  cq_message :: string
  cq_results :: "CQResult list"

record 'd IssueJson =
  ij_Version :: string
  ij_Success :: bool
  ij_Message :: string
  ij_Issues :: "(string, 'd Issue) gomap"

subsection \<open>Prover\<close>

type_synonym position = "int \<times> int"

record SPAffectedFiles =
  pa_Text :: string
  pa_Range :: "position \<times> position"
  pa_Highlights :: "(position \<times> position) list"

record Poc =
  po_FunctionName :: string
  po_Parameters :: "json list"
  po_Location :: string
  po_CallDepth :: int

record SecurityProverResults =
  pv_ID :: string
  pv_Code :: string
  pv_Severity :: string
  pv_Title :: string
  pv_Description :: string
  pv_Function :: string
  pv_AffectedFiles :: "(string \<times> SPAffectedFiles) list"
  pv_Poc :: "Poc list"

record SecurityProverResponse =
  sp_Results :: "SecurityProverResults list"
  sp_FileMapping :: "(string, string) gomap"
  sp_Success :: bool
  sp_Error :: string
  sp_Message :: string
  sp_Version :: string

record SPDetail =
  sd2_ID :: string
  sd2_Code :: string
  sd2_Severity :: string
  sd2_Title :: string
  sd2_Description :: string
  sd2_Function :: string
  sd2_AffectedFiles :: SPAffectedFiles
  sd2_Poc :: "Poc list"

record scan_json =
  sj_token :: "string \<Rightarrow> (string \<times> string) res"
  sj_projects :: "string \<Rightarrow> MetaProjectRes res"
  sj_created :: "string \<Rightarrow> CreateProjectRes res"
  sj_started :: "string \<Rightarrow> StartTaskRes res"
  sj_state :: "string \<Rightarrow> TaskStatusRes res"
  sj_summary :: "string \<Rightarrow> SummaryDataRes res"
  sj_result :: "string \<Rightarrow> TaskResultRes res"
  sj_analyzer :: "string \<Rightarrow> SecurityAnalyzerResponse res"
  sj_quality :: "string \<Rightarrow> CQView"
  sj_prover :: "string \<Rightarrow> SecurityProverResponse res"
  sj_analyzer_out :: "(string, FormatSecurityAnalyzerResult) gomap \<Rightarrow> string"
  sj_quality_out :: "Detail IssueJson \<Rightarrow> string"
  sj_prover_out :: "SPDetail IssueJson \<Rightarrow> string"
  sj_impact_out :: "Impact \<Rightarrow> string"

section \<open>Regrouping by file\<close>

text \<open>Go's \<open>m[p]\<close> with a fresh element when there is none, changed and stored back.\<close>

definition add_at :: "(string \<Rightarrow> 'i) \<Rightarrow> (string \<Rightarrow> 'd \<Rightarrow> 'i \<Rightarrow> 'i) \<Rightarrow> string \<times> 'd \<Rightarrow> (string, 'i) gomap \<Rightarrow> (string, 'i) gomap" where
  "add_at fresh app x m =
     (case x of (p, d) \<Rightarrow> m_store p (app p d (case m_load m p of None \<Rightarrow> fresh p | Some i \<Rightarrow> i)) m)"

definition format_engine :: "SecurityAnalyzerResult \<Rightarrow> AffectedFile \<Rightarrow> FormatMalwareWorkflowEngine" where
  "format_engine r f =
     (let m = sr_Mwe r in
      \<lparr>mw_Id = mw_Id m, mw_Code = mw_Code m, mw_Severity = mw_Severity m, mw_Title = mw_Title m,
       mw_Confidence = mw_Confidence m, mw_Description = mw_Description m, mw_Recommendation = mw_Recommendation m,
       fm_ShowTitle = sr_ShowTitle r, fm_Hightlights = fa_Hightlights f, fm_LineStart = fa_LineStart f,
       fm_LineEnd = fa_LineEnd f\<rparr>)"

definition count_severity :: "string \<Rightarrow> Impact \<Rightarrow> Impact" where
  "count_severity s im =
     (if s = ''Critical'' then im\<lparr>im_Critical := im_Critical im + 1\<rparr>
      else if s = ''High'' then im\<lparr>im_High := im_High im + 1\<rparr>
      else if s = ''Medium'' then im\<lparr>im_Medium := im_Medium im + 1\<rparr>
      else if s = ''LOW'' then im\<lparr>im_Low := im_Low im + 1\<rparr>
      else im\<lparr>im_Informational := im_Informational im + 1\<rparr>)"

definition sa_fresh :: "(string, string) gomap \<Rightarrow> string \<Rightarrow> FormatSecurityAnalyzerResult" where
  "sa_fresh mapping p =
     \<lparr>fs_Filepath = p, fs_Mwe = [], fs_FileKey = (case m_load mapping p of None \<Rightarrow> [] | Some k \<Rightarrow> k)\<rparr>"

definition sa_app :: "string \<Rightarrow> FormatMalwareWorkflowEngine \<Rightarrow> FormatSecurityAnalyzerResult \<Rightarrow> FormatSecurityAnalyzerResult" where
  "sa_app p e x = x\<lparr>fs_Mwe := fs_Mwe x @ [e]\<rparr>"

text \<open>The groups only serve to ask whether a path has one; every path has.\<close>

definition sa_groups :: "SecurityAnalyzerResult list \<Rightarrow> (string, AffectedFile list) gomap" where
  "sa_groups rs =
     fold (\<lambda>f m. m_store (fa_Filepath f) ((case m_load m (fa_Filepath f) of None \<Rightarrow> [] | Some l \<Rightarrow> l) @ [f]) m)
       (concat (map sr_AffectedFiles rs)) []"

definition sa_file :: "SecurityAnalyzerResponse \<Rightarrow> SecurityAnalyzerResult \<Rightarrow> AffectedFile \<Rightarrow>
    (string, FormatSecurityAnalyzerResult) gomap \<times> Impact \<Rightarrow> (string, FormatSecurityAnalyzerResult) gomap \<times> Impact" where
  "sa_file resp r f st =
     (if m_load (sa_groups (sa_Results resp)) (fa_Filepath f) = None then st
      else (case st of (resultMap, im) \<Rightarrow>
        (let engine = format_engine r f in
         (add_at (sa_fresh (sa_FileMapping resp)) sa_app (fa_Filepath f, engine) resultMap,
          count_severity (mw_Severity engine) im))))"

definition sa_regroup :: "SecurityAnalyzerResponse \<Rightarrow> (string, FormatSecurityAnalyzerResult) gomap \<times> Impact" where
  "sa_regroup resp =
     fold (\<lambda>r st. fold (sa_file resp r) (sr_AffectedFiles r) st) (sa_Results resp) ([], zero_Impact)"

definition formatSAData :: "scan_json \<Rightarrow> TaskResultRes \<Rightarrow> (string \<times> Impact) res" where
  "formatSAData J result =
     then_do (sj_analyzer J (tr_Result result)) (\<lambda>resultData.
       case sa_regroup resultData of (resultMap, im) \<Rightarrow> Inr (sj_analyzer_out J resultMap, im))"

definition issue_fresh :: "string \<Rightarrow> 'd Issue" where
  "issue_fresh p = \<lparr>is_FilePath = [], is_FileAddress = [], is_Details = []\<rparr>"

definition issue_app :: "(string, string) gomap \<Rightarrow> string \<Rightarrow> 'd \<Rightarrow> 'd Issue \<Rightarrow> 'd Issue" where
  "issue_app mapping p d i =
     i\<lparr>is_FilePath := p, is_FileAddress := (case m_load mapping p of None \<Rightarrow> [] | Some a \<Rightarrow> a),
       is_Details := is_Details i @ [d]\<rparr>"

definition cq_details :: "CQResult \<Rightarrow> (string \<times> Detail) list" where
  "cq_details v =
     map (\<lambda>(p, af). (p, \<lparr>dt_Code = cv_code v, dt_Category = cv_category v, dt_Severity = cv_severity v,
       dt_Title = cv_title v, dt_Description = cv_description v, dt_AffectedFiles = af\<rparr>)) (cv_affectedFiles v)"

definition cq_regroup :: "CQView \<Rightarrow> Detail IssueJson" where
  "cq_regroup v =
     \<lparr>ij_Version = cq_version v, ij_Success = cq_success v, ij_Message = cq_message v,
      ij_Issues = fold (\<lambda>r. fold (add_at issue_fresh (issue_app (cq_file_mapping v))) (cq_details r)) (cq_results v) []\<rparr>"

definition formatCQData :: "scan_json \<Rightarrow> TaskResultRes \<Rightarrow> string res" where
  "formatCQData J results = Inr (sj_quality_out J (cq_regroup (sj_quality J (tr_Result results))))"

definition sp_details :: "SecurityProverResults \<Rightarrow> (string \<times> SPDetail) list" where
  "sp_details r =
     map (\<lambda>(p, af). (p, \<lparr>sd2_ID = pv_ID r, sd2_Code = pv_Code r, sd2_Severity = pv_Severity r, sd2_Title = pv_Title r,
       sd2_Description = pv_Description r, sd2_Function = pv_Function r, sd2_AffectedFiles = af, sd2_Poc = pv_Poc r\<rparr>))
       (pv_AffectedFiles r)"

definition sp_regroup :: "SecurityProverResponse \<Rightarrow> SPDetail IssueJson" where
  "sp_regroup v =
     \<lparr>ij_Version = sp_Version v, ij_Success = sp_Success v, ij_Message = sp_Message v,
      ij_Issues = fold (\<lambda>r. fold (add_at issue_fresh (issue_app (sp_FileMapping v))) (sp_details r)) (sp_Results v) []\<rparr>"

definition formatSPData :: "scan_json \<Rightarrow> TaskResultRes \<Rightarrow> string res" where
  "formatSPData J results =
     then_do (sj_prover J (tr_Result results)) (\<lambda>resultData. Inr (sj_prover_out J (sp_regroup resultData)))"

definition handleRepoUrl :: "string \<Rightarrow> string" where
  "handleRepoUrl repoUrl = TrimSuffix (TrimPrefix repoUrl ''https://github.com/'') ''.git''"

section \<open>Requests\<close>

definition scan_headers :: "MetaScanCheckAction \<Rightarrow> (string \<times> string) list" where
  "scan_headers a =
     [(''Authorization'', ms_scanToken a), (''X-MetaScan-Org'', ms_organizationId a),
      (''X-MetaScan-Reference'', ms_userId a)]"

definition json_header :: "string \<times> string" where
  "json_header = (''Content-Type'', ''application/json'')"

definition api :: "string \<Rightarrow> string" where
  "api p = ''https://app.metatrust.io/api/'' @ p"

definition getProjectList :: "MetaScanCheckAction \<Rightarrow> http_request" where
  "getProjectList a = SetHeaders (scan_headers a)
     ((NewRequest ''GET'' (api ''project''))\<lparr>hr_query := [(''title'', ms_projectName a)]\<rparr>)"

definition createMetaScanProject :: "MetaScanCheckAction \<Rightarrow> http_request" where
  "createMetaScanProject a = SetHeaders (scan_headers a @ [json_header])
     ((NewRequest ''POST'' (api ''project''))\<lparr>hr_body := Json_Body (JObj
       [(''title'', JStr (ms_projectName a)), (''repoUrl'', JStr (handleRepoUrl (ms_projectUrl a))),
        (''integrationType'', JStr ''github'')])\<rparr>)"

definition scan_body :: "string \<Rightarrow> json" where
  "scan_body engineType = JObj
     [(''engine_types'', JArr [JStr engineType]),
      (''repo'', JObj [(''branch'', JStr []), (''commit_hash'', JStr [])]),
      (''scan'', JObj [(''sub_path'', JStr []), (''mode'', JStr []),
         (''ignored_paths'', JStr ''node_modules,test,tests,mock''), (''experimental_ai_scan'', JStr ''QUICK'')]),
      (''env'', JObj [(''node'', JStr []), (''solc'', JStr []), (''package_manage'', JStr []),
         (''compile_command'', JStr []), (''variables'', JStr [])])]"

definition startScanTask :: "string \<Rightarrow> MetaScanCheckAction \<Rightarrow> http_request" where
  "startScanTask projectId a = SetHeaders (scan_headers a @ [json_header])
     ((NewRequest ''POST'' (api ''scan/task''))\<lparr>hr_query := [(''action'', ''start-scan''), (''projectId'', projectId)],
       hr_body := Json_Body (scan_body (ms_engineType a))\<rparr>)"

definition queryTaskStatus :: "string \<Rightarrow> MetaScanCheckAction \<Rightarrow> http_request" where
  "queryTaskStatus taskId a = SetHeaders (scan_headers a)
     ((NewRequest ''GET'' (api ''scan/state''))\<lparr>hr_query := [(''taskId'', taskId)]\<rparr>)"

definition getEngineTaskSummary :: "string \<Rightarrow> MetaScanCheckAction \<Rightarrow> http_request" where
  "getEngineTaskSummary engineTaskId a = SetHeaders (scan_headers a)
     ((NewRequest ''GET'' (api ''scan/engineTask/{engineTaskId}''))\<lparr>hr_path := [(''engineTaskId'', engineTaskId)]\<rparr>)"

definition getTaskResult :: "string \<Rightarrow> MetaScanCheckAction \<Rightarrow> http_request" where
  "getTaskResult engineTaskId a = SetHeaders (scan_headers a)
     ((NewRequest ''GET'' (api ''scan/history/engine/{engineTaskId}/result''))
       \<lparr>hr_path := [(''engineTaskId'', engineTaskId)]\<rparr>)"

text \<open>A new access token; empty when the request failed.\<close>

definition metaScanHttpRequestToken :: "'y aworld http_lib \<Rightarrow> scan_json \<Rightarrow> ('y aworld, string) act" where
  "metaScanHttpRequestToken H J =
     seq (attempt (http_call H (sj_token J) ([], []) (SetHeaders [(''Content-Type'', ''application/x-www-form-urlencoded'')]
       ((NewRequest ''POST'' ''https://account.metatrust.io/realms/mt/protocol/openid-connect/token'')
        \<lparr>hr_body := Form_Body [(''grant_type'', ''password''), (''username'', ht_env H ''METASCAN_USERNAME''),
          (''password'', ht_env H ''METASCAN_PASSWORD''), (''client_id'', ''webapp'')]\<rparr>)))) (\<lambda>r.
     ret (case r of
         Inl e \<Rightarrow> []
       | Inr (status, (tokenType, accessToken)) \<Rightarrow>
           if status \<noteq> 200 then [] else tokenType @ '' '' @ accessToken))"

text \<open>\<open>params["scanToken"] = token\<close> in the parameters of the job.\<close>

definition set_param :: "string \<Rightarrow> string \<Rightarrow> ('y aworld, unit) act" where
  "set_param k v w =
     (case m_load (w_ctx w) ''parameter'' of
        Some (CMap (Some m)) \<Rightarrow> ctx_set ''parameter'' (CMap (Some (m_store k v m))) w
      | Some (CMap None) \<Rightarrow> crash ''assignment to entry in nil map'' w
      | _ \<Rightarrow> crash ''interface conversion'' w)"

definition checked_answer :: "('a \<Rightarrow> string) \<Rightarrow> string \<Rightarrow> string \<Rightarrow> MetaScanCheckAction \<Rightarrow> int \<times> 'a \<Rightarrow>
    ('y aworld, MetaScanCheckAction \<times> 'a) act" where
  "checked_answer msg failed code a sx =
     (case sx of (status, x) \<Rightarrow>
        if status \<noteq> 200 then fail (failed @ msg x @ code @ Itoa status) else ret (a, x))"

text \<open>
  The body that the six calls share: a request, on 401 a new token and the request again; \<open>again\<close> is the
  error of a second 401.
\<close>

definition authorized :: "'y aworld http_lib \<Rightarrow> scan_json \<Rightarrow> (string \<Rightarrow> 'a res) \<Rightarrow> 'a \<Rightarrow> ('a \<Rightarrow> string) \<Rightarrow>
    string \<Rightarrow> string \<Rightarrow> string \<Rightarrow> (MetaScanCheckAction \<Rightarrow> http_request) \<Rightarrow> MetaScanCheckAction \<Rightarrow>
    ('y aworld, MetaScanCheckAction \<times> 'a) act" where
  "authorized H J dec zero msg again failed code rq a =
     seq (http_call H dec zero (rq a)) (\<lambda>(status, x).
     if status = 401 then
       seq (metaScanHttpRequestToken H J) (\<lambda>token.
       if token = [] then fail ''Failed to retrieve token again''
       else
         (let a1 = a\<lparr>ms_scanToken := token\<rparr> in
          seq (set_param ''scanToken'' token) (\<lambda>u.
          seq (http_call H dec zero (rq a1)) (\<lambda>(status1, x1).
          if status1 = 401 then fail again else checked_answer msg failed code a1 (status1, x1)))))
     else checked_answer msg failed code a (status, x))"

definition metaScanGetProjects :: "'y aworld http_lib \<Rightarrow> scan_json \<Rightarrow> MetaScanCheckAction \<Rightarrow>
    ('y aworld, MetaScanCheckAction \<times> MetaProjectRes) act" where
  "metaScanGetProjects H J =
     authorized H J (sj_projects J) \<lparr>pr_Total = 0, pr_TotalPages = 0, pr_Items = [], pr_Message = []\<rparr> pr_Message
       ''No permission to obtain meta scan projects'' ''get project list failed:'' '',error code is '' getProjectList"

definition metaScanCreateProject :: "'y aworld http_lib \<Rightarrow> scan_json \<Rightarrow> MetaScanCheckAction \<Rightarrow>
    ('y aworld, MetaScanCheckAction \<times> CreateProjectRes) act" where
  "metaScanCreateProject H J =
     authorized H J (sj_created J) \<lparr>cp_Message = [], cp_Data = \<lparr>mp_Id = [], mp_Title = []\<rparr>, cp_Code = 0\<rparr> cp_Message
       ''Again no permission to create meta scan project'' ''create project failed:'' '',error code is ''
       createMetaScanProject"

definition metaScanStartScanTask :: "'y aworld http_lib \<Rightarrow> scan_json \<Rightarrow> string \<Rightarrow> MetaScanCheckAction \<Rightarrow>
    ('y aworld, MetaScanCheckAction \<times> StartTaskRes) act" where
  "metaScanStartScanTask H J projectId =
     authorized H J (sj_started J) \<lparr>st_Id = [], st_TaskState = [], st_EngineTasks = [], st_Message = []\<rparr> st_Message
       ''Again no permission to start scan'' ''start scan task failed:'' '',error code is '' (startScanTask projectId)"

definition metaScanQueryTaskStatus :: "'y aworld http_lib \<Rightarrow> scan_json \<Rightarrow> string \<Rightarrow> MetaScanCheckAction \<Rightarrow>
    ('y aworld, MetaScanCheckAction \<times> TaskStatusRes) act" where
  "metaScanQueryTaskStatus H J taskId =
     authorized H J (sj_state J) \<lparr>ts_State = [], ts_Message = []\<rparr> ts_Message
       ''Again no permission to query task status'' ''query task status failed:'' '', error code is '' (queryTaskStatus taskId)"

definition metaScanGetEngineTaskSummary :: "'y aworld http_lib \<Rightarrow> scan_json \<Rightarrow> string \<Rightarrow> MetaScanCheckAction \<Rightarrow>
    ('y aworld, MetaScanCheckAction \<times> SummaryDataRes) act" where
  "metaScanGetEngineTaskSummary H J engineTaskId =
     authorized H J (sj_summary J) \<lparr>su_Success = False, su_Error = [], su_Impact = zero_Impact, su_Message = []\<rparr> su_Message
       ''Again no permission to query engine task summary'' ''query engine task summary failed:'' '',error code is ''
       (getEngineTaskSummary engineTaskId)"

definition format_result :: "scan_json \<Rightarrow> string \<Rightarrow> TaskResultRes \<Rightarrow> (string \<times> Impact) res" where
  "format_result J engineType r =
     (if engineType = ''STATIC'' then formatSAData J r
      else if engineType = ''PROVER'' then map_sum id (\<lambda>s. (s, zero_Impact)) (formatSPData J r)
      else if engineType = ''SCA'' then Inr (tr_Result r, zero_Impact)
      else if engineType = ''LINT'' then map_sum id (\<lambda>s. (s, zero_Impact)) (formatCQData J r)
      else Inr (tr_Result r, zero_Impact))"

definition fetch_result :: "'y aworld http_lib \<Rightarrow> scan_json \<Rightarrow> string \<Rightarrow> MetaScanCheckAction \<Rightarrow>
    ('y aworld, MetaScanCheckAction \<times> TaskResultRes) act" where
  "fetch_result H J engineTaskId =
     authorized H J (sj_result J) \<lparr>tr_Title = [], tr_Result = [], tr_Message = []\<rparr> tr_Message
       ''Again no permission to query engine task result'' ''query engine task result failed:'' '',error code is ''
       (getTaskResult engineTaskId)"

definition metaScanGetTaskResult :: "'y aworld http_lib \<Rightarrow> scan_json \<Rightarrow> string \<Rightarrow> MetaScanCheckAction \<Rightarrow>
    ('y aworld, MetaScanCheckAction \<times> string \<times> Impact) act" where
  "metaScanGetTaskResult H J engineTaskId a =
     seq (fetch_result H J engineTaskId a) (\<lambda>(a1, r).
     case format_result J (ms_engineType a1) r of Inl e \<Rightarrow> fail e | Inr x \<Rightarrow> ret (a1, x))"

section \<open>The action\<close>

definition NewMetaScanCheckAction :: "Step \<Rightarrow> MetaScanCheckAction" where
  "NewMetaScanCheckAction step =
     \<lparr>ms_engineType = step_with step ''engine_type'', ms_scanToken = step_with step ''scan_token'',
      ms_projectName = step_with step ''project_name'', ms_projectUrl = step_with step ''project_url'',
      ms_organizationId = step_with step ''organization_id'', ms_tool = step_with step ''tool'',
      ms_userId = step_with step ''user_id''\<rparr>"

definition MetaScan_Pre :: "MetaScanCheckAction \<Rightarrow> ('y aworld, MetaScanCheckAction) act" where
  "MetaScan_Pre a =
     seq (ctx_map ''parameter'') (\<lambda>params.
     seq (checked (ReplaceWithParam (ms_scanToken a) params)) (\<lambda>token.
     seq (checked (ReplaceWithParam (ms_projectName a) params)) (\<lambda>name.
     seq (checked (ReplaceWithParam (ms_projectUrl a) params)) (\<lambda>url.
     seq (checked (ReplaceWithParam (ms_userId a) params)) (\<lambda>user.
     ret (a\<lparr>ms_scanToken := token, ms_projectName := name, ms_projectUrl := url, ms_userId := user\<rparr>))))))"

definition ended_states :: "string list" where
  "ended_states = [''SUCCESS'', ''FAILURE'', ''SYS_ABORT'', ''ABORT'']"

text \<open>The loop over the state of the task has no bound and no pause: \<open>None\<close> when it does not end.\<close>

partial_function (option) poll_state :: "'y aworld http_lib \<Rightarrow> scan_json \<Rightarrow> string \<Rightarrow> MetaScanCheckAction \<Rightarrow>
    'y aworld \<Rightarrow> (MetaScanCheckAction res outcome \<times> 'y aworld) option" where
  "poll_state H J taskId a w =
     (case metaScanQueryTaskStatus H J taskId a w of
        (Returns (Inr (a1, r)), w1) \<Rightarrow>
          if ts_State r \<in> set ended_states then Some (Returns (Inr a1), w1) else poll_state H J taskId a1 w1
      | (Returns (Inl e), w1) \<Rightarrow> Some (Returns (Inl e), w1)
      | (RuntimePanic m, w1) \<Rightarrow> Some (RuntimePanic m, w1)
      | (OtherPanic, w1) \<Rightarrow> Some (OtherPanic, w1))"

text \<open>An error goes to the log of the run on its way out.\<close>

definition logged :: "'y os_lib \<Rightarrow> ('y aworld, 'a) act \<Rightarrow> ('y aworld, 'a) act" where
  "logged OS m = seq (attempt m) (\<lambda>r. case r of
     Inl e \<Rightarrow> seq (out_line OS (''[ERROR]: '' @ e)) (\<lambda>u. fail e) | Inr x \<Rightarrow> ret x)"

definition find_project :: "'y os_lib \<Rightarrow> 'y aworld http_lib \<Rightarrow> scan_json \<Rightarrow> MetaScanCheckAction \<Rightarrow>
    ('y aworld, MetaScanCheckAction \<times> string) act" where
  "find_project OS H J a =
     seq (logged OS (metaScanGetProjects H J a)) (\<lambda>(a1, d).
     case pr_Items d of
       p # ps \<Rightarrow> ret (a1, mp_Id p)
     | [] \<Rightarrow> seq (logged OS (metaScanCreateProject H J a1)) (\<lambda>(a2, c). ret (a2, mp_Id (cp_Data c))))"

definition impact_total :: "Impact \<Rightarrow> int" where
  "impact_total im = im_High im + im_Low im + im_Medium im + im_Informational im + im_Critical im"

definition scan_report :: "'y os_lib \<Rightarrow> 'y aworld http_lib \<Rightarrow> scan_json \<Rightarrow> StartTaskRes \<Rightarrow> MetaScanCheckAction \<Rightarrow>
    ('y aworld, ActionResult option) act" where
  "scan_report OS H J started a =
     (case st_EngineTasks started of
        [] \<Rightarrow> seq (out_line OS (''[ERROR]: '' @ ''start engine task list is empty'')) (\<lambda>u.
              fail ''start engine task list is empty'')
      | task # tasks \<Rightarrow>
          seq (logged OS (metaScanGetTaskResult H J task a)) (\<lambda>(a1, checkResult, im).
          seq (if ms_engineType a1 \<noteq> ''STATIC''
               then seq (attempt (metaScanGetEngineTaskSummary H J task a1)) (\<lambda>r. case r of
                   Inl e \<Rightarrow>
                     seq (out_line OS (''[ERROR]: '' @ ''query task summary failed,save task summary failed'')) (\<lambda>u.
                     seq (out_line OS (''[ERROR]: '' @ e)) (\<lambda>u. fail e))
                 | Inr (a2, su) \<Rightarrow> ret (su_Impact su))
               else ret im) (\<lambda>overview.
          ret (Some (empty_ActionResult\<lparr>ar_MetaScanData :=
            [\<lparr>msr_Total = impact_total overview, msr_CheckResult = checkResult,
              msr_ResultOverview = sj_impact_out J overview, msr_Tool = ms_tool a1\<rparr>]\<rparr>)))))"

text \<open>Continuing a method whose loop may not end.\<close>

definition go_on :: "('w, 'a) act \<Rightarrow> ('a \<Rightarrow> 'w \<Rightarrow> ('b res outcome \<times> 'w) option) \<Rightarrow> 'w \<Rightarrow> ('b res outcome \<times> 'w) option" where
  "go_on m k w =
     (case m w of
        (Returns (Inr x), w1) \<Rightarrow> k x w1
      | (Returns (Inl e), w1) \<Rightarrow> Some (Returns (Inl e), w1)
      | (RuntimePanic s, w1) \<Rightarrow> Some (RuntimePanic s, w1)
      | (OtherPanic, w1) \<Rightarrow> Some (OtherPanic, w1))"

definition MetaScan_Hook :: "'y os_lib \<Rightarrow> 'y aworld http_lib \<Rightarrow> scan_json \<Rightarrow> MetaScanCheckAction \<Rightarrow>
    'y aworld \<Rightarrow> (ActionResult option res outcome \<times> 'y aworld) option" where
  "MetaScan_Hook OS H J a =
     go_on (seq (find_project OS H J a) (\<lambda>(a1, projectId).
            logged OS (metaScanStartScanTask H J projectId a1)))
       (\<lambda>(a2, started) w2.
        case poll_state H J (st_Id started) a2 w2 of
          None \<Rightarrow> None
        | Some r \<Rightarrow> Some (seq (logged OS (\<lambda>w. r)) (scan_report OS H J started) (snd r)))"

section \<open>Regrouping keeps every finding\<close>

text \<open>Elements that collect details in the order they come.\<close>

locale collector =
  fixes fresh :: "string \<Rightarrow> 'i" and app :: "string \<Rightarrow> 'd \<Rightarrow> 'i \<Rightarrow> 'i" and details :: "'i \<Rightarrow> 'd list"
  assumes details_fresh: "details (fresh p) = []"
    and details_app: "details (app p d i) = details i @ [d]"
begin

lemma collected:
  "(case m_load (fold (add_at fresh app) xs m) p of None \<Rightarrow> [] | Some i \<Rightarrow> details i) =
     (case m_load m p of None \<Rightarrow> [] | Some i \<Rightarrow> details i) @ map snd (filter (\<lambda>x. fst x = p) xs)"
proof (induction xs arbitrary: m)
  case (Cons x xs)
  then show ?case by (cases x) (auto simp: add_at_def details_fresh details_app split: option.split)
qed simp

lemma collected_keys:
  "m_load (fold (add_at fresh app) xs m) p = None \<longleftrightarrow> m_load m p = None \<and> p \<notin> fst ` set xs"
  by (induction xs arbitrary: m) (auto simp: add_at_def split: prod.splits)

text \<open>A property of the elements that the first detail establishes and every other one keeps.\<close>

lemma collected_all:
  assumes "\<And>d i. i = fresh p \<or> P i \<Longrightarrow> P (app p d i)"
  shows "(\<And>j. m_load m p = Some j \<Longrightarrow> P j) \<Longrightarrow> m_load (fold (add_at fresh app) xs m) p = Some i \<Longrightarrow> P i"
proof (induction xs arbitrary: m)
  case (Cons x xs)
  have "P j" if "m_load (add_at fresh app x m) p = Some j" for j
    using that Cons.prems(1) assms by (cases x) (auto simp: add_at_def split: if_splits option.splits)
  then show ?case using Cons.IH [of "add_at fresh app x m"] Cons.prems(2) by simp
qed simp

end

interpretation sa: collector "sa_fresh mapping" sa_app fs_Mwe for mapping
  by unfold_locales (simp_all add: sa_fresh_def sa_app_def)

interpretation iss: collector issue_fresh "issue_app mapping" is_Details for mapping
  by unfold_locales (simp_all add: issue_fresh_def issue_app_def)

lemma fold_fold: "fold (\<lambda>r. fold g (h r)) rs m = fold g (concat (map h rs)) m"
  by (induction rs arbitrary: m) simp_all

definition sa_findings :: "SecurityAnalyzerResponse \<Rightarrow> (string \<times> FormatMalwareWorkflowEngine) list" where
  "sa_findings resp =
     concat (map (\<lambda>r. map (\<lambda>f. (fa_Filepath f, format_engine r f)) (sr_AffectedFiles r)) (sa_Results resp))"

lemma sa_groups_has:
  assumes "r \<in> set rs" and "f \<in> set (sr_AffectedFiles r)"
  shows "m_load (sa_groups rs) (fa_Filepath f) \<noteq> None"
proof -
  let ?step = "\<lambda>f m. m_store (fa_Filepath f) ((case m_load m (fa_Filepath f) of None \<Rightarrow> [] | Some l \<Rightarrow> l) @ [f]) m"
  have "m_load (fold ?step fs m) p = None \<longleftrightarrow> m_load m p = None \<and> p \<notin> fa_Filepath ` set fs" for fs m p
    by (induction fs arbitrary: m) auto
  from this [of "concat (map sr_AffectedFiles rs)" "[]" "fa_Filepath f"] show ?thesis
    using assms unfolding sa_groups_def by (auto simp del: not_None_eq)
qed

definition sa_put :: "SecurityAnalyzerResponse \<Rightarrow> string \<times> FormatMalwareWorkflowEngine \<Rightarrow>
    (string, FormatSecurityAnalyzerResult) gomap \<times> Impact \<Rightarrow> (string, FormatSecurityAnalyzerResult) gomap \<times> Impact" where
  "sa_put resp x st =
     (add_at (sa_fresh (sa_FileMapping resp)) sa_app x (fst st), count_severity (mw_Severity (snd x)) (snd st))"

lemma sa_regroup_findings: "sa_regroup resp = fold (sa_put resp) (sa_findings resp) ([], zero_Impact)"
proof -
  have inner: "fold (sa_file resp r) fs st = fold (sa_put resp) (map (\<lambda>f. (fa_Filepath f, format_engine r f)) fs) st"
    if mem: "r \<in> set (sa_Results resp)" and sub: "set fs \<subseteq> set (sr_AffectedFiles r)" for r fs st
    using sub
  proof (induction fs arbitrary: st)
    case (Cons f fs)
    then obtain l where "m_load (sa_groups (sa_Results resp)) (fa_Filepath f) = Some l"
      using sa_groups_has [OF mem, of f] by auto
    then have "sa_file resp r f st = sa_put resp (fa_Filepath f, format_engine r f) st"
      by (simp add: sa_file_def sa_put_def Let_def split_beta)
    then show ?case using Cons by simp
  qed simp
  have "fold (\<lambda>r st. fold (sa_file resp r) (sr_AffectedFiles r) st) rs st =
      fold (sa_put resp) (concat (map (\<lambda>r. map (\<lambda>f. (fa_Filepath f, format_engine r f)) (sr_AffectedFiles r)) rs)) st"
    if "set rs \<subseteq> set (sa_Results resp)" for rs st
    using that by (induction rs arbitrary: st) (simp_all add: inner)
  then show ?thesis by (simp add: sa_regroup_def sa_findings_def)
qed

lemma fold_pair:
  "fold (sa_put resp) xs (m, im) =
     (fold (add_at (sa_fresh (sa_FileMapping resp)) sa_app) xs m, fold (\<lambda>x. count_severity (mw_Severity (snd x))) xs im)"
  by (induction xs arbitrary: m im) (simp_all add: sa_put_def)

lemma sa_entry:
  assumes "m_load (fold (add_at (sa_fresh mapping) sa_app) xs []) p = Some x"
  shows "fs_Filepath x = p \<and> fs_FileKey x = fs_FileKey (sa_fresh mapping p)"
  by (rule sa.collected_all [OF _ _ assms]) (auto simp: sa_app_def sa_fresh_def)

definition severity_count :: "(string \<Rightarrow> bool) \<Rightarrow> (string \<times> FormatMalwareWorkflowEngine) list \<Rightarrow> int" where
  "severity_count P xs = int (length (filter (\<lambda>x. P (mw_Severity (snd x))) xs))"

definition no_level :: "string \<Rightarrow> bool" where
  "no_level s \<longleftrightarrow> s \<notin> {''Critical'', ''High'', ''Medium'', ''LOW''}"

lemma count_fold:
  "fold (\<lambda>x. count_severity (mw_Severity (snd x))) xs im =
     \<lparr>im_Critical = im_Critical im + severity_count (\<lambda>s. s = ''Critical'') xs,
      im_Low = im_Low im + severity_count (\<lambda>s. s = ''LOW'') xs,
      im_High = im_High im + severity_count (\<lambda>s. s = ''High'') xs,
      im_Medium = im_Medium im + severity_count (\<lambda>s. s = ''Medium'') xs,
      im_Informational = im_Informational im + severity_count no_level xs\<rparr>"
  by (induction xs arbitrary: im)
    (simp_all add: severity_count_def count_severity_def no_level_def)

lemma impact_fold:
  "impact_total (fold (\<lambda>x. count_severity (mw_Severity (snd x))) xs im) = impact_total im + int (length xs)"
  by (induction xs arbitrary: im) (simp_all add: count_severity_def impact_total_def)

text \<open>
  C29. The report of the security analyzer regroups the findings by file and loses none: a file has an
  entry if and only if a finding affects it; the entry has its path, its key, and all findings
  that affect it in their order; the five counters count the findings of their severity (what is
  neither "Critical", "High", "Medium" nor "LOW" counts as informational) and add up to all.
\<close>

theorem analyzer_regrouped:
  shows "\<exists>resultMap im. sa_regroup resp = (resultMap, im) \<and>
    (\<forall>p. case m_load resultMap p of
        None \<Rightarrow> p \<notin> fst ` set (sa_findings resp)
      | Some x \<Rightarrow> fs_Filepath x = p \<and> fs_FileKey x = fs_FileKey (sa_fresh (sa_FileMapping resp) p) \<and>
          fs_Mwe x = map snd (filter (\<lambda>y. fst y = p) (sa_findings resp)) \<and> fs_Mwe x \<noteq> []) \<and>
    im_Critical im = severity_count (\<lambda>s. s = ''Critical'') (sa_findings resp) \<and>
    im_High im = severity_count (\<lambda>s. s = ''High'') (sa_findings resp) \<and>
    im_Medium im = severity_count (\<lambda>s. s = ''Medium'') (sa_findings resp) \<and>
    im_Low im = severity_count (\<lambda>s. s = ''LOW'') (sa_findings resp) \<and>
    im_Informational im = severity_count no_level (sa_findings resp) \<and>
    impact_total im = int (length (sa_findings resp))"
proof -
  let ?xs = "sa_findings resp" and ?fresh = "sa_fresh (sa_FileMapping resp)"
  let ?m = "fold (add_at ?fresh sa_app) ?xs []" and ?im = "fold (\<lambda>x. count_severity (mw_Severity (snd x))) ?xs zero_Impact"
  have r: "sa_regroup resp = (?m, ?im)" by (simp add: sa_regroup_findings fold_pair)
  have "case m_load ?m p of
        None \<Rightarrow> p \<notin> fst ` set ?xs
      | Some x \<Rightarrow> fs_Filepath x = p \<and> fs_FileKey x = fs_FileKey (?fresh p) \<and>
          fs_Mwe x = map snd (filter (\<lambda>y. fst y = p) ?xs) \<and> fs_Mwe x \<noteq> []" for p
  proof (cases "m_load ?m p")
    case None
    then show ?thesis using sa.collected_keys [of "sa_FileMapping resp" ?xs "[]" p] by simp
  next
    case (Some x)
    have ds: "fs_Mwe x = map snd (filter (\<lambda>y. fst y = p) ?xs)"
      using sa.collected [of "sa_FileMapping resp" ?xs "[]" p] Some by simp
    have "p \<in> fst ` set ?xs" using sa.collected_keys [of "sa_FileMapping resp" ?xs "[]" p] Some by simp
    then have "fs_Mwe x \<noteq> []" using ds by (auto simp: filter_empty_conv)
    moreover have "fs_Filepath x = p \<and> fs_FileKey x = fs_FileKey (?fresh p)"
      using sa_entry [OF Some] .
    ultimately show ?thesis using Some ds by simp
  qed
  then show ?thesis using r count_fold [of ?xs zero_Impact] impact_fold [of ?xs zero_Impact]
    by (simp add: zero_Impact_def impact_total_def)
qed

text \<open>The same holds for the reports of the linter and of the prover.\<close>

definition details_at :: "string \<Rightarrow> 'd IssueJson \<Rightarrow> 'd list" where
  "details_at p v = (case m_load (ij_Issues v) p of None \<Rightarrow> [] | Some i \<Rightarrow> is_Details i)"

lemma quality_regrouped:
  "details_at p (cq_regroup v) = map snd (filter (\<lambda>x. fst x = p) (concat (map cq_details (cq_results v))))"
  using iss.collected [of "cq_file_mapping v" "concat (map cq_details (cq_results v))" "[]" p]
  by (simp add: details_at_def cq_regroup_def fold_fold)

lemma prover_regrouped:
  "details_at p (sp_regroup v) = map snd (filter (\<lambda>x. fst x = p) (concat (map sp_details (sp_Results v))))"
  using iss.collected [of "sp_FileMapping v" "concat (map sp_details (sp_Results v))" "[]" p]
  by (simp add: details_at_def sp_regroup_def fold_fold)

section \<open>Waiting for the end of a scan\<close>

text \<open>Where the action is after \<open>n\<close> answers that did not end the waiting.\<close>

fun unanswered :: "'y aworld http_lib \<Rightarrow> scan_json \<Rightarrow> string \<Rightarrow> nat \<Rightarrow> MetaScanCheckAction \<Rightarrow> 'y aworld \<Rightarrow>
    (MetaScanCheckAction \<times> 'y aworld) option" where
  "unanswered H J taskId 0 a w = Some (a, w)"
| "unanswered H J taskId (Suc n) a w =
     (case metaScanQueryTaskStatus H J taskId a w of
        (Returns (Inr (a1, r)), w1) \<Rightarrow>
          if ts_State r \<in> set ended_states then None else unanswered H J taskId n a1 w1
      | _ \<Rightarrow> None)"

lemma poll_returns:
  assumes "poll_state H J taskId a w = Some y"
  shows "\<exists>n. unanswered H J taskId n a w = None"
proof (rule poll_state.raw_induct [where P = "\<lambda>H J taskId a w y. \<exists>n. unanswered H J taskId n a w = None", OF _ assms])
  fix poll and H :: "'a aworld http_lib" and J taskId a w y
  assume IH: "\<And>H J taskId a w y. poll H J taskId a w = Some y \<Longrightarrow> \<exists>n. unanswered H J taskId n a w = None"
    and step: "(case metaScanQueryTaskStatus H J taskId a w of
        (Returns (Inl e), w1) \<Rightarrow> Some (Returns (Inl e), w1)
      | (Returns (Inr (a1, r)), w1) \<Rightarrow>
          if ts_State r \<in> set ended_states then Some (Returns (Inr a1), w1) else poll H J taskId a1 w1
      | (RuntimePanic m, w1) \<Rightarrow> Some (RuntimePanic m, w1)
      | (OtherPanic, w1) \<Rightarrow> Some (OtherPanic, w1)) = Some y"
  show "\<exists>n. unanswered H J taskId n a w = None"
  proof (cases "\<exists>a1 r w1. metaScanQueryTaskStatus H J taskId a w = (Returns (Inr (a1, r)), w1) \<and> ts_State r \<notin> set ended_states")
    case True
    then obtain a1 r w1 where q: "metaScanQueryTaskStatus H J taskId a w = (Returns (Inr (a1, r)), w1)"
      "ts_State r \<notin> set ended_states" by blast
    then have "poll H J taskId a1 w1 = Some y" using step by simp
    then obtain n where "unanswered H J taskId n a1 w1 = None" using IH by blast
    then show ?thesis using q by (intro exI [of _ "Suc n"]) simp
  next
    case False
    then have "unanswered H J taskId (Suc 0) a w = None"
      by (auto split: prod.split outcome.split sum.split)
    then show ?thesis by blast
  qed
qed

lemma poll_waits: "poll_state H J taskId a w = None \<Longrightarrow> unanswered H J taskId n a w \<noteq> None"
proof (induction n arbitrary: a w)
  case (Suc n)
  have "\<exists>a1 r w1. metaScanQueryTaskStatus H J taskId a w = (Returns (Inr (a1, r)), w1) \<and>
      ts_State r \<notin> set ended_states \<and> poll_state H J taskId a1 w1 = None"
    using Suc.prems by (subst (asm) poll_state.simps) (auto split: prod.splits outcome.splits sum.splits if_splits)
  then show ?case using Suc.IH by auto
qed simp

lemma poll_hangs_iff: "poll_state H J taskId a w = None \<longleftrightarrow> (\<forall>n. unanswered H J taskId n a w \<noteq> None)"
  using poll_returns poll_waits by (metis not_None_eq)

lemma poll_ended:
  assumes "unanswered H J taskId n a w = Some (a2, w2)"
    and "metaScanQueryTaskStatus H J taskId a2 w2 = (Returns (Inr (a3, r)), w3)" and "ts_State r \<in> set ended_states"
  shows "poll_state H J taskId a w = Some (Returns (Inr a3), w3)"
  using assms(1)
proof (induction n arbitrary: a w)
  case 0
  then show ?case using assms(2,3) by (subst poll_state.simps) simp
next
  case (Suc n)
  then show ?case by (subst poll_state.simps) (auto split: prod.splits outcome.splits sum.splits if_splits)
qed

definition start_scan :: "'y os_lib \<Rightarrow> 'y aworld http_lib \<Rightarrow> scan_json \<Rightarrow> MetaScanCheckAction \<Rightarrow>
    ('y aworld, MetaScanCheckAction \<times> StartTaskRes) act" where
  "start_scan OS H J a =
     seq (find_project OS H J a) (\<lambda>(a1, projectId). logged OS (metaScanStartScanTask H J projectId a1))"


lemma authorized_keeps:
  "authorized H J dec zero msg again failed code rq a w = (Returns (Inr (a1, x)), w1) \<Longrightarrow>
     ms_engineType a1 = ms_engineType a \<and> ms_tool a1 = ms_tool a"
  by (auto simp: authorized_def seq_Inr_iff checked_answer_def ret_def fail_def Let_def split: if_splits)

text \<open>
  C31. A static scan that ended in any way, "FAILURE" or "ABORT" like "SUCCESS", is reported as a
  success of the step: one report with the regrouped findings, their counts and, as the total, the
  number of all findings.
\<close>

theorem scan_reported:
  assumes "start_scan OS H J a w = (Returns (Inr (a1, started)), w1)"
    and "unanswered H J (st_Id started) n a1 w1 = Some (a2, w2)"
    and "metaScanQueryTaskStatus H J (st_Id started) a2 w2 = (Returns (Inr (a3, r)), w3)"
    and "ts_State r \<in> {''SUCCESS'', ''FAILURE'', ''SYS_ABORT'', ''ABORT''}"
    and "st_EngineTasks started = task # tasks"
    and "ms_engineType a3 = ''STATIC''"
    and "fetch_result H J task a3 w3 = (Returns (Inr (a4, res)), w4)" and "sj_analyzer J (tr_Result res) = Inr resp"
  shows "MetaScan_Hook OS H J a w = Some (Returns (Inr (Some (empty_ActionResult\<lparr>ar_MetaScanData :=
      [\<lparr>msr_Total = int (length (sa_findings resp)), msr_CheckResult = sj_analyzer_out J (fst (sa_regroup resp)),
        msr_ResultOverview = sj_impact_out J (snd (sa_regroup resp)), msr_Tool = ms_tool a4\<rparr>]\<rparr>))), w4)"
proof -
  have hook: "MetaScan_Hook OS H J a w = Some (scan_report OS H J started a3 w3)"
    using poll_ended [OF assms(2,3)] assms(1,4)
    by (simp add: MetaScan_Hook_def go_on_def start_scan_def ended_states_def logged_def attempt_def seq_def ret_def)
  have static: "ms_engineType a4 = ''STATIC''"
    using authorized_keeps [OF assms(7) [unfolded fetch_result_def]] assms(6) by simp
  then have "metaScanGetTaskResult H J task a3 w3 =
      (Returns (Inr (a4, sj_analyzer_out J (fst (sa_regroup resp)), snd (sa_regroup resp))), w4)"
    using assms(7,8)
    by (simp add: metaScanGetTaskResult_def seq_def ret_def format_result_def formatSAData_def split_beta)
  moreover have "impact_total (snd (sa_regroup resp)) = int (length (sa_findings resp))"
    using impact_fold [of "sa_findings resp" zero_Impact]
    by (simp add: sa_regroup_findings fold_pair impact_total_def zero_Impact_def)
  ultimately show ?thesis
    unfolding hook using assms(5) static by (simp add: scan_report_def logged_def attempt_def seq_def ret_def)
qed

text \<open>A service whose scans fail at once, with one finding.\<close>

definition demo_http :: "unit aworld http_lib" where
  "demo_http = \<lparr>ht_do = (\<lambda>rq w. (Inr (200, []), w)), ht_env = (\<lambda>k. [])\<rparr>"

definition demo_response :: SecurityAnalyzerResponse where
  "demo_response = \<lparr>sa_Success = True, sa_Error = [], sa_Results = [\<lparr>sr_Mwe = \<lparr>mw_Id = [], mw_Code = [],
       mw_Severity = ''Low'', mw_Title = [], mw_Confidence = [], mw_Description = [], mw_Recommendation = []\<rparr>,
     sr_ShowTitle = [], sr_AffectedFiles = [\<lparr>fa_Filepath = ''a.sol'', fa_FilepathRelative = [], fa_Hightlights = [],
       fa_LineStart = 1, fa_LineEnd = 2\<rparr>]\<rparr>], sa_FileMapping = []\<rparr>"

definition demo_scan :: scan_json where
  "demo_scan = \<lparr>sj_token = (\<lambda>s. Inr ([], [])),
     sj_projects = (\<lambda>s. Inr \<lparr>pr_Total = 1, pr_TotalPages = 1, pr_Items = [\<lparr>mp_Id = ''p'', mp_Title = []\<rparr>], pr_Message = []\<rparr>),
     sj_created = (\<lambda>s. Inl []),
     sj_started = (\<lambda>s. Inr \<lparr>st_Id = ''t'', st_TaskState = [], st_EngineTasks = [''e''], st_Message = []\<rparr>),
     sj_state = (\<lambda>s. Inr \<lparr>ts_State = ''FAILURE'', ts_Message = []\<rparr>), sj_summary = (\<lambda>s. Inl []),
     sj_result = (\<lambda>s. Inr \<lparr>tr_Title = [], tr_Result = ''r'', tr_Message = []\<rparr>),
     sj_analyzer = (\<lambda>s. Inr demo_response), sj_quality = (\<lambda>s. \<lparr>cq_version = [], cq_success = False,
       cq_file_mapping = [], cq_message = [], cq_results = []\<rparr>), sj_prover = (\<lambda>s. Inl []),
     sj_analyzer_out = (\<lambda>m. concat (m_keys m)), sj_quality_out = (\<lambda>v. []), sj_prover_out = (\<lambda>v. []),
     sj_impact_out = (\<lambda>im. Itoa (im_Informational im))\<rparr>"

definition demo_action :: MetaScanCheckAction where
  "demo_action = \<lparr>ms_engineType = ''STATIC'', ms_scanToken = [], ms_projectName = [], ms_projectUrl = [],
     ms_organizationId = [], ms_tool = ''t'', ms_userId = []\<rparr>"

lemma demo_findings: "int (length (sa_findings demo_response)) = 1"
  by (simp add: sa_findings_def demo_response_def)

lemma demo_http_call: "http_call demo_http dec zero rq w = (Returns (map_sum id (\<lambda>x. (200, x)) (dec [])), w)"
  by (simp add: http_call_def demo_http_def split: sum.split)

lemma demo_authorized:
  "dec [] = Inr x \<Longrightarrow> authorized demo_http J dec zero msg again failed code rq a w = (Returns (Inr (a, x)), w)"
  by (simp add: authorized_def seq_def demo_http_call checked_answer_def ret_def)

theorem scan_reported_witness:
  "\<exists>ar. MetaScan_Hook demo_os demo_http demo_scan demo_action (r_w demo_run) =
      Some (Returns (Inr (Some ar)), r_w demo_run) \<and> map msr_Total (ar_MetaScanData ar) = [1]"
proof -
  let ?st = "\<lparr>st_Id = ''t'', st_TaskState = [], st_EngineTasks = [''e''], st_Message = []\<rparr>"
  have start: "start_scan demo_os demo_http demo_scan demo_action (r_w demo_run) = (Returns (Inr (demo_action, ?st)), r_w demo_run)"
    by (simp add: start_scan_def find_project_def logged_def attempt_def seq_def ret_def metaScanGetProjects_def
      metaScanStartScanTask_def demo_authorized demo_scan_def)
  have query: "metaScanQueryTaskStatus demo_http demo_scan (st_Id ?st) demo_action (r_w demo_run) =
      (Returns (Inr (demo_action, \<lparr>ts_State = ''FAILURE'', ts_Message = []\<rparr>)), r_w demo_run)"
    by (simp add: metaScanQueryTaskStatus_def demo_authorized demo_scan_def)
  have type: "ms_engineType demo_action = ''STATIC''" by (simp add: demo_action_def)
  have result: "fetch_result demo_http demo_scan ''e'' demo_action (r_w demo_run) =
      (Returns (Inr (demo_action, \<lparr>tr_Title = [], tr_Result = ''r'', tr_Message = []\<rparr>)), r_w demo_run)"
    by (simp add: fetch_result_def demo_authorized demo_scan_def)
  have resp: "sj_analyzer demo_scan s = Inr demo_response" for s by (simp add: demo_scan_def)
  have "unanswered demo_http demo_scan (st_Id ?st) 0 demo_action (r_w demo_run) = Some (demo_action, r_w demo_run)"
    by simp
  from scan_reported [OF start this query _ _ type result resp, of "[]"] show ?thesis
    by (simp add: demo_findings)
qed

end
