(* ===== verification/Reports.thy ===== *)
theory Reports
  imports Checks Aptos Http
begin

text \<open>
  The checks whose reports are tables or nested blocks: \<open>sol-profiler-check\<close>
  (\<open>action_sol_profiler.go\<close>), \<open>aptos-check\<close> (\<open>action_move_prover.go\<close>), \<open>frontend-check\<close>
  (\<open>action_eslint.go\<close>) and \<open>eth-gas-reporter\<close> (\<open>action_eth_gas_reporter.go\<close>).

  Text is bytes: the box characters of the tables are their UTF-8 sequences, and a dot in a regular
  expression is one character of UTF-8 (one byte where the text is not valid).
\<close>

section \<open>Text\<close>

definition bar :: string where "bar = [CHR 0xE2, CHR 0x94, CHR 0x82]"
definition dash :: string where "dash = [CHR 0xE2, CHR 0x94, CHR 0x80]"
definition top_left :: string where "top_left = [CHR 0xE2, CHR 0x94, CHR 0x8C] @ dash"
definition mid_left :: string where "mid_left = [CHR 0xE2, CHR 0x94, CHR 0x9C] @ dash"
definition low_left :: string where "low_left = [CHR 0xE2, CHR 0x94, CHR 0x94] @ dash"
definition tick :: string where "tick = [CHR 0xE2, CHR 0x9C, CHR 0x93]"
definition middot :: string where "middot = [CHR 0xC2, CHR 0xB7]"

definition byte :: "char \<Rightarrow> nat" where
  "byte c = of_char c"

definition cont :: "string \<Rightarrow> nat \<Rightarrow> bool" where
  "cont s i \<longleftrightarrow> i < length s \<and> 128 \<le> byte (s ! i) \<and> byte (s ! i) < 192"

text \<open>The number of bytes of the first character.\<close>

definition rune_len :: "string \<Rightarrow> nat" where
  "rune_len s =
     (if s = [] then 0
      else (let b = byte (s ! 0); b1 = (if 1 < length s then byte (s ! 1) else 0) in
        if 194 \<le> b \<and> b < 224 \<and> cont s 1 then 2
        else if 224 \<le> b \<and> b < 240 \<and> cont s 1 \<and> cont s 2 \<and> (b = 224 \<longrightarrow> 160 \<le> b1) \<and> (b = 237 \<longrightarrow> b1 < 160) then 3
        else if 240 \<le> b \<and> b < 245 \<and> cont s 1 \<and> cont s 2 \<and> cont s 3 \<and> (b = 240 \<longrightarrow> 144 \<le> b1) \<and> (b = 244 \<longrightarrow> b1 < 144) then 4
        else 1))"

text \<open>The text after \<open>k\<close> characters, none of them a line break.\<close>

fun skip_runes :: "nat \<Rightarrow> string \<Rightarrow> string option" where
  "skip_runes 0 s = Some s"
| "skip_runes (Suc k) s =
     (if s = [] \<or> hd s = CHR 0x0A then None else skip_runes k (drop (rune_len s) s))"

text \<open>The expression \<open>\[.{1,n}m\<close> at the start of a text, the longest match first: what follows it.\<close>

fun color_match :: "nat \<Rightarrow> string \<Rightarrow> string option" where
  "color_match 0 s = None"
| "color_match (Suc k) s =
     (case skip_runes (Suc k) s of
        Some (c # r) \<Rightarrow> if c = CHR ''m'' then Some r else color_match k s
      | _ \<Rightarrow> color_match k s)"

function strip_colors :: "nat \<Rightarrow> string \<Rightarrow> string" where
  "strip_colors n s =
     (case s of [] \<Rightarrow> []
      | c # r \<Rightarrow>
          (case (if c = CHR ''['' then color_match n r else None) of
             Some t \<Rightarrow> if length t < length s then strip_colors n t else []
           | None \<Rightarrow> c # strip_colors n r))"
  by pat_completeness auto
termination by (relation "measure (\<lambda>(n, s). length s)") auto

declare strip_colors.simps [simp del]

lemma skip_runes_shorter: "skip_runes k s = Some t \<Longrightarrow> length t \<le> length s"
  by (induction k arbitrary: s) (auto split: if_splits, fastforce)

lemma color_match_shorter: "color_match k s = Some t \<Longrightarrow> length t < length s"
proof (induction k)
  case (Suc k)
  show ?case
  proof (cases "skip_runes (Suc k) s")
    case (Some u)
    then show ?thesis
      using Suc skip_runes_shorter [OF Some] by (cases u) (auto split: if_splits)
  qed (use Suc in simp)
qed simp

text \<open>The guard in \<open>strip_colors\<close> is always met.\<close>

lemma strip_colors_Cons:
  "strip_colors n (c # r) =
     (case (if c = CHR ''['' then color_match n r else None) of
        Some t \<Rightarrow> strip_colors n t | None \<Rightarrow> c # strip_colors n r)"
  by (subst strip_colors.simps) (auto dest: color_match_shorter split: option.split)

lemma strip_colors_none: "CHR ''['' \<notin> set s \<Longrightarrow> strip_colors n s = s"
  by (induction s) (auto simp: strip_colors_Cons, simp add: strip_colors.simps)

section \<open>sol-profiler-check (action_sol_profiler.go)\<close>

definition NewMethodsDetails :: "string \<Rightarrow> string \<Rightarrow> string \<Rightarrow> string \<Rightarrow> string \<Rightarrow> string \<Rightarrow> string \<Rightarrow> MethodsDetails" where
  "NewMethodsDetails contract category fn visibility viewPure returns modifiers =
     \<lparr>mth_Contract = contract, mth_Category = category, mth_Function = fn, mth_Visibility = visibility,
      mth_ViewPure = viewPure, mth_Returns = returns, mth_Modifiers = modifiers\<rparr>"

definition NewSolProfilerAction :: "Step \<Rightarrow> string" where
  "NewSolProfilerAction step = step_with step ''path''"

definition SolProfiler_Pre :: "('y aworld, unit) act" where
  "SolProfiler_Pre = ret ()"

definition SolProfiler_Hook :: "'y os_lib \<Rightarrow> string \<Rightarrow> ('y aworld, string \<times> ActionResult option res) act" where
  "SolProfiler_Hook OS p =
     guarded p check_context (\<lambda>(workdir, jobName, jobId).
     seq (look (\<lambda>w. suffix_files (PathJoin [workdir, p]) ''.sol'' (w_fs w))) (\<lambda>absPathList.
     let destDir = check_dir OS jobName jobId ''sol_profiler'' in
     guarded p (ensure_dir destDir) (\<lambda>u.
     guarded p (write_reports OS False (\<lambda>q. Inr (Inr (''sol-profiler '' @ q))) workdir destDir absPathList) (\<lambda>u.
     ret (destDir, map_sum id check_report (Atoi jobId))))))"

text \<open>One row of the table; the fourth column is assigned to the visibility a second time.\<close>

definition profiler_row :: "string \<Rightarrow> string list \<Rightarrow> MethodsDetails go" where
  "profiler_row trimSpace split =
     (let i = Index trimSpace ''(library)'' in
      then_do (if i \<noteq> -1 then slice trimSpace 0 i else Inr trimSpace) (\<lambda>name.
      then_do (index_at split 2) (\<lambda>fn.
      then_do (index_at split 3) (\<lambda>visibility.
      then_do (index_at split 4) (\<lambda>viewPure.
      then_do (index_at split 5) (\<lambda>returns.
      then_do (index_at split 6) (\<lambda>modifiers.
        Inr \<lparr>mth_Contract = (if i \<noteq> -1 then TrimSpace name else name),
             mth_Category = (if i \<noteq> -1 then ''library'' else ''Contract''),
             mth_Function = TrimSpace fn, mth_Visibility = TrimSpace viewPure, mth_ViewPure = [],
             mth_Returns = TrimSpace returns, mth_Modifiers = TrimSpace modifiers\<rparr>)))))))"

fun profiler_lines :: "string list \<Rightarrow> MethodsDetails list go" where
  "profiler_lines [] = Inr []"
| "profiler_lines (line # ls) =
     (let s = strip_colors 2 line in
      if Contains s top_left \<or> Contains s mid_left \<or> Contains s low_left \<or> Contains s ''Contract/Library/Interface''
      then profiler_lines ls
      else if \<not> Contains s bar then profiler_lines ls
      else
        (let split = Split s bar in
         then_do (index_at split 1) (\<lambda>s1.
         let trimSpace = TrimSpace s1 in
         if trimSpace = [] then profiler_lines ls
         else then_do (profiler_row trimSpace split) (\<lambda>d. then_do (profiler_lines ls) (\<lambda>ds. Inr (d # ds))))))"

fun profiler_loop :: "fs \<Rightarrow> string \<Rightarrow> string list \<Rightarrow> MethodsDetails list CheckDetails list \<Rightarrow>
    MethodsDetails list CheckDetails list res go option" where
  "profiler_loop fs dir [] acc = Some (Inr (Inr acc))"
| "profiler_loop fs dir (info # infos) acc =
     (let p = path_of (PathJoin [dir, info]) in
      case Stat fs p of
        Inl e \<Rightarrow> Some (Inr (Inl ''file open fail''))
      | Inr n \<Rightarrow>
          if denied fs p then Some (Inr (Inl ''file open fail''))
          else (case n of
              FDir \<Rightarrow> None
            | FFile d \<Rightarrow>
                (case profiler_lines (read_lines d) of
                   Inl pn \<Rightarrow> Some (Inl pn)
                 | Inr ds \<Rightarrow> profiler_loop fs dir infos
                     (acc @ [NewContractCheckResultDetails (ReplaceOne info ''.txt'' ''.sol'') 0 ds]))))"

definition SolProfiler_Post :: "'y os_lib \<Rightarrow> (MethodsDetails list CheckResult \<Rightarrow> string) \<Rightarrow> string \<Rightarrow> 'y aworld \<Rightarrow>
    (unit res outcome \<times> 'y aworld) option" where
  "SolProfiler_Post OS out dir w =
     (case report_entries OS dir (w_fs w) of
        Inl e \<Rightarrow> Some (fail e w)
      | Inr infos \<Rightarrow>
          (case profiler_loop (w_fs w) dir infos [] of
             None \<Rightarrow> None
           | Some (Inl pn) \<Rightarrow> Some (crash ''index out of range'' w)
           | Some (Inr (Inl e)) \<Rightarrow> Some (fail e w)
           | Some (Inr (Inr list)) \<Rightarrow>
               Some (act_WriteFile (PathJoin [dir, ''total_result.txt''])
                 (out (NewContractCheckResult (en_Name ContractMethodsPropertiesReport) CheckSuccess
                   (en_Tool ContractMethodsPropertiesReport) list 0)) w)))"

section \<open>aptos-check (action_move_prover.go)\<close>

record MoveProverAction =
  mv_path :: string
  mv_cachePath :: string

definition NewMoveProverAction :: "Step \<Rightarrow> MoveProverAction" where
  "NewMoveProverAction step = \<lparr>mv_path = step_with step ''path'', mv_cachePath = step_with step ''cachePath''\<rparr>"

definition MoveProver_Pre :: "('y aworld, unit) act" where
  "MoveProver_Pre = ret ()"

definition move_command :: "MoveProverAction \<Rightarrow> string \<Rightarrow> string \<Rightarrow> string \<Rightarrow> string" where
  "move_command a workdir redundantPath namedAddress =
     ''docker run --rm '' @ (if mv_cachePath a \<noteq> [] then ''-v '' @ mv_cachePath a else []) @ '' -v '' @ workdir @
     '':/tmp hamstershare/aptoslabs-tools:aptos-node-v1.3.3 aptos move prove --package-dir '' @
     PathJoin [''/tmp'', redundantPath] @ '' '' @
     (if namedAddress \<noteq> [] then '' --named-addresses '' @ namedAddress else [])"

text \<open>
  The loop over the packages.  \<open>named\<close> is \<open>utils.GetDefaultNamedAddress\<close> on the file \<open>Move.toml\<close>; the error of the
  relative path is overwritten.
\<close>

fun move_reports :: "'y os_lib \<Rightarrow> (string \<Rightarrow> fs \<Rightarrow> string res) \<Rightarrow> MoveProverAction \<Rightarrow> string \<Rightarrow> string \<Rightarrow> string list \<Rightarrow>
    ('y aworld, unit) act" where
  "move_reports OS named a workdir destDir [] = ret ()"
| "move_reports OS named a workdir destDir (p # ps) =
     seq (checked (GetRedundantPath workdir p)) (\<lambda>r.
     seq (look (\<lambda>w. named (PathJoin [workdir, ''Move.toml'']) (w_fs w))) (\<lambda>na. case na of Inl e \<Rightarrow> fail e | Inr namedAddress \<Rightarrow>
     seq (check_command OS (Fields (move_command a workdir (case r of Inl e \<Rightarrow> [] | Inr q \<Rightarrow> q) namedAddress)) workdir) (\<lambda>(out, err).
     if out = [] \<and> err \<noteq> None then fail (the err)
     else
       (let text' = ReplaceAll (strip_colors 6 out) [CHR 0x1B] [] in
        if Contains text' ''Unable to resolve packages for package'' then fail text'
        else seq (act_WriteFile (report_path destDir p) text') (\<lambda>u. move_reports OS named a workdir destDir ps)))))"

definition MoveProver_Hook :: "'y os_lib \<Rightarrow> (string \<Rightarrow> fs \<Rightarrow> string res) \<Rightarrow> MoveProverAction \<Rightarrow>
    ('y aworld, MoveProverAction \<times> ActionResult option res) act" where
  "MoveProver_Hook OS named a =
     guarded a check_context (\<lambda>(workdir, jobName, jobId).
     seq (look (\<lambda>w. suffix_files (PathJoin [workdir, mv_path a]) ''.move'' (w_fs w))) (\<lambda>absPathList.
     let destDir = check_dir OS jobName jobId ''move-prover'' in
     guarded a (ensure_dir destDir) (\<lambda>u.
     guarded a (move_reports OS named a workdir destDir absPathList) (\<lambda>u.
     ret (a\<lparr>mv_path := destDir\<rparr>, map_sum id check_report (Atoi jobId))))))"

text \<open>
  An error line takes the next line with it, the position; an error in the last line, or with a position
  that does not have its parts, is dropped.
\<close>

fun move_lines :: "string list \<Rightarrow> StyleDetails list go" where
  "move_lines [] = Inr []"
| "move_lines [s] = Inr []"
| "move_lines (s # p # ls) =
     (if length s > 5 \<and> Contains s ''error: '' then
        (if Contains p top_left \<and> Contains p '':'' then
           (let split = Split p top_left in
            if length split < 2 then move_lines ls
            else
              (let fileSplit = Split (split ! 1) '':'' in
               if length fileSplit < 3 then move_lines ls
               else then_do (move_lines ls) (\<lambda>ds. Inr (NewStyleDetails (fileSplit ! 1) (fileSplit ! 2) [] []
                 (drop 6 s) ''Move Prove'' # ds))))
         else then_do (move_lines ls) (\<lambda>ds. Inr (NewStyleDetails [] [] [] [] (drop 6 s) ''Move Prove'' # ds)))
      else move_lines (p # ls))"

definition MoveProver_Post :: "'y os_lib \<Rightarrow> json_lib \<Rightarrow> MoveProverAction \<Rightarrow> 'y aworld \<Rightarrow>
    (unit res outcome \<times> 'y aworld) option" where
  "MoveProver_Post OS J a =
     check_Post OS J FormalReport move_lines (\<lambda>info. ReplaceOne info ''.txt'' ''.move'') (mv_path a)"

section \<open>frontend-check (action_eslint.go)\<close>

record EslintCheckResultMessage =
  em_RuleId :: string
  em_Severity :: int
  em_Message :: string
  em_Line :: int
  em_Column :: int
  em_NodeType :: json
  em_MessageId :: string

record EslintCheckResult =
  er_FilePath :: string
  er_Messages :: "EslintCheckResultMessage list"
  er_SuppressedMessages :: "json list"
  er_ErrorCount :: int
  er_FatalErrorCount :: int
  er_WarningCount :: int
  er_FixableErrorCount :: int
  er_FixableWarningCount :: int
  er_UsedDeprecatedRules :: "json list"

definition NewEslintAction :: "Step \<Rightarrow> string" where
  "NewEslintAction step = step_with step ''path''"

text \<open>\<open>gjson\<close>'s answer for \<open>scripts.lint\<close>, and the decoding of the tool's output.\<close>

record eslint_json =
  ej_lint :: "string \<Rightarrow> string option"
  ej_results :: "string \<Rightarrow> EslintCheckResult list res"

text \<open>The pattern \<open>.eslintrc.*\<close> on a file name.\<close>

definition eslintrc :: "string \<Rightarrow> bool" where
  "eslintrc n \<longleftrightarrow> HasPrefix n ''.eslintrc.''"

definition Eslint_Pre :: "eslint_json \<Rightarrow> ('y aworld, unit) act" where
  "Eslint_Pre G =
     seq (ctx_string_ok ''workdir'' ''workdir is empty'') (\<lambda>workdir.
     seq (look (\<lambda>w. case ReadDir (path_of workdir) (w_fs w) of Inl e \<Rightarrow> [] | Inr files \<Rightarrow> files)) (\<lambda>files.
     if \<not> list_ex eslintrc files then fail ''.eslintrc.* not exist''
     else if ''package.json'' \<notin> set files then fail ''package.json not exist''
     else seq (act_ReadFile (PathJoin [workdir, ''package.json''])) (\<lambda>text'.
       case ej_lint G text' of
         None \<Rightarrow> fail ''lint cli not exist''
       | Some lint \<Rightarrow> if \<not> Contains lint ''json'' then fail (''please add '' @ [CHR 0x27] @ ''- f json'' @ [CHR 0x27] @ '' in '' @
           [CHR 0x27] @ ''lint'' @ [CHR 0x27] @ '' cli'') else ret ())))"

text \<open>What follows the first line; all of the text when it has one line only.\<close>

definition after_line :: "string \<Rightarrow> string" where
  "after_line s = drop (nat (Index s nl + 1)) s"

definition eslint_file :: "string \<Rightarrow> string" where
  "eslint_file dir = PathJoin [dir, ''eslint.txt'']"

definition Eslint_Hook :: "'y os_lib \<Rightarrow> string \<Rightarrow> ('y aworld, string \<times> ActionResult option res) act" where
  "Eslint_Hook OS p =
     guarded p check_context (\<lambda>(workdir, jobName, jobId).
     let destDir = check_dir OS jobName jobId ''eslint'' in
     guarded p (ensure_dir destDir) (\<lambda>u.
     guarded p (seq (check_command OS (Fields ''npm run lint'') workdir) (\<lambda>(out, err).
         if out = [] \<and> err \<noteq> None then fail (the err)
         else act_WriteFile (eslint_file destDir) (after_line (after_line (after_line (after_line out)))))) (\<lambda>u.
     ret (destDir, map_sum id check_report (Atoi jobId)))))"

definition eslint_detail :: "EslintCheckResultMessage \<Rightarrow> StyleDetails" where
  "eslint_detail m =
     NewStyleDetails (Itoa (em_Line m)) (Itoa (em_Column m)) (if em_Severity m = 1 then ''error'' else ''waring'') []
       (em_Message m) (em_RuleId m)"

definition eslint_details :: "EslintCheckResult list \<Rightarrow> StyleDetails list CheckDetails list" where
  "eslint_details rs =
     map (\<lambda>r. NewContractCheckResultDetails (er_FilePath r) (int (length (er_Messages r))) (map eslint_detail (er_Messages r)))
       (filter (\<lambda>r. \<not> length (er_Messages r) < 1) rs)"

definition Eslint_Post :: "json_lib \<Rightarrow> eslint_json \<Rightarrow> string \<Rightarrow> ('y aworld, unit) act" where
  "Eslint_Post J G dir =
     seq (attempt (act_ReadFile (eslint_file dir))) (\<lambda>r. case r of
       Inl e \<Rightarrow> fail ''check result path is err''
     | Inr d \<Rightarrow>
         (case ej_results G d of
            Inl e \<Rightarrow> fail ''get check result is fail''
          | Inr rs \<Rightarrow>
              if length rs < 1 then ret ()
              else
                (let ds = eslint_details rs in
                 act_WriteFile (PathJoin [dir, ''total_result.txt''])
                   (js_style_out J (NewContractCheckResult (en_Name FrontEndCheckReport) CheckSuccess
                     (en_Tool FrontEndCheckReport) ds (sum_list (map cd_Issue ds)))))))"

section \<open>eth-gas-reporter (action_eth_gas_reporter.go)\<close>

record TestResult =
  tt_Result :: int
  tt_UnitTestTitle :: string

record UnitTestResult =
  ut_ContractName :: string
  ut_TestResultList :: "TestResult list"

record IssuesInfo =
  ii_ContractName :: string
  ii_IssuesInfo :: "string list"

record GasUsageForMethods =
  gm_ContractName :: string
  gm_Method :: string
  gm_Min :: string
  gm_Max :: string
  gm_Avg :: string
  gm_Calls :: string

record GasUsageForDeployments =
  gd_ContractName :: string
  gd_Min :: string
  gd_Max :: string
  gd_Avg :: string
  gd_Limit :: string

record gas_json =
  gj_tests :: "UnitTestResult list \<Rightarrow> string"
  gj_issues :: "IssuesInfo list \<Rightarrow> string"
  gj_methods :: "GasUsageForMethods list \<Rightarrow> string"
  gj_deployments :: "GasUsageForDeployments list \<Rightarrow> string"
  gj_out :: "string CheckResult \<Rightarrow> string"

text \<open>The action keeps a compiler version that it never uses, and the directory of its report.\<close>

record EthGasReporterAction =
  eg_path :: string
  eg_solcVersion :: string

definition NewEthGasReporterAction :: "Step \<Rightarrow> EthGasReporterAction" where
  "NewEthGasReporterAction step = \<lparr>eg_path = [], eg_solcVersion = step_with step ''solc-version''\<rparr>"

definition EthGas_Pre :: "('y aworld, unit) act" where
  "EthGas_Pre = ret ()"

definition EthGas_Hook :: "'y os_lib \<Rightarrow> string \<Rightarrow> ('y aworld, string \<times> ActionResult option res) act" where
  "EthGas_Hook OS p =
     guarded p check_context (\<lambda>(workdir, jobName, jobId).
     let destDir = check_dir OS jobName jobId ''eth-gas-reporter'' in
     guarded p (ensure_dir destDir) (\<lambda>u.
     guarded p (seq (check_command OS (Fields ''truffle test'') workdir) (\<lambda>(out, err).
         if out = [] \<and> err \<noteq> None then fail (the err)
         else act_WriteFile (PathJoin [destDir, ''eth-gas-reporter.txt'']) (strip_colors 2 out))) (\<lambda>u.
     ret (destDir, map_sum id check_report (Atoi jobId)))))"

text \<open>The expression \<open>^\d+\)\<close>.\<close>

definition numbered :: "string \<Rightarrow> bool" where
  "numbered s \<longleftrightarrow>
     (let ds = takeWhile (\<lambda>c. digit_val c \<noteq> None) s in
      ds \<noteq> [] \<and> HasPrefix (drop (length ds) s) '')'')"

text \<open>The state of the loop over the report.\<close>

record gas_state =
  gs_tests :: "UnitTestResult list"
  gs_issueInfos :: "IssuesInfo list"
  gs_methods :: "GasUsageForMethods list"
  gs_deployments :: "GasUsageForDeployments list"
  gs_issues :: int
  gs_success :: bool
  gs_solc :: string
  gs_limit :: string
  gs_previous :: string

definition gas_start :: gas_state where
  "gas_start = \<lparr>gs_tests = [], gs_issueInfos = [], gs_methods = [], gs_deployments = [], gs_issues = 0,
     gs_success = True, gs_solc = [], gs_limit = [], gs_previous = []\<rparr>"

text \<open>What a line of a test suite says: a numbered line is a failed test, a tick a passed one.\<close>

definition test_line :: "string \<Rightarrow> TestResult list \<times> gas_state \<Rightarrow> TestResult list \<times> gas_state" where
  "test_line s x =
     (case x of (l, st) \<Rightarrow>
      let failed = length s > 8 \<and> numbered (take 8 s);
          l1 = (if failed
                then l @ [\<lparr>tt_Result = 0, tt_UnitTestTitle = TrimSpace (drop (nat (Index s '')'' + 1)) s)\<rparr>] else l);
          st1 = (if failed then st\<lparr>gs_issues := gs_issues st + 1, gs_success := False\<rparr> else st);
          l2 = (if Contains s tick
                then l1 @ [\<lparr>tt_Result = 1, tt_UnitTestTitle = TrimSpace (drop (nat (Index s tick + 3)) s)\<rparr>] else l1) in
      (l2, st1))"

definition contract_mark :: string where "contract_mark = ''Contract: ''"
definition gas_rule :: string where "gas_rule = middot @ ''--------''"

text \<open>The lines of one suite: the tests, the state, and the lines that are left.\<close>

fun suite_lines :: "string list \<Rightarrow> TestResult list \<times> gas_state \<Rightarrow> (TestResult list \<times> gas_state) \<times> string list" where
  "suite_lines [] x = (x, [])"
| "suite_lines (line # ls) x =
     (let s = TrimSpace line in
      if s = [] then suite_lines ls x
      else if HasPrefix s contract_mark then ((fst x, (snd x)\<lparr>gs_previous := s\<rparr>), ls)
      else if Contains s gas_rule then (x, ls)
      else suite_lines ls (test_line s x))"

definition without_bars :: "string \<Rightarrow> string list" where
  "without_bars s = Split (ReplaceAll (ReplaceAll s ''|'' []) bar []) middot"

definition first_bar :: "string \<Rightarrow> bool" where
  "first_bar s \<longleftrightarrow> Contains s ''|'' \<and> Index s ''|'' = 0"

definition method_row :: "string list \<Rightarrow> GasUsageForMethods go" where
  "method_row xs =
     then_do (index_at xs 0) (\<lambda>a. then_do (index_at xs 1) (\<lambda>b. then_do (index_at xs 2) (\<lambda>c.
     then_do (index_at xs 3) (\<lambda>d. then_do (index_at xs 4) (\<lambda>e. then_do (index_at xs 5) (\<lambda>f.
       Inr \<lparr>gm_ContractName = TrimSpace a, gm_Method = TrimSpace b, gm_Min = TrimSpace c, gm_Max = TrimSpace d,
            gm_Avg = TrimSpace e, gm_Calls = TrimSpace f\<rparr>))))))"

fun method_lines :: "string list \<Rightarrow> GasUsageForMethods list \<Rightarrow> (GasUsageForMethods list \<times> string list) go" where
  "method_lines [] acc = Inr (acc, [])"
| "method_lines (s # ls) acc =
     (if Contains s ''Deployments'' \<and> Contains s ''% of limit'' then Inr (acc, ls)
      else if first_bar s then
        (let methodsInfo = without_bars s in
         then_do (index_at methodsInfo 2) (\<lambda>c.
         if Contains c ''Min'' then method_lines ls acc
         else then_do (method_row methodsInfo) (\<lambda>m. method_lines ls (acc @ [m]))))
      else method_lines ls acc)"

text \<open>The lines of one block of the list of failures.\<close>

fun info_lines :: "string list \<Rightarrow> string list \<Rightarrow> string list \<times> string \<times> string list" where
  "info_lines [] acc = (acc, [], [])"
| "info_lines (line # ls) acc =
     (let s = TrimSpace line in
      if s = [] then info_lines ls acc
      else if length s > 5 \<and> numbered (take 5 s) then (acc, s, ls)
      else info_lines ls (acc @ [s]))"

lemma suite_lines_left: "length (snd (suite_lines ls x)) \<le> length ls"
  by (induction ls x rule: suite_lines.induct) (auto simp: Let_def)

lemma method_lines_left: "method_lines ls acc = Inr (r, left) \<Longrightarrow> length left \<le> length ls"
proof (induction ls acc rule: method_lines.induct)
  case (2 s ls acc)
  then show ?case
    by (auto simp: Let_def then_do_Inr_iff split: if_splits) (meson le_SucI)+
qed simp

lemma info_lines_left: "length (snd (snd (info_lines ls acc))) \<le> length ls"
  by (induction ls acc rule: info_lines.induct) (auto simp: Let_def)

text \<open>
  What one turn of the loop over the report does with a line and the lines after it: a test suite, a row
  of the gas table, a block of the list of failures.  The line that ended a block is kept in
  \<open>previousLineContent\<close> where the code keeps it.  The lines that are left come with the new state.
\<close>

definition suite_block :: "string \<Rightarrow> string list \<Rightarrow> gas_state \<Rightarrow> string list \<times> gas_state" where
  "suite_block s ls st =
     (let previous = gs_previous st;
          name = TrimSpace (ReplaceAll (if previous = [] then s else previous) contract_mark []);
          x = (if previous = [] then ([], st) else test_line s ([], st));
          y = suite_lines ls (fst x, (snd x)\<lparr>gs_previous := []\<rparr>);
          st1 = snd (fst y) in
      (snd y, st1\<lparr>gs_tests := gs_tests st1 @ [\<lparr>ut_ContractName = name, ut_TestResultList = fst (fst y)\<rparr>]\<rparr>))"

definition table_row :: "string \<Rightarrow> string list \<Rightarrow> gas_state \<Rightarrow> (string list \<times> gas_state) go" where
  "table_row s ls st =
     (let split = without_bars s; head = TrimSpace (split ! 0) in
      if Contains head ''Solc version: '' then
        then_do (index_at split 3) (\<lambda>limit.
          Inr (ls, st\<lparr>gs_solc := TrimSpace (ReplaceAll head ''Solc version: '' []),
            gs_limit := TrimSpace (ReplaceAll (TrimSpace limit) ''Block limit: '' [])\<rparr>))
      else if Contains head ''Methods'' then
        then_do (method_lines ls (gs_methods st)) (\<lambda>(ms, left). Inr (left, st\<lparr>gs_methods := ms\<rparr>))
      else if length split < 5 then Inr (ls, st)
      else Inr (ls, st\<lparr>gs_deployments := gs_deployments st @
        [\<lparr>gd_ContractName = TrimSpace (split ! 0), gd_Min = TrimSpace (split ! 1), gd_Max = TrimSpace (split ! 2),
          gd_Avg = TrimSpace (split ! 3), gd_Limit = TrimSpace (split ! 4)\<rparr>]\<rparr>))"

definition info_block :: "string \<Rightarrow> string list \<Rightarrow> gas_state \<Rightarrow> (string list \<times> gas_state) go" where
  "info_block s ls st =
     (let previous = gs_previous st;
          title = (if previous = [] then s else previous);
          z = info_lines ls (if previous = [] then [] else [s]) in
      then_do (slice title (Index title '':'' + 2) (int (length title))) (\<lambda>name.
        Inr (snd (snd z), st\<lparr>gs_issueInfos := gs_issueInfos st @
          [\<lparr>ii_ContractName = name, ii_IssuesInfo = fst z\<rparr>], gs_previous := fst (snd z)\<rparr>)))"

definition gas_step :: "string \<Rightarrow> string list \<Rightarrow> gas_state \<Rightarrow> (string list \<times> gas_state) go" where
  "gas_step line ls st =
     (let s = TrimLeft line '' '' in
      if TrimSpace s = [] then Inr (ls, st)
      else if HasPrefix s contract_mark \<or> HasPrefix (gs_previous st) contract_mark then Inr (suite_block s ls st)
      else if first_bar s then table_row s ls st
      else if length s > 5 \<and> numbered (take 5 s) \<or> gs_previous st \<noteq> [] then info_block s ls st
      else Inr (ls, st))"

lemma gas_step_left: "gas_step line ls st = Inr (left, st') \<Longrightarrow> length left \<le> length ls"
  by (auto simp: gas_step_def suite_block_def table_row_def info_block_def Let_def then_do_Inr_iff suite_lines_left
      info_lines_left dest: method_lines_left split: if_splits)

function gas_lines :: "string list \<Rightarrow> gas_state \<Rightarrow> gas_state go" where
  "gas_lines [] st = Inr st"
| "gas_lines (line # ls) st =
     (case gas_step line ls st of Inl p \<Rightarrow> Inl p | Inr (left, st') \<Rightarrow> gas_lines left st')"
  by pat_completeness auto
termination
  by (relation "measure (\<lambda>(ls, st). length ls)") (auto simp: le_imp_less_Suc dest: gas_step_left)

definition gas_result :: "gas_json \<Rightarrow> gas_state \<Rightarrow> string CheckResult" where
  "gas_result G st =
     (let detail = (\<lambda>name message. \<lparr>cd_Name = name, cd_Issue = gs_issues st, cd_GasLimit = gs_limit st, cd_Message = message\<rparr>);
          details = [detail ''Unit Test Result'' (gj_tests G (gs_tests st)),
            detail ''Issues  Info'' (gj_issues G (gs_issueInfos st)),
            detail ''Gas Usage for Methods'' (gj_methods G (gs_methods st)),
            detail ''Gas Usage for Deployments'' (gj_deployments G (gs_deployments st))] in
      (NewContractCheckResult (en_Name EthGasCheckReport) (if gs_success st then CheckSuccess else CheckFail)
        (en_Tool EthGasCheckReport) details (sum_list (map cd_Issue details)))\<lparr>cr_SolcVersion := gs_solc st\<rparr>)"

definition EthGas_Post :: "gas_json \<Rightarrow> string \<Rightarrow> 'y aworld \<Rightarrow> (unit res outcome \<times> 'y aworld) option" where
  "EthGas_Post G dir w =
     (let p = path_of (PathJoin [dir, ''eth-gas-reporter.txt'']) in
      case Stat (w_fs w) p of
        Inl e \<Rightarrow> Some (fail (errno_msg e) w)
      | Inr n \<Rightarrow>
          if denied (w_fs w) p then Some (fail (errno_msg EACCES) w)
          else (case n of
              FDir \<Rightarrow> None
            | FFile d \<Rightarrow>
                (case gas_lines (read_lines d) gas_start of
                   Inl pn \<Rightarrow> Some (crash ''index out of range'' w)
                 | Inr st \<Rightarrow> Some (act_WriteFile (PathJoin [dir, ''total_result.txt''])
                     (ReplaceAll (gj_out G (gas_result G st)) (CHR 0x5C # ''u001b'') []) w))))"

section \<open>What the results say\<close>

subsection \<open>Failed tests\<close>

definition failed_tests :: "TestResult list \<Rightarrow> int" where
  "failed_tests l = int (length (filter (\<lambda>t. tt_Result t = 0) l))"

definition all_failed :: "UnitTestResult list \<Rightarrow> int" where
  "all_failed us = sum_list (map (\<lambda>u. failed_tests (ut_TestResultList u)) us)"

text \<open>Issues are counted in step with the failed tests of finished suites and of the current one.\<close>

definition counted :: "TestResult list \<times> gas_state \<Rightarrow> bool" where
  "counted x \<longleftrightarrow> gs_issues (snd x) = all_failed (gs_tests (snd x)) + failed_tests (fst x) \<and>
     (gs_success (snd x) \<longleftrightarrow> gs_issues (snd x) = 0)"

lemma failed_tests_nonneg: "0 \<le> failed_tests l"
  by (simp add: failed_tests_def)

lemma all_failed_nonneg: "0 \<le> all_failed us"
  unfolding all_failed_def by (rule sum_list_nonneg) (auto simp: failed_tests_nonneg)

lemma all_failed_snoc: "all_failed (us @ [u]) = all_failed us + failed_tests (ut_TestResultList u)"
  by (simp add: all_failed_def)

lemma failed_tests_test_line:
  "failed_tests (fst (test_line s x)) =
     failed_tests (fst x) + (if length s > 8 \<and> numbered (take 8 s) then 1 else 0)"
  by (auto simp: test_line_def failed_tests_def Let_def split: prod.splits)

lemma counted_test_line: "counted (l, st) \<Longrightarrow> counted (test_line s (l, st))"
  using failed_tests_nonneg [of l] all_failed_nonneg [of "gs_tests st"] failed_tests_test_line [of s "(l, st)"]
  by (auto simp: counted_def test_line_def Let_def)

lemma counted_suite: "counted x \<Longrightarrow> counted (fst (suite_lines ls x))"
proof (induction ls x rule: suite_lines.induct)
  case (2 line ls x)
  obtain l st where x: "x = (l, st)"
    by fastforce
  show ?case
    using 2 counted_test_line [of l st] by (auto simp: Let_def x counted_def)
qed simp

lemma counted_suite_block: "counted ([], st) \<Longrightarrow> counted ([], snd (suite_block s ls st))"
  using counted_test_line [of "[]" st s]
    counted_suite [of "(fst x, (snd x)\<lparr>gs_previous := []\<rparr>)" ls for x]
  by (auto simp: suite_block_def Let_def counted_def all_failed_snoc failed_tests_def)

lemma counted_gas_step:
  "gas_step line ls st = Inr (left, st') \<Longrightarrow> counted ([], st) \<Longrightarrow> counted ([], st')"
  using counted_suite_block [of st "TrimLeft line '' ''" ls]
  by (auto simp: gas_step_def table_row_def info_block_def Let_def then_do_Inr_iff counted_def
      split: if_splits)

lemma counted_gas_lines:
  "gas_lines ls st = Inr st' \<Longrightarrow> counted ([], st) \<Longrightarrow> counted ([], st')"
  by (induction ls st rule: gas_lines.induct) (auto dest: counted_gas_step split: sum.splits)



definition demo_gas :: string where
  "demo_gas = ''  Contract: Coin'' @ nl @ ''    1) mints nothing'' @ nl @ ''    '' @ tick @ '' burns'' @ nl"

definition demo_gas_world :: "unit aworld" where
  "demo_gas_world = demo_checks\<lparr>w_fs := \<lparr>fs_nodes = [([''r''], FDir), ([''r'', ''eth-gas-reporter.txt''], FFile demo_gas)],
     fs_deny = []\<rparr>\<rparr>"



subsection \<open>The table of sol-profiler\<close>

text \<open>A row as the tool prints it: contract, function, visibility, view or pure, returns, modifiers.\<close>

definition table_line :: "string list \<Rightarrow> string" where
  "table_line cells = concat (map (\<lambda>c. bar @ c) cells) @ bar"

definition cell_ok :: "string \<Rightarrow> bool" where
  "cell_ok c \<longleftrightarrow> CHR 0xE2 \<notin> set c \<and> CHR ''['' \<notin> set c \<and> CHR ''/'' \<notin> set c"

definition row_cells :: "string list \<Rightarrow> bool" where
  "row_cells cells \<longleftrightarrow> length cells = 6 \<and> list_all cell_ok cells \<and> TrimSpace (hd cells) \<noteq> []"

lemma Contains_Cons: "p \<noteq> [] \<Longrightarrow> Contains (c # s) p \<longleftrightarrow> HasPrefix (c # s) p \<or> Contains s p"
  by (auto simp: Contains_def)

lemma Contains_skip: "c \<notin> set s \<Longrightarrow> Contains (s @ t) (c # p) \<longleftrightarrow> Contains t (c # p)"
  by (induction s) (auto simp: Contains_Cons)

lemma table_line_mark:
  assumes "list_all cell_ok cells" and "x \<noteq> CHR 0x82"
  shows "\<not> Contains (table_line cells) (CHR 0xE2 # CHR 0x94 # x # q)"
  using assms(1)
proof (induction cells)
  case Nil
  then show ?case using assms(2) by (simp add: table_line_def bar_def Contains_def)
next
  case (Cons c cells)
  have "Contains (table_line (c # cells)) (CHR 0xE2 # CHR 0x94 # x # q) \<longleftrightarrow>
      Contains (c @ table_line cells) (CHR 0xE2 # CHR 0x94 # x # q)"
    using assms(2) by (simp add: table_line_def bar_def Contains_Cons)
  then show ?case using Cons Contains_skip [of "CHR 0xE2" c "table_line cells"] by (simp add: cell_ok_def)
qed

lemma split_scan_walk:
  "c \<notin> set s \<Longrightarrow> split_scan (c # sep) cur (s @ t) = split_scan (c # sep) (cur @ s) t"
  by (induction s arbitrary: cur) auto

lemma Split_table_line:
  assumes "list_all cell_ok cells"
  shows "Split (table_line cells) bar = [] # cells @ [[]]"
proof -
  have "split_scan bar cur (table_line cells) = cur # cells @ [[]]" for cur
    using assms
  proof (induction cells arbitrary: cur)
    case Nil
    then show ?case by (simp add: bar_def table_line_def)
  next
    case (Cons c cells)
    have "split_scan bar cur (table_line (c # cells)) = cur # split_scan bar [] (c @ table_line cells)"
      using split_scan_prefix_free [of "CHR 0xE2" "[]" "[CHR 0x94, CHR 0x82]" cur] by (simp add: bar_def table_line_def)
    also have "split_scan bar [] (c @ table_line cells) = c # cells @ [[]]"
      using Cons split_scan_walk [of "CHR 0xE2" c "[CHR 0x94, CHR 0x82]" "[]"] by (simp add: cell_ok_def bar_def)
    finally show ?case by simp
  qed
  then show ?thesis by (simp add: Split_def)
qed

lemma set_table_line: "set (table_line cells) = set bar \<union> \<Union> (set ` set cells)"
  by (auto simp: table_line_def)

text \<open>What the check makes of a row.\<close>

definition profiled :: "string list \<Rightarrow> MethodsDetails" where
  "profiled cells =
     (let t = TrimSpace (cells ! 0); i = Index t ''(library)'' in
      NewMethodsDetails (if i \<noteq> -1 then TrimSpace (take (nat i) t) else t)
        (if i \<noteq> -1 then ''library'' else ''Contract'') (TrimSpace (cells ! 1)) (TrimSpace (cells ! 3)) []
        (TrimSpace (cells ! 4)) (TrimSpace (cells ! 5)))"

lemma profiler_row_cells:
  assumes "length cells = 6"
  shows "profiler_row (TrimSpace (cells ! 0)) ([] # cells @ [[]]) = Inr (profiled cells)"
proof -
  have nth: "index_at ([] # cells @ [[]]) (int (Suc n)) = Inr (cells ! n)" if "n < 6" for n
    using that assms by (simp add: index_at_def nth_append nat_add_distrib)
  note cell = nth [of 1] nth [of 2] nth [of 3] nth [of 4] nth [of 5]
  have cut: "slice t 0 (Index t p) = Inr (take (nat (Index t p)) t)" if "Index t p \<noteq> -1" for t p :: string
    using that str_index_Some [of t p] by (auto simp: Index_def slice_def split: option.splits)
  show ?thesis
    using cell cut [of "TrimSpace (cells ! 0)" "''(library)''"]
    by (simp add: profiler_row_def profiled_def NewMethodsDetails_def Let_def)
qed


definition demo_cells :: "string list" where
  "demo_cells = ['' Math (library) '', '' add(uint,uint) '', '' external '', '' pure '', '' uint '', '' '']"


end
