(* ===== verification/Kube.thy ===== *)
theory Kube
  imports Actions "HOL-Library.While_Combinator"
begin

text \<open>
  Deployment to a cluster: \<open>utils/k8s.go\<close> and the actions \<open>k8s-frontend-deploy\<close>
  (\<open>action_k8s_deploy.go\<close>) and \<open>k8s-assign-domain\<close> (\<open>action_k8s_ingress.go\<close>).  The API server is the record
  \<open>kube_lib\<close>; containers and service ports are what the JSON of the step decodes to, of types \<open>'c\<close> and \<open>'p\<close>.
\<close>

section \<open>Objects of the cluster\<close>

datatype kind = K_Namespace | K_Deployment | K_Service | K_Ingress

record 'c Deployment =
  dp_Name :: string
  dp_Replicas :: int
  dp_Selector :: "(string, string) gomap"
  dp_Labels :: "(string, string) gomap"
  dp_Containers :: "'c list"

record 'p Service =
  sv_Name :: string
  sv_Selector :: "(string, string) gomap"
  sv_Type :: string
  sv_Ports :: "'p list"

text \<open>One rule with one path, and one entry for TLS.\<close>

record Ingress =
  in_Name :: string
  in_Annotations :: "(string, string) gomap"
  in_Host :: string
  in_Path :: string
  in_Service :: string
  in_Port :: int
  in_PathType :: string
  in_TLSHosts :: "string list"
  in_TLSSecret :: string

datatype ('c, 'p) kobject =
    O_Namespace string
  | O_Deployment "'c Deployment"
  | O_Service "'p Service"
  | O_Ingress Ingress

fun kind_of :: "('c, 'p) kobject \<Rightarrow> kind" where
  "kind_of (O_Namespace n) = K_Namespace"
| "kind_of (O_Deployment d) = K_Deployment"
| "kind_of (O_Service s) = K_Service"
| "kind_of (O_Ingress i) = K_Ingress"

fun name_of :: "('c, 'p) kobject \<Rightarrow> string" where
  "name_of (O_Namespace n) = n"
| "name_of (O_Deployment d) = dp_Name d"
| "name_of (O_Service s) = sv_Name s"
| "name_of (O_Ingress i) = in_Name i"

text \<open>
  What the code uses of the client: names of the objects of a kind, creation and update, one service
  by name, the pods of a selector with their phases; and the decoding of the step's JSON.
\<close>

record ('c, 'p, 'w) kube_lib =
  kl_home :: string
  kl_connect :: "string \<Rightarrow> ('w, unit) act"
  kl_list :: "kind \<Rightarrow> string \<Rightarrow> ('w, string list) act"
  kl_create :: "string \<Rightarrow> ('c, 'p) kobject \<Rightarrow> ('w, ('c, 'p) kobject) act"
  kl_update :: "string \<Rightarrow> ('c, 'p) kobject \<Rightarrow> ('w, ('c, 'p) kobject) act"
  kl_service :: "string \<Rightarrow> string \<Rightarrow> ('w, string) act"
  kl_pods :: "string \<Rightarrow> string \<Rightarrow> ('w, (string \<times> string) list) act"
  kl_containers :: "string \<Rightarrow> 'c list res"
  kl_ports :: "string \<Rightarrow> 'p list res"
  kl_port :: "'p \<Rightarrow> int"

section \<open>utils/k8s.go\<close>

definition InitK8sClient :: "('c, 'p, 'y aworld) kube_lib \<Rightarrow> ('y aworld, unit) act" where
  "InitK8sClient K =
     seq (look w_fs) (\<lambda>fs.
     let home = kl_home K;
         kubeConfig = (if home \<noteq> [] then PathJoin [home, ''.kube'', ''config''] else []);
         missing = (Stat fs (path_of kubeConfig) = Inl ENOENT) in
     kl_connect K (if missing then [] else kubeConfig))"

text \<open>Creating an object, or updating the one of its name: what the four functions share.\<close>

definition create_or_update :: "('c, 'p, 'y aworld) kube_lib \<Rightarrow> string \<Rightarrow> ('c, 'p) kobject \<Rightarrow>
    ('y aworld, ('c, 'p) kobject) act" where
  "create_or_update K ns ob =
     seq (kl_list K (kind_of ob) ns) (\<lambda>items.
     if name_of ob \<notin> set items then kl_create K ns ob else kl_update K ns ob)"

definition deployment_spec :: "string \<Rightarrow> 'c list \<Rightarrow> 'c Deployment" where
  "deployment_spec deploymentName container =
     \<lparr>dp_Name = deploymentName, dp_Replicas = 1, dp_Selector = [(''app'', deploymentName)],
      dp_Labels = [(''app'', deploymentName)], dp_Containers = container\<rparr>"

definition CreateDeployment :: "('c, 'p, 'y aworld) kube_lib \<Rightarrow> string \<Rightarrow> string \<Rightarrow> 'c list \<Rightarrow>
    ('y aworld, ('c, 'p) kobject) act" where
  "CreateDeployment K username deploymentName container =
     create_or_update K username (O_Deployment (deployment_spec deploymentName container))"

definition CreateNamespace :: "('c, 'p, 'y aworld) kube_lib \<Rightarrow> string \<Rightarrow> ('y aworld, unit) act" where
  "CreateNamespace K username =
     seq (kl_list K K_Namespace []) (\<lambda>items.
     if username \<notin> set items then seq (kl_create K [] (O_Namespace username)) (\<lambda>ob. ret ()) else ret ())"

definition service_spec :: "string \<Rightarrow> 'p list \<Rightarrow> 'p Service" where
  "service_spec serviceName ports =
     \<lparr>sv_Name = serviceName, sv_Selector = [(''app'', serviceName)], sv_Type = ''NodePort'', sv_Ports = ports\<rparr>"

definition CreateService :: "('c, 'p, 'y aworld) kube_lib \<Rightarrow> string \<Rightarrow> string \<Rightarrow> 'p list \<Rightarrow> ('y aworld, unit) act" where
  "CreateService K username serviceName ports =
     seq (create_or_update K username (O_Service (service_spec serviceName ports))) (\<lambda>ob. ret ())"

definition ingress_spec :: "('c, 'p, 'y aworld) kube_lib \<Rightarrow> (string, string) gomap \<Rightarrow> string list \<Rightarrow> string \<Rightarrow> string \<Rightarrow>
    'p \<Rightarrow> Ingress" where
  "ingress_spec K annotations tlsHost serviceName gateway port =
     \<lparr>in_Name = serviceName @ ''-ingress'', in_Annotations = annotations, in_Host = serviceName @ ''.'' @ gateway,
      in_Path = ''/'', in_Service = serviceName, in_Port = kl_port K port, in_PathType = ''Prefix'',
      in_TLSHosts = tlsHost, in_TLSSecret = ''hamster-tls''\<rparr>"

text \<open>\<open>ports[0]\<close> is read while the object is built, before the server is asked.\<close>

definition CreateIngress :: "('c, 'p, 'y aworld) kube_lib \<Rightarrow> string \<Rightarrow> string \<Rightarrow> string \<Rightarrow> 'p list \<Rightarrow>
    ('y aworld, ('c, 'p) kobject) act" where
  "CreateIngress K namespace serviceName gateway ports =
     seq (checked (index_at ports 0)) (\<lambda>port.
     create_or_update K namespace (O_Ingress (ingress_spec K [(''kubernetes.io/ingress.class'', ''nginx'')]
       [gateway] serviceName gateway port)))"

definition CreateHttpsIngress :: "('c, 'p, 'y aworld) kube_lib \<Rightarrow> string \<Rightarrow> string \<Rightarrow> string \<Rightarrow> 'p list \<Rightarrow>
    ('y aworld, ('c, 'p) kobject) act" where
  "CreateHttpsIngress K namespace serviceName gateway ports =
     seq (checked (index_at ports 0)) (\<lambda>port.
     create_or_update K namespace (O_Ingress (ingress_spec K
       [(''cert-manager.io/cluster-issuer'', ''letsencrypt-prod''), (''kubernetes.io/ingress.class'', ''nginx''),
        (''nginx.ingress.kubernetes.io/proxy-read-timeout'', ''3600''),
        (''nginx.ingress.kubernetes.io/proxy-send-timeout'', ''3600'')]
       [serviceName @ ''.'' @ gateway] serviceName gateway port)))"

text \<open>The request for the logs of the first pod: its name and container; none when there is no pod.\<close>

definition GetPodLogs :: "('c, 'p, 'y aworld) kube_lib \<Rightarrow> string \<Rightarrow> string \<Rightarrow> string \<Rightarrow>
    ('y aworld, (string \<times> string) option) act" where
  "GetPodLogs K containerName deploymentName namespace =
     seq (InitK8sClient K) (\<lambda>u.
     seq (kl_pods K namespace (''app='' @ deploymentName)) (\<lambda>pods.
     ret (case pods of [] \<Rightarrow> None | (pod, phase) # ps \<Rightarrow> Some (pod, containerName))))"

section \<open>action_k8s_deploy.go\<close>

record K8sDeployAction =
  kd_namespace :: string
  kd_containers :: string
  kd_projectName :: string
  kd_servicePorts :: string

definition NewK8sDeployAction :: "Step \<Rightarrow> K8sDeployAction" where
  "NewK8sDeployAction step =
     \<lparr>kd_namespace = step_with step ''namespace'', kd_containers = step_with step ''containers'',
      kd_projectName = step_with step ''project_name'', kd_servicePorts = step_with step ''service_ports''\<rparr>"

definition K8sDeploy_Pre :: "K8sDeployAction \<Rightarrow> ('y aworld, K8sDeployAction) act" where
  "K8sDeploy_Pre k =
     seq (ctx_map ''parameter'') (\<lambda>params.
     seq (checked (ReplaceWithParam (kd_namespace k) params)) (\<lambda>namespace.
     seq (checked (ReplaceWithParam (kd_containers k) params)) (\<lambda>containers.
     seq (checked (ReplaceWithParam (kd_projectName k) params)) (\<lambda>projectName.
     seq (checked (ReplaceWithParam (kd_servicePorts k) params)) (\<lambda>servicePorts.
     ret (k\<lparr>kd_namespace := namespace, kd_containers := containers, kd_projectName := projectName,
       kd_servicePorts := servicePorts\<rparr>))))))"

text \<open>An error goes to the log of the run, behind a message, on its way out.\<close>

definition logged_as :: "'y os_lib \<Rightarrow> string \<Rightarrow> ('y aworld, 'a) act \<Rightarrow> ('y aworld, 'a) act" where
  "logged_as OS msg m = seq (attempt m) (\<lambda>r. case r of
     Inl e \<Rightarrow> seq (out_line OS (''[ERROR]: '' @ msg @ '', '' @ e)) (\<lambda>u. fail e) | Inr x \<Rightarrow> ret x)"

definition decoded :: "'a res \<Rightarrow> ('w, 'a) act" where
  "decoded r = (case r of Inl e \<Rightarrow> fail e | Inr x \<Rightarrow> ret x)"

definition K8sDeploy_Hook :: "'y os_lib \<Rightarrow> ('c, 'p, 'y aworld) kube_lib \<Rightarrow> K8sDeployAction \<Rightarrow>
    ('y aworld, ActionResult option) act" where
  "K8sDeploy_Hook OS K k =
     seq (logged_as OS ''k8s client init failed'' (InitK8sClient K)) (\<lambda>u.
     seq (logged_as OS ''k8s create namespace failed'' (CreateNamespace K (kd_namespace k))) (\<lambda>u.
     seq (logged_as OS ''k8s containers format failed'' (decoded (kl_containers K (kd_containers k)))) (\<lambda>containers.
     seq (logged_as OS ''create service failed''
           (CreateDeployment K (kd_namespace k) (kd_projectName k) containers)) (\<lambda>d.
     seq (logged_as OS ''k8s service ports format failed'' (decoded (kl_ports K (kd_servicePorts k)))) (\<lambda>servicePorts.
     seq (logged_as OS ''create service failed''
           (CreateService K (kd_namespace k) (kd_projectName k) servicePorts)) (\<lambda>u.
     ret None))))))"

definition K8sDeploy_Post :: "('y aworld, unit) act" where
  "K8sDeploy_Post = ret ()"

section \<open>action_k8s_ingress.go\<close>

record K8sIngressAction =
  ki_gateway :: string
  ki_namespace :: string
  ki_projectName :: string
  ki_servicePorts :: string
  ki_configHttps :: string

definition NewK8sIngressAction :: "Step \<Rightarrow> K8sIngressAction" where
  "NewK8sIngressAction step =
     \<lparr>ki_gateway = step_with step ''gateway'', ki_namespace = step_with step ''namespace'',
      ki_projectName = step_with step ''project_name'', ki_servicePorts = step_with step ''service_ports'',
      ki_configHttps = step_with step ''config_https''\<rparr>"

definition K8sIngress_Pre :: "K8sIngressAction \<Rightarrow> ('y aworld, K8sIngressAction) act" where
  "K8sIngress_Pre k =
     seq (ctx_map ''parameter'') (\<lambda>params.
     seq (checked (ReplaceWithParam (ki_gateway k) params)) (\<lambda>gateway.
     seq (checked (ReplaceWithParam (ki_namespace k) params)) (\<lambda>namespace.
     seq (checked (ReplaceWithParam (ki_projectName k) params)) (\<lambda>projectName.
     seq (checked (ReplaceWithParam (ki_servicePorts k) params)) (\<lambda>servicePorts.
     ret (k\<lparr>ki_gateway := gateway, ki_namespace := namespace, ki_projectName := projectName,
       ki_servicePorts := servicePorts\<rparr>))))))"

text \<open>
  One look at the pods.  The errors of both calls are dropped; the name of a service that was not found
  is empty, and pods that could not be listed are none.
\<close>

definition pod_phase :: "('c, 'p, 'y aworld) kube_lib \<Rightarrow> string \<Rightarrow> string \<Rightarrow> ('y aworld, string option) act" where
  "pod_phase K namespace projectName =
     seq (attempt (kl_service K namespace projectName)) (\<lambda>service.
     seq (attempt (kl_pods K namespace (''app='' @ (case service of Inl e \<Rightarrow> [] | Inr n \<Rightarrow> n)))) (\<lambda>pods.
     ret (case pods of Inr ((pod, phase) # ps) \<Rightarrow> Some phase | _ \<Rightarrow> None)))"

text \<open>The loop has no pause and no bound: \<open>None\<close> when no look ever ends it.\<close>

definition look_at_pods :: "('c, 'p, 'y aworld) kube_lib \<Rightarrow> string \<Rightarrow> string \<Rightarrow>
    unit res outcome option \<times> 'y aworld \<Rightarrow> unit res outcome option \<times> 'y aworld" where
  "look_at_pods K namespace projectName x =
     (case pod_phase K namespace projectName (snd x) of
        (Returns (Inr phase), w) \<Rightarrow>
          (if phase = Some ''Running'' then Some (Returns (Inr ()))
           else if phase = Some ''Failed'' then Some (Returns (Inl ''container deploy failed'')) else None, w)
      | (Returns (Inl e), w) \<Rightarrow> (Some (Returns (Inl e)), w)
      | (RuntimePanic m, w) \<Rightarrow> (Some (RuntimePanic m), w)
      | (OtherPanic, w) \<Rightarrow> (Some OtherPanic, w))"

definition wait_for_pod :: "('c, 'p, 'y aworld) kube_lib \<Rightarrow> string \<Rightarrow> string \<Rightarrow> 'y aworld \<Rightarrow>
    (unit res outcome option \<times> 'y aworld) option" where
  "wait_for_pod K namespace projectName w =
     while_option (\<lambda>x. fst x = None) (look_at_pods K namespace projectName) (None, w)"

definition ingress_url :: "K8sIngressAction \<Rightarrow> string" where
  "ingress_url k =
     (if ki_configHttps k = ''true'' then ''wss://'' else ''https://'') @ ki_projectName k @ ''.'' @ ki_gateway k"

definition deploy_ingress :: "'y os_lib \<Rightarrow> ('c, 'p, 'y aworld) kube_lib \<Rightarrow> K8sIngressAction \<Rightarrow>
    ('y aworld, ('c, 'p) kobject) act" where
  "deploy_ingress OS K k =
     seq (logged_as OS ''k8s client init failed'' (InitK8sClient K)) (\<lambda>u.
     seq (logged_as OS ''k8s service ports format failed'' (decoded (kl_ports K (ki_servicePorts k)))) (\<lambda>servicePorts.
     logged_as OS ''k8s create ingress failed''
       ((if ki_configHttps k = ''true'' then CreateHttpsIngress K else CreateIngress K)
         (ki_namespace k) (ki_projectName k) (ki_gateway k) servicePorts)))"

definition K8sIngress_Hook :: "'y os_lib \<Rightarrow> ('c, 'p, 'y aworld) kube_lib \<Rightarrow> K8sIngressAction \<Rightarrow> 'y aworld \<Rightarrow>
    (ActionResult option res outcome \<times> 'y aworld) option" where
  "K8sIngress_Hook OS K k w =
     (case deploy_ingress OS K k w of
        (Returns (Inr ob), w1) \<Rightarrow>
          (case wait_for_pod K (ki_namespace k) (ki_projectName k) w1 of
             Some (Some r, w2) \<Rightarrow>
               Some (seq (\<lambda>w. (r, w)) (\<lambda>u. ret (Some (empty_ActionResult\<lparr>ar_Deploys :=
                 [\<lparr>dep_Name = [], dep_Cid = [], dep_Url = ingress_url k\<rparr>]\<rparr>))) w2)
           | _ \<Rightarrow> None)
      | (Returns (Inl e), w1) \<Rightarrow> Some (Returns (Inl e), w1)
      | (RuntimePanic m, w1) \<Rightarrow> Some (RuntimePanic m, w1)
      | (OtherPanic, w1) \<Rightarrow> Some (OtherPanic, w1))"

definition K8sIngress_Post :: "('y aworld, unit) act" where
  "K8sIngress_Post = ret ()"


section \<open>What a deployment leaves in the cluster\<close>

type_synonym ('c, 'p) cluster = "kind \<times> string \<times> string \<Rightarrow> ('c, 'p) kobject option"

definition key_of :: "string \<Rightarrow> ('c, 'p) kobject \<Rightarrow> kind \<times> string \<times> string" where
  "key_of ns ob = (kind_of ob, ns, name_of ob)"

text \<open>
  An API server that is up: \<open>view\<close> is the content of the cluster.  Listing returns the names there are,
  creating a new object and updating an existing one store it, everything else leaves the content
  alone, and a service that exists is found.
\<close>

definition kube_server :: "('c, 'p, 'w) kube_lib \<Rightarrow> ('w \<Rightarrow> ('c, 'p) cluster) \<Rightarrow> bool" where
  "kube_server K view \<longleftrightarrow>
     (\<forall>p w. \<exists>w'. kl_connect K p w = (Returns (Inr ()), w') \<and> view w' = view w) \<and>
     (\<forall>kd ns w. \<exists>l w'. kl_list K kd ns w = (Returns (Inr l), w') \<and> set l = {n. view w (kd, ns, n) \<noteq> None} \<and>
        view w' = view w) \<and>
     (\<forall>ns ob w. view w (key_of ns ob) = None \<longrightarrow>
        (\<exists>w'. kl_create K ns ob w = (Returns (Inr ob), w') \<and> view w' = (view w)(key_of ns ob \<mapsto> ob))) \<and>
     (\<forall>ns ob w. view w (key_of ns ob) \<noteq> None \<longrightarrow>
        (\<exists>w'. kl_update K ns ob w = (Returns (Inr ob), w') \<and> view w' = (view w)(key_of ns ob \<mapsto> ob))) \<and>
     (\<forall>ns n w. \<exists>r w'. kl_service K ns n w = (Returns r, w') \<and> view w' = view w) \<and>
     (\<forall>ns l w. \<exists>r w'. kl_pods K ns l w = (Returns r, w') \<and> view w' = view w)"

lemma server_laws:
  assumes "kube_server K view"
  shows server_up: "\<exists>w'. kl_connect K p w = (Returns (Inr ()), w') \<and> view w' = view w"
    and server_list: "\<exists>l w'. kl_list K kd ns w = (Returns (Inr l), w') \<and>
      set l = {n. view w (kd, ns, n) \<noteq> None} \<and> view w' = view w"
    and server_create: "view w (key_of ns ob) = None \<Longrightarrow>
      \<exists>w'. kl_create K ns ob w = (Returns (Inr ob), w') \<and> view w' = (view w)(key_of ns ob \<mapsto> ob)"
    and server_update: "view w (key_of ns ob) \<noteq> None \<Longrightarrow>
      \<exists>w'. kl_update K ns ob w = (Returns (Inr ob), w') \<and> view w' = (view w)(key_of ns ob \<mapsto> ob)"
    and server_service: "\<exists>r w'. kl_service K ns n w = (Returns r, w') \<and> view w' = view w"
    and server_pods: "\<exists>r w'. kl_pods K ns l w = (Returns r, w') \<and> view w' = view w"
  using assms unfolding kube_server_def by blast+

lemma server_connect:
  assumes "kube_server K view"
  shows "\<exists>w'. InitK8sClient K w = (Returns (Inr ()), w') \<and> view w' = view w"
  using server_up [OF assms] by (simp add: InitK8sClient_def seq_def look_def Let_def)

lemma server_upsert:
  assumes "kube_server K view"
  shows "\<exists>w'. create_or_update K ns ob w = (Returns (Inr ob), w') \<and> view w' = (view w)(key_of ns ob \<mapsto> ob)"
proof -
  obtain l w1 where l: "kl_list K (kind_of ob) ns w = (Returns (Inr l), w1)"
    "set l = {n. view w (kind_of ob, ns, n) \<noteq> None}" "view w1 = view w"
    using server_list [OF assms, of "kind_of ob" ns w] by blast
  have new: "name_of ob \<notin> set l \<longleftrightarrow> view w1 (key_of ns ob) = None"
    using l(2,3) by (simp add: key_of_def)
  have run: "create_or_update K ns ob w =
      (if name_of ob \<notin> set l then kl_create K ns ob else kl_update K ns ob) w1"
    using l(1) by (simp add: create_or_update_def seq_Returns)
  show ?thesis
    unfolding run new l(3) [symmetric]
    using server_create [OF assms, of w1 ns ob] server_update [OF assms, of w1 ns ob] by simp
qed

definition with_namespace :: "string \<Rightarrow> ('c, 'p) cluster \<Rightarrow> ('c, 'p) cluster" where
  "with_namespace ns m = (if m (K_Namespace, [], ns) = None then m((K_Namespace, [], ns) \<mapsto> O_Namespace ns) else m)"

lemma server_namespace:
  assumes "kube_server K view"
  shows "\<exists>w'. CreateNamespace K ns w = (Returns (Inr ()), w') \<and> view w' = with_namespace ns (view w)"
proof -
  obtain l w1 where l: "kl_list K K_Namespace [] w = (Returns (Inr l), w1)"
    "set l = {n. view w (K_Namespace, [], n) \<noteq> None}" "view w1 = view w"
    using server_list [OF assms, of K_Namespace "[]" w] by blast
  show ?thesis
  proof (cases "view w (K_Namespace, [], ns) = None")
    case True
    then obtain w2 where "kl_create K [] (O_Namespace ns) w1 = (Returns (Inr (O_Namespace ns)), w2)"
      "view w2 = (view w)((K_Namespace, [], ns) \<mapsto> O_Namespace ns)"
      using server_create [OF assms, of w1 "[]" "O_Namespace ns"] l(3) by (auto simp: key_of_def)
    then show ?thesis
      using True l(1,2) by (simp add: CreateNamespace_def with_namespace_def seq_Returns ret_def)
  next
    case False
    then show ?thesis using l by (auto simp: CreateNamespace_def with_namespace_def seq_Returns ret_def)
  qed
qed

lemma logged_as_ok: "m w = (Returns (Inr x), w') \<Longrightarrow> logged_as OS msg m w = (Returns (Inr x), w')"
  by (simp add: logged_as_def seq_def attempt_def ret_def)

text \<open>The cluster with the namespace, the deployment and the service of a project.\<close>

definition deployed :: "string \<Rightarrow> string \<Rightarrow> 'c list \<Rightarrow> 'p list \<Rightarrow> ('c, 'p) cluster \<Rightarrow> ('c, 'p) cluster" where
  "deployed ns project cs ps m =
     (with_namespace ns m)((K_Deployment, ns, project) \<mapsto> O_Deployment (deployment_spec project cs),
       (K_Service, ns, project) \<mapsto> O_Service (service_spec project ps))"

lemma deploy_hook:
  fixes view :: "'y aworld \<Rightarrow> ('c, 'p) cluster"
  assumes "kube_server K view" and "kl_containers K (kd_containers k) = Inr cs"
    and "kl_ports K (kd_servicePorts k) = Inr ps"
  shows "\<exists>w'. K8sDeploy_Hook OS K k w = (Returns (Inr None), w') \<and>
    view w' = deployed (kd_namespace k) (kd_projectName k) cs ps (view w)"
proof -
  let ?ns = "kd_namespace k" and ?d = "O_Deployment (deployment_spec (kd_projectName k) cs) :: ('c, 'p) kobject"
    and ?s = "O_Service (service_spec (kd_projectName k) ps) :: ('c, 'p) kobject"
  obtain w1 where w1: "InitK8sClient K w = (Returns (Inr ()), w1)" "view w1 = view w"
    using server_connect [OF assms(1), of w] by blast
  obtain w2 where w2: "CreateNamespace K ?ns w1 = (Returns (Inr ()), w2)" "view w2 = with_namespace ?ns (view w)"
    using server_namespace [OF assms(1), of ?ns w1] unfolding w1(2) by (elim exE conjE) (rule that)
  obtain w3 where w3: "create_or_update K ?ns ?d w2 = (Returns (Inr ?d), w3)" "view w3 = (view w2)(key_of ?ns ?d \<mapsto> ?d)"
    using server_upsert [OF assms(1), of ?ns ?d w2] by (elim exE conjE) (rule that)
  obtain w4 where w4: "create_or_update K ?ns ?s w3 = (Returns (Inr ?s), w4)" "view w4 = (view w3)(key_of ?ns ?s \<mapsto> ?s)"
    using server_upsert [OF assms(1), of ?ns ?s w3] by (elim exE conjE) (rule that)
  have d: "CreateDeployment K ?ns (kd_projectName k) cs w2 = (Returns (Inr ?d), w3)"
    using w3(1) by (simp only: CreateDeployment_def)
  have s: "CreateService K ?ns (kd_projectName k) ps w3 = (Returns (Inr ()), w4)"
    using w4(1) by (simp add: CreateService_def seq_Returns ret_def)
  have cs: "decoded (kl_containers K (kd_containers k)) w2 = (Returns (Inr cs), w2)"
    and ps: "decoded (kl_ports K (kd_servicePorts k)) w3 = (Returns (Inr ps), w3)"
    using assms(2,3) by (simp_all add: decoded_def ret_def)
  have "K8sDeploy_Hook OS K k w = (Returns (Inr None), w4)"
    unfolding K8sDeploy_Hook_def
    by (simp add: seq_Returns logged_as_ok w1(1) w2(1) cs d ps s ret_def)
  then show ?thesis
    using w2 w3 w4 by (simp add: deployed_def key_of_def deployment_spec_def service_spec_def)
qed

lemma deployed_again: "deployed ns project cs ps (deployed ns project cs ps m) = deployed ns project cs ps m"
  by (auto simp: deployed_def with_namespace_def fun_eq_iff)



section \<open>A deployed project can be reached\<close>

lemma look_keeps:
  assumes "kube_server K view"
  shows "view (snd (look_at_pods K ns n x)) = view (snd x)"
proof -
  obtain r w1 where r: "kl_service K ns n (snd x) = (Returns r, w1)" "view w1 = view (snd x)"
    using server_service [OF assms, of ns n "snd x"] by blast
  obtain ps w2 where ps: "kl_pods K ns (''app='' @ (case r of Inl e \<Rightarrow> [] | Inr m \<Rightarrow> m)) w1 = (Returns ps, w2)"
    "view w2 = view w1"
    using server_pods [OF assms, of ns "''app='' @ (case r of Inl e \<Rightarrow> [] | Inr m \<Rightarrow> m)" w1] by blast
  have "pod_phase K ns n (snd x) =
      (Returns (Inr (case ps of Inr ((pod, phase) # ps') \<Rightarrow> Some phase | _ \<Rightarrow> None)), w2)"
    using r(1) ps(1) by (simp add: pod_phase_def seq_def attempt_def ret_def)
  then have "snd (look_at_pods K ns n x) = w2" by (simp add: look_at_pods_def)
  then show ?thesis using r(2) ps(2) by simp
qed

lemma wait_keeps:
  assumes "kube_server K view" and "wait_for_pod K ns n w = Some y"
  shows "view (snd y) = view w"
  by (rule while_option_rule [where P = "\<lambda>x. view (snd x) = view w", OF _ assms(2) [unfolded wait_for_pod_def]])
    (simp_all add: look_keeps [OF assms(1)])

lemma logged_as_Inr: "logged_as OS msg m w = (Returns (Inr x), w') \<longleftrightarrow> m w = (Returns (Inr x), w')"
  by (auto simp: logged_as_def seq_def attempt_def ret_def fail_def out_line_def upd_def
    split: prod.splits outcome.splits sum.splits)

lemma checked_Inr: "checked r w = (Returns (Inr x), w') \<longleftrightarrow> r = Inr x \<and> w' = w"
  by (auto simp: checked_def split: sum.splits panic.splits)

definition reaches :: "('c, 'p, 'y aworld) kube_lib \<Rightarrow> 'c Deployment \<Rightarrow> 'p Service \<Rightarrow> Ingress \<Rightarrow> bool" where
  "reaches K d s i \<longleftrightarrow> sv_Selector s = dp_Labels d \<and> dp_Selector d = dp_Labels d \<and> in_Service i = sv_Name s \<and>
     (\<exists>p \<in> set (sv_Ports s). in_Port i = kl_port K p)"

lemma deploy_ingress_ok:
  fixes view :: "'y aworld \<Rightarrow> ('c, 'p) cluster"
  assumes "kube_server K view" and "deploy_ingress OS K k w = (Returns (Inr ob), w1)"
    and "kl_ports K (ki_servicePorts k) = Inr ps"
  shows "\<exists>i p. p \<in> set ps \<and> in_Name i = ki_projectName k @ ''-ingress'' \<and> in_Service i = ki_projectName k \<and>
    in_Host i = ki_projectName k @ ''.'' @ ki_gateway k \<and> in_Port i = kl_port K p \<and>
    view w1 = (view w)((K_Ingress, ki_namespace k, in_Name i) \<mapsto> O_Ingress i)"
proof -
  obtain w0 where w0: "InitK8sClient K w = (Returns (Inr ()), w0)" "view w0 = view w"
    using server_connect [OF assms(1), of w] by blast
  have ps: "decoded (kl_ports K (ki_servicePorts k)) w0 = (Returns (Inr ps), w0)"
    using assms(3) by (simp add: decoded_def ret_def)
  have "\<exists>p ann tls. index_at ps 0 = Inr p \<and> create_or_update K (ki_namespace k)
      (O_Ingress (ingress_spec K ann tls (ki_projectName k) (ki_gateway k) p)) w0 = (Returns (Inr ob), w1)"
    using assms(2)
    by (auto simp: deploy_ingress_def seq_Inr_iff logged_as_Inr w0(1) ps CreateIngress_def CreateHttpsIngress_def
      checked_Inr split: if_splits)
  then obtain p ann tls where c: "index_at ps 0 = Inr p" "create_or_update K (ki_namespace k)
      (O_Ingress (ingress_spec K ann tls (ki_projectName k) (ki_gateway k) p)) w0 = (Returns (Inr ob), w1)"
    by blast
  define i where "i = ingress_spec K ann tls (ki_projectName k) (ki_gateway k) p"
  have "p \<in> set ps" using c(1) by (auto simp: index_at_def split: if_splits)
  moreover have "view w1 = (view w)((K_Ingress, ki_namespace k, in_Name i) \<mapsto> O_Ingress i)"
    using server_upsert [OF assms(1), of "ki_namespace k" "O_Ingress i" w0] c(2) w0(2)
    by (auto simp: key_of_def i_def)
  ultimately show ?thesis
    by (intro exI [of _ i] exI [of _ p]) (simp add: i_def ingress_spec_def)
qed



section \<open>A server in memory\<close>

type_synonym demo_objects = "(kind \<times> string \<times> string, (string, int) kobject) gomap"

definition demo_put :: "string \<Rightarrow> (string, int) kobject \<Rightarrow> (demo_objects aworld, (string, int) kobject) act" where
  "demo_put ns ob =
     seq (upd (\<lambda>w. w\<lparr>w_ext := (w_ext w)\<lparr>ax_rest := m_store (key_of ns ob) ob (ax_rest (w_ext w))\<rparr>\<rparr>)) (\<lambda>u. ret ob)"

definition demo_kube :: "(string, int, demo_objects aworld) kube_lib" where
  "demo_kube = \<lparr>kl_home = ''/h'', kl_connect = (\<lambda>p. ret ()),
     kl_list = (\<lambda>kd ns. look (\<lambda>w. map (\<lambda>x. snd (snd (fst x)))
       (filter (\<lambda>x. fst (fst x) = kd \<and> fst (snd (fst x)) = ns) (ax_rest (w_ext w))))),
     kl_create = demo_put, kl_update = demo_put, kl_service = (\<lambda>ns n. ret n),
     kl_pods = (\<lambda>ns l. ret [(''pod'', ''Running'')]),
     kl_containers = (\<lambda>s. Inr [s]), kl_ports = (\<lambda>s. Inr [80]), kl_port = id\<rparr>"

definition demo_view :: "demo_objects aworld \<Rightarrow> (string, int) cluster" where
  "demo_view w = m_load (ax_rest (w_ext w))"

lemma m_load_keys: "m_load m k \<noteq> None \<longleftrightarrow> k \<in> fst ` set m"
  by (simp add: m_load_def map_of_eq_None_iff)

lemma demo_put_view: "\<exists>w'. demo_put ns ob w = (Returns (Inr ob), w') \<and> demo_view w' = (demo_view w)(key_of ns ob \<mapsto> ob)"
  by (simp add: demo_put_def demo_view_def seq_def upd_def ret_def fun_eq_iff)

lemma demo_names:
  "set (map (\<lambda>x. snd (snd (fst x))) (filter (\<lambda>x. fst (fst x) = kd \<and> fst (snd (fst x)) = ns) m)) =
     {n. m_load m (kd, ns, n) \<noteq> None}"
  unfolding m_load_keys by force

lemma demo_server: "kube_server demo_kube demo_view"
  unfolding kube_server_def
proof (intro conjI allI impI)
  fix kd ns and w :: "demo_objects aworld"
  show "\<exists>l w'. kl_list demo_kube kd ns w = (Returns (Inr l), w') \<and> set l = {n. demo_view w (kd, ns, n) \<noteq> None} \<and>
      demo_view w' = demo_view w"
    using demo_names [of kd ns "ax_rest (w_ext w)"] by (simp add: demo_kube_def look_def demo_view_def)
qed (use demo_put_view in \<open>simp_all add: demo_kube_def ret_def\<close>)

definition demo_deploy :: K8sDeployAction where
  "demo_deploy = \<lparr>kd_namespace = ''n'', kd_containers = ''c'', kd_projectName = ''p'', kd_servicePorts = ''80''\<rparr>"

definition demo_assign :: K8sIngressAction where
  "demo_assign = \<lparr>ki_gateway = ''g'', ki_namespace = ''n'', ki_projectName = ''p'', ki_servicePorts = ''80'',
     ki_configHttps = ''true''\<rparr>"


lemma demo_ingress:
  "\<exists>r w2. K8sIngress_Hook OS demo_kube demo_assign w = Some (Returns (Inr (Some r)), w2)"
proof -
  obtain w0 where w0: "InitK8sClient demo_kube w = (Returns (Inr ()), w0)"
    using server_connect [OF demo_server, of w] by blast
  have ps: "decoded (kl_ports demo_kube t) w0 = (Returns (Inr [80]), w0)" for t
    by (simp add: demo_kube_def decoded_def ret_def)
  have https: "ki_configHttps demo_assign = ''true''" by (simp add: demo_assign_def)
  have up: "\<exists>ob' w1. create_or_update demo_kube ns ob w0 = (Returns (Inr ob'), w1)" for ns ob
    using server_upsert [OF demo_server] by blast
  have "\<exists>ob w1. CreateHttpsIngress demo_kube (ki_namespace demo_assign) (ki_projectName demo_assign)
      (ki_gateway demo_assign) [80] w0 = (Returns (Inr ob), w1)"
    unfolding CreateHttpsIngress_def using up by (simp add: seq_Returns checked_def index_at_def)
  then obtain ob w1 where "CreateHttpsIngress demo_kube (ki_namespace demo_assign) (ki_projectName demo_assign)
      (ki_gateway demo_assign) [80] w0 = (Returns (Inr ob), w1)"
    by blast
  then have "deploy_ingress OS demo_kube demo_assign w = (Returns (Inr ob), w1)"
    using w0 ps https by (simp add: deploy_ingress_def seq_Returns logged_as_ok)
  moreover have "wait_for_pod demo_kube ns n w1 = Some (Some (Returns (Inr ())), w1)" for ns n
    by (simp add: wait_for_pod_def while_option_unfold look_at_pods_def pod_phase_def demo_kube_def seq_def
      attempt_def ret_def)
  ultimately show ?thesis by (simp add: K8sIngress_Hook_def seq_def ret_def)
qed


end
