(* ===== verification/Deploy.thy ===== *)
theory Deploy
  imports Artifacts Http
begin

text \<open>
  Deployment to the Internet Computer and to IPFS: the context of an action (\<open>ctx/action_context.go\<close>),
  the lock around \<open>dfx\<close> (\<open>utils/lock.go\<close>), \<open>icp-build\<close> (\<open>action_icp_build.go\<close>), \<open>icp-deploy\<close>
  (\<open>action_icp_deploy.go\<close>) and \<open>hamster-ipfs\<close> (\<open>action_ipfs.go\<close>).
\<close>

section \<open>ctx/action_context.go\<close>

definition GetId :: "('y aworld, string) act" where
  "GetId = ctx_string ''id''"

definition GetWorkdir :: "('y aworld, string) act" where
  "GetWorkdir = ctx_string ''workdir''"

definition GetUserId :: "('y aworld, string) act" where
  "GetUserId = ctx_string ''userId''"

definition GetJobName :: "('y aworld, string) act" where
  "GetJobName = ctx_string ''name''"

definition GetParameters :: "('y aworld, (string, string) gomap) act" where
  "GetParameters = ctx_map ''parameter''"

section \<open>What the actions use\<close>

text \<open>
  The canisters of a \<open>dfx.json\<close>; the network of the environment; the distributed lock; the text
  \<open>fmt.Errorf\<close> makes of a format without arguments; the scheme, the request URI and the text of a URL;
  a download (what could be read of the body); reading an archive; adding a directory to IPFS.
\<close>

type_synonym canisters = "(string, (string, json) gomap) gomap"

record 'y net_lib =
  nl_dfx :: "string \<Rightarrow> canisters res"
  nl_network :: string
  nl_lock :: "('y aworld, unit) act"
  nl_unlock :: "'y aworld \<Rightarrow> 'y aworld"
  nl_errorf :: "string \<Rightarrow> error"
  nl_url :: "string \<Rightarrow> (string \<times> string \<times> string) res"
  nl_get :: "string \<Rightarrow> ('y aworld, string) act"
  nl_unzip :: "string \<Rightarrow> zip res"
  nl_addDir :: "string \<Rightarrow> string \<Rightarrow> ('y aworld, string) act"

definition icNetwork :: "'y net_lib \<Rightarrow> string" where
  "icNetwork N = (if nl_network N = [] then ''local'' else nl_network N)"

definition dfxBin :: string where "dfxBin = ''/usr/local/bin/dfx''"

text \<open>\<open>utils.Lock\<close> and the deferred \<open>utils.Unlock\<close>, which runs after a panic as well.\<close>

definition with_lock :: "'y net_lib \<Rightarrow> ('y aworld, 'a) act \<Rightarrow> ('y aworld, 'a) act" where
  "with_lock N m =
     seq (nl_lock N) (\<lambda>u w. case m w of (r, w') \<Rightarrow> (r, nl_unlock N w'))"

text \<open>
  \<open>os.RemoveAll\<close>: everything below goes, except what is in a directory that cannot be listed and what
  leads there; then it returns an error.
\<close>

definition kept :: "fs \<Rightarrow> path \<Rightarrow> path \<Rightarrow> bool" where
  "kept fs p q \<longleftrightarrow> list_ex (\<lambda>d. prefix p d \<and> fs_children fs d \<noteq> [] \<and> (prefix d q \<or> prefix q d)) (fs_deny fs)"

definition RemoveAll :: "path \<Rightarrow> fs \<Rightarrow> errno option \<times> fs" where
  "RemoveAll p fs =
     (case Stat fs p of
        Inl e \<Rightarrow> (if e = ENOENT then None else Some e, fs)
      | Inr n \<Rightarrow>
          if p = [] then (Some EINVAL, fs)
          else (if kept fs p p then Some EACCES else None,
            fs\<lparr>fs_nodes := filter (\<lambda>(q, x). \<not> prefix p q \<or> kept fs p q) (fs_nodes fs)\<rparr>))"

definition act_RemoveAll :: "string \<Rightarrow> ('y aworld, unit) act" where
  "act_RemoveAll p w =
     (case RemoveAll (path_of p) (w_fs w) of
        (None, fs') \<Rightarrow> (Returns (Inr ()), w\<lparr>w_fs := fs'\<rparr>)
      | (Some e, fs') \<Rightarrow> (Returns (Inl (errno_msg e)), w\<lparr>w_fs := fs'\<rparr>))"

definition decode :: "'a res \<Rightarrow> ('w, 'a) act" where
  "decode r = (case r of Inl e \<Rightarrow> fail e | Inr x \<Rightarrow> ret x)"

text \<open>A command whose output goes to the log of the run.\<close>

definition dfx_logged :: "'y os_lib \<Rightarrow> string list \<Rightarrow> string \<Rightarrow> ('y aworld, string) act" where
  "dfx_logged OS args workdir =
     seq (act_run_cmd OS (dfxBin # args) workdir) (\<lambda>(output, err).
     seq (out_line OS output) (\<lambda>u. case err of Some e \<Rightarrow> fail e | None \<Rightarrow> ret output))"

definition dfx_quiet :: "'y os_lib \<Rightarrow> string list \<Rightarrow> string \<Rightarrow> ('y aworld, string) act" where
  "dfx_quiet OS args workdir =
     seq (act_run_cmd OS (dfxBin # args) workdir) (\<lambda>(output, err). case err of Some e \<Rightarrow> fail e | None \<Rightarrow> ret output)"

section \<open>action_icp_build.go\<close>

record ICPBuildAction =
  ib_userId :: string
  ib_dfxJson :: string

definition NewICPBuildAction :: "'y os_lib \<Rightarrow> Step \<Rightarrow> ('y aworld, ICPBuildAction) act" where
  "NewICPBuildAction OS step =
     seq GetUserId (\<lambda>userId.
     seq GetParameters (\<lambda>params.
     seq (checked (ReplaceWithParam (step_with step ''dfx_json'') params)) (\<lambda>dfxJson.
     seq (out_line OS (''dfx.json: '' @ dfxJson)) (\<lambda>u.
     ret \<lparr>ib_userId = userId, ib_dfxJson = dfxJson\<rparr>))))"

definition ICPBuild_Pre :: "ICPBuildAction \<Rightarrow> ('y aworld, unit) act" where
  "ICPBuild_Pre a =
     seq GetWorkdir (\<lambda>workdir.
     seq (attempt (act_RemoveAll (PathJoin [workdir, ''.dfx'']))) (\<lambda>r.
     seq (attempt (act_WriteFile (PathJoin [workdir, ''dfx.json'']) (ib_dfxJson a))) (\<lambda>r.
     ret ())))"

definition did_path :: "string \<Rightarrow> string \<Rightarrow> string \<Rightarrow> string" where
  "did_path workdir network canisterId =
     PathJoin [workdir, ''.dfx'', network, ''canisters'', canisterId, canisterId @ ''.did'']"

definition did_files :: "'y os_lib \<Rightarrow> string \<Rightarrow> string \<Rightarrow> canisters \<Rightarrow> fs \<Rightarrow> Artifactory list" where
  "did_files OS workdir network cs fs =
     map (\<lambda>c. \<lparr>art_Name = c @ ''.did'', art_Url = did_path workdir network c\<rparr>)
       (filter (\<lambda>c. \<not> isl (Stat fs (path_of (did_path workdir network c)))) (os_map_order OS (m_keys cs)))"

definition ICPBuild_Hook :: "'y os_lib \<Rightarrow> 'y net_lib \<Rightarrow> ICPBuildAction \<Rightarrow> ('y aworld, ActionResult option) act" where
  "ICPBuild_Hook OS N a =
     seq GetWorkdir (\<lambda>workdir.
     with_lock N (
     seq (out_line OS (''use identity: '' @ ib_userId a)) (\<lambda>u.
     seq (dfx_logged OS [''identity'', ''use'', ib_userId a] workdir) (\<lambda>o1.
     seq (dfx_logged OS [''build'', ''--check'', ''--network'', icNetwork N] workdir) (\<lambda>o2.
     let canisters = (case nl_dfx N (ib_dfxJson a) of Inl e \<Rightarrow> [] | Inr cs \<Rightarrow> cs) in
     seq (look (\<lambda>w. did_files OS workdir (icNetwork N) canisters (w_fs w))) (\<lambda>l.
     ret (Some (empty_ActionResult\<lparr>ar_Artifactorys := l\<rparr>))))))))"

definition ICPBuild_Post :: "('y aworld, unit) act" where
  "ICPBuild_Post = ret ()"

section \<open>action_icp_deploy.go\<close>

record ICPDeployAction =
  id_artiUrl :: string
  id_dfxJson :: string
  id_userId :: string
  id_deployCmd :: bool

definition NewICPDeployAction :: "Step \<Rightarrow> ('y aworld, ICPDeployAction) act" where
  "NewICPDeployAction step =
     seq GetUserId (\<lambda>userId.
     ret \<lparr>id_artiUrl = step_with step ''arti_url'', id_dfxJson = step_with step ''dfx_json'', id_userId = userId,
       id_deployCmd = (step_with step ''deploy_cmd'' = ''true'')\<rparr>)"

text \<open>
  \<open>copyDir\<close>: a file is opened, its copy created (or emptied), then the data is copied.  The recursion ends
  when the paths are too long, which happens only when the copy is made below the original.
\<close>

definition copy_file :: "string \<Rightarrow> string \<Rightarrow> fs \<Rightarrow> error option \<times> fs" where
  "copy_file src dst fs =
     (case ReadFile (path_of src) fs of
        Inl e \<Rightarrow> (Some (errno_msg e), fs)
      | Inr old \<Rightarrow>
          (case WriteFile (path_of dst) [] fs of
             (Some e, fs1) \<Rightarrow> (Some (errno_msg e), fs1)
           | (None, fs1) \<Rightarrow>
               (case ReadFile (path_of src) fs1 of
                  Inl e \<Rightarrow> (Some (errno_msg e), fs1)
                | Inr d \<Rightarrow> (None, snd (WriteFile (path_of dst) d fs1)))))"

fun copy_entries :: "(string \<Rightarrow> fs \<Rightarrow> error option \<times> fs) \<Rightarrow> string list \<Rightarrow> fs \<Rightarrow> error option \<times> fs" where
  "copy_entries f [] fs = (None, fs)"
| "copy_entries f (name # names) fs =
     (case f name fs of (Some e, fs1) \<Rightarrow> (Some e, fs1) | (None, fs1) \<Rightarrow> copy_entries f names fs1)"

fun copy_dir :: "nat \<Rightarrow> string \<Rightarrow> string \<Rightarrow> fs \<Rightarrow> error option \<times> fs" where
  "copy_dir 0 src dst fs = (Some ''file name too long'', fs)"
| "copy_dir (Suc n) src dst fs =
     (case Stat fs (path_of src) of
        Inl e \<Rightarrow> (Some (errno_msg e), fs)
      | Inr st \<Rightarrow>
          (case MkdirAll (path_of dst) fs of
             (Some e, fs1) \<Rightarrow> (Some (errno_msg e), fs1)
           | (None, fs1) \<Rightarrow>
               (case ReadDir (path_of src) fs1 of
                  Inl e \<Rightarrow> (Some (errno_msg e), fs1)
                | Inr entries \<Rightarrow>
                    copy_entries (\<lambda>name fs. case Stat fs (path_of (PathJoin [src, name])) of
                        Inr FDir \<Rightarrow> copy_dir n (PathJoin [src, name]) (PathJoin [dst, name]) fs
                      | _ \<Rightarrow> copy_file (PathJoin [src, name]) (PathJoin [dst, name]) fs) entries fs1)))"

definition copyDir :: "string \<Rightarrow> string \<Rightarrow> fs \<Rightarrow> error option \<times> fs" where
  "copyDir src dst fs = copy_dir (Suc (fs_depth fs)) src dst fs"

definition act_copyDir :: "string \<Rightarrow> string \<Rightarrow> ('y aworld, unit) act" where
  "act_copyDir src dst = upd (\<lambda>w. w\<lparr>w_fs := snd (copyDir src dst (w_fs w))\<rparr>)"

definition checkIsDeployed :: "string \<Rightarrow> string \<Rightarrow> fs \<Rightarrow> bool" where
  "checkIsDeployed workdir network fs =
     (\<not> isl (Stat fs (path_of (if network = ''ic'' then PathJoin [workdir, ''canister_ids.json'']
        else PathJoin [workdir, ''.dfx'', network, ''canister_ids.json'']))))"

definition dfx_cache :: "'y os_lib \<Rightarrow> string \<Rightarrow> string" where
  "dfx_cache OS jobName =
     PathJoin [(case os_home OS of Inl e \<Rightarrow> [] | Inr h \<Rightarrow> h), ''pipelines/jobs'', jobName, ''.dfx'']"

text \<open>
  Fetching the artifact, the same text in \<open>downloadAndUnzip\<close> and in the \<open>Hook\<close> of \<open>hamster-ipfs\<close>.  A copy of
  a directory ends empty, its failing read is not noticed.
\<close>

definition store_as :: "'y os_lib \<Rightarrow> string \<Rightarrow> ('y aworld, unit) act" where
  "store_as OS f =
     seq (attempt (act_WriteFile f [])) (\<lambda>r. case r of
       Inl e \<Rightarrow> seq (out_line OS ''copy file fail'') (\<lambda>u. fail e) | Inr u \<Rightarrow> ret ())"

definition fetch_artifact :: "'y os_lib \<Rightarrow> 'y net_lib \<Rightarrow> string \<Rightarrow> string \<Rightarrow> ('y aworld, unit) act" where
  "fetch_artifact OS N artiUrl workdir =
     (case nl_url N artiUrl of
        Inl e \<Rightarrow> seq (out_line OS ''url is invalid'') (\<lambda>u. fail e)
      | Inr (scheme, requestURI, url) \<Rightarrow>
          seq (out_line OS ''downloading artifacts'') (\<lambda>u.
          let filename = PathJoin [workdir, Base artiUrl] in
          seq (if scheme = ''http'' \<or> scheme = ''https'' then
                 seq (attempt (nl_get N artiUrl)) (\<lambda>res. case res of
                   Inl e \<Rightarrow> seq (out_line OS (''download '' @ url @ '' failed'')) (\<lambda>u. fail e)
                 | Inr body \<Rightarrow>
                     seq (store_as OS filename) (\<lambda>u.
                     seq (attempt (act_WriteFile filename body)) (\<lambda>u.
                     seq (out_line OS ''download artifacts success'') (\<lambda>u. ret filename))))
               else if scheme = ''file'' then
                 seq (store_as OS filename) (\<lambda>u.
                 seq (look (\<lambda>w. if can_open (w_fs w) requestURI then Inr (GetFileData requestURI (w_fs w))
                     else Inl (case Stat (w_fs w) (path_of requestURI) of Inl e \<Rightarrow> errno_msg e | Inr n \<Rightarrow> errno_msg EACCES))) (\<lambda>src.
                 case src of
                   Inl e \<Rightarrow> seq (out_line OS ''copy file fail'') (\<lambda>u. fail e)
                 | Inr d \<Rightarrow>
                     seq (attempt (act_WriteFile filename (case d of Inl e \<Rightarrow> [] | Inr t \<Rightarrow> t))) (\<lambda>u.
                     seq (out_line OS ''download artifacts success'') (\<lambda>u. ret filename))))
               else ret []) (\<lambda>downloadFile.
          seq (if Ext downloadFile = ''.zip''
               then seq (look w_fs) (\<lambda>fs. seq (checked (DeCompressZip (nl_unzip N) downloadFile workdir fs)) (\<lambda>(err, fs').
                 seq (upd (\<lambda>w. w\<lparr>w_fs := fs'\<rparr>)) (\<lambda>u. case err of Some e \<Rightarrow> fail e | None \<Rightarrow> ret ())))
               else ret ()) (\<lambda>u.
          seq (if downloadFile = [] then ret () else seq (attempt (act_Remove downloadFile)) (\<lambda>r. ret ())) (\<lambda>u.
          ret ())))))"

definition is_assets :: "(string, json) gomap \<Rightarrow> bool" where
  "is_assets c \<longleftrightarrow> m_load c ''type'' = Some (JStr ''assets'')"

fun clear_outputs :: "string \<Rightarrow> string \<Rightarrow> canisters \<Rightarrow> string list \<Rightarrow> ('y aworld, unit) act" where
  "clear_outputs workdir network cs [] = ret ()"
| "clear_outputs workdir network cs (c # ids) =
     seq (attempt (act_RemoveAll (if is_assets (the (m_load cs c)) then PathJoin [workdir, ''dist'']
       else PathJoin [workdir, ''.dfx'', network, ''canisters'']))) (\<lambda>r.
     clear_outputs workdir network cs ids)"

definition downloadAndUnzip :: "'y os_lib \<Rightarrow> 'y net_lib \<Rightarrow> ICPDeployAction \<Rightarrow> string \<Rightarrow> ('y aworld, unit) act" where
  "downloadAndUnzip OS N a network =
     seq GetWorkdir (\<lambda>workdir.
     seq (decode (nl_dfx N (id_dfxJson a))) (\<lambda>cs.
     seq (clear_outputs workdir network cs (os_map_order OS (m_keys cs))) (\<lambda>u.
     if id_artiUrl a \<noteq> [] then fetch_artifact OS N (id_artiUrl a) workdir else ret ())))"

fun create_canisters :: "'y os_lib \<Rightarrow> 'y net_lib \<Rightarrow> string \<Rightarrow> string list \<Rightarrow> ('y aworld, unit) act" where
  "create_canisters OS N workdir [] = ret ()"
| "create_canisters OS N workdir (c # ids) =
     seq (act_run_cmd OS [dfxBin, ''canister'', ''create'', c, ''--network'', icNetwork N, ''--with-cycles'', ''300000000000'']
           workdir) (\<lambda>(output, err).
     case err of
       Some e \<Rightarrow> seq (out_line OS output) (\<lambda>u. fail (nl_errorf N output))
     | None \<Rightarrow> create_canisters OS N workdir ids)"

definition restore_dfx :: "'y os_lib \<Rightarrow> string \<Rightarrow> string \<Rightarrow> ('y aworld, unit) act" where
  "restore_dfx OS workdir jobName =
     (let cacheDir = PathJoin [workdir, ''.dfx'']; toCacheDir = dfx_cache OS jobName in
      seq (attempt (act_MkdirAll toCacheDir)) (\<lambda>r.
      seq (attempt (act_MkdirAll cacheDir)) (\<lambda>r.
      act_copyDir toCacheDir cacheDir)))"

definition ICPDeploy_Pre :: "'y os_lib \<Rightarrow> 'y net_lib \<Rightarrow> ICPDeployAction \<Rightarrow> ('y aworld, ICPDeployAction) act" where
  "ICPDeploy_Pre OS N a0 =
     seq GetParameters (\<lambda>params.
     seq (checked (ReplaceWithParam (id_artiUrl a0) params)) (\<lambda>artiUrl.
     seq (checked (ReplaceWithParam (id_dfxJson a0) params)) (\<lambda>dfxJson.
     let a = a0\<lparr>id_artiUrl := artiUrl, id_dfxJson := dfxJson\<rparr> in
     seq GetWorkdir (\<lambda>workdir.
     seq GetJobName (\<lambda>jobName.
     seq (restore_dfx OS workdir jobName) (\<lambda>u.
     with_lock N (
     seq (dfx_quiet OS [''identity'', ''use'', id_userId a, ''-qq''] workdir) (\<lambda>out1.
     seq (decode (nl_dfx N dfxJson)) (\<lambda>cs.
     seq (look (\<lambda>w. checkIsDeployed workdir (icNetwork N) (w_fs w))) (\<lambda>isDeployed.
     seq (if \<not> isDeployed
          then seq (act_WriteFile (PathJoin [workdir, ''dfx.json'']) dfxJson) (\<lambda>u.
            create_canisters OS N workdir (os_map_order OS (m_keys cs)))
          else ret ()) (\<lambda>u.
     seq (downloadAndUnzip OS N a (icNetwork N)) (\<lambda>u.
     seq (act_WriteFile (PathJoin [workdir, ''dfx.json'']) dfxJson) (\<lambda>u.
     ret a)))))))))))))"


text \<open>
  \<open>analyzeURL\<close>: all matches of \<open>([^:\s]+):\s*(https?://[^\s]+)\<close>.  A key is the longest run without colon and
  space that starts at the place that is tried; a shorter one is not followed by a colon.
\<close>

definition white :: "char \<Rightarrow> bool" where
  "white c \<longleftrightarrow> c \<in> {CHR 0x09, CHR 0x0A, CHR 0x0C, CHR 0x0D, CHR '' ''}"

definition url_at :: "string \<Rightarrow> (string \<times> string) option" where
  "url_at s =
     (let r = dropWhile white s;
          n = (if HasPrefix r ''https://'' then 8 else if HasPrefix r ''http://'' then 7 else 0);
          u = takeWhile (\<lambda>c. \<not> white c) (drop n r) in
      if n = 0 \<or> u = [] then None else Some (take n r @ u, drop (n + length u) r))"

definition pair_at :: "string \<Rightarrow> ((string \<times> string) \<times> string) option" where
  "pair_at s =
     (let key = takeWhile (\<lambda>c. c \<noteq> CHR '':'' \<and> \<not> white c) s; rest = drop (length key) s in
      if key = [] \<or> rest = [] \<or> hd rest \<noteq> CHR '':'' then None
      else (case url_at (tl rest) of None \<Rightarrow> None | Some (u, rest') \<Rightarrow> Some ((key, u), rest')))"

function all_pairs :: "string \<Rightarrow> (string \<times> string) list" where
  "all_pairs s =
     (case s of [] \<Rightarrow> []
      | c # r \<Rightarrow> (case pair_at s of
            None \<Rightarrow> all_pairs r
          | Some (x, rest) \<Rightarrow> if length rest < length s then x # all_pairs rest else []))"
  by pat_completeness auto
termination by (relation "measure length") auto

declare all_pairs.simps [simp del]

definition analyzeURL :: "string \<Rightarrow> (string, string) gomap" where
  "analyzeURL output = fold (\<lambda>(k, u). m_store (TrimSpace k) (TrimSpace u)) (all_pairs output) []"

definition canister_id :: "'y os_lib \<Rightarrow> 'y net_lib \<Rightarrow> string \<Rightarrow> string \<Rightarrow> ('y aworld, string) act" where
  "canister_id OS N workdir key =
     seq (dfx_quiet OS [''canister'', ''id'', key, ''--network'', icNetwork N, ''-qq''] workdir) (\<lambda>output.
     ret (TrimSpace output))"

fun deployed_urls :: "'y os_lib \<Rightarrow> 'y net_lib \<Rightarrow> string \<Rightarrow> (string, string) gomap \<Rightarrow> string list \<Rightarrow>
    ('y aworld, DeployInfo list) act" where
  "deployed_urls OS N workdir urls [] = ret []"
| "deployed_urls OS N workdir urls (key # keys) =
     seq (canister_id OS N workdir key) (\<lambda>cid.
     seq (deployed_urls OS N workdir urls keys) (\<lambda>ds.
     ret (\<lparr>dep_Name = key, dep_Cid = cid, dep_Url = the (m_load urls key)\<rparr> # ds)))"

definition canister_url :: "(string, json) gomap \<Rightarrow> string \<Rightarrow> string" where
  "canister_url c cid =
     (if is_assets c then ''https://'' @ cid @ ''.icp0.io/''
      else ''https://a4gq6-oaaaa-aaaab-qaa4q-cai.raw.icp0.io/?id='' @ cid)"

fun install_canisters :: "'y os_lib \<Rightarrow> 'y net_lib \<Rightarrow> string \<Rightarrow> canisters \<Rightarrow> string list \<Rightarrow>
    ('y aworld, DeployInfo list) act" where
  "install_canisters OS N workdir cs [] = ret []"
| "install_canisters OS N workdir cs (c # ids) =
     seq (canister_id OS N workdir c) (\<lambda>cid.
     seq (dfx_logged OS [''canister'', ''install'', c, ''--yes'', ''--mode=reinstall'', ''--network'', icNetwork N] workdir)
       (\<lambda>output.
     seq (install_canisters OS N workdir cs ids) (\<lambda>ds.
     ret (\<lparr>dep_Name = c, dep_Cid = cid, dep_Url = canister_url (the (m_load cs c)) cid\<rparr> # ds))))"

definition ICPDeploy_Hook :: "'y os_lib \<Rightarrow> 'y net_lib \<Rightarrow> ICPDeployAction \<Rightarrow> ('y aworld, ActionResult option) act" where
  "ICPDeploy_Hook OS N a =
     seq GetWorkdir (\<lambda>workdir.
     with_lock N (
     seq (dfx_quiet OS [''identity'', ''use'', id_userId a] workdir) (\<lambda>out1.
     seq (if id_deployCmd a then
            seq (act_run_cmd OS [dfxBin, ''deploy'', ''--network'', icNetwork N, ''--with-cycles'', ''300000000000''] workdir)
              (\<lambda>(output, err).
            seq (out_line OS output) (\<lambda>u.
            case err of
              Some e \<Rightarrow> fail (nl_errorf N output)
            | None \<Rightarrow>
                (let urls = analyzeURL output in
                 deployed_urls OS N workdir urls (os_map_order OS (m_keys urls)))))
          else
            seq (look (\<lambda>w. case GetFileData (PathJoin [workdir, ''dfx.json'']) (w_fs w) of Inl e \<Rightarrow> [] | Inr d \<Rightarrow> d)) (\<lambda>text'.
            seq (decode (nl_dfx N text')) (\<lambda>cs.
            install_canisters OS N workdir cs (os_map_order OS (m_keys cs))))) (\<lambda>ds.
     ret (Some (empty_ActionResult\<lparr>ar_Deploys := ds\<rparr>))))))"

definition ICPDeploy_Post :: "'y os_lib \<Rightarrow> ('y aworld, unit) act" where
  "ICPDeploy_Post OS =
     seq GetWorkdir (\<lambda>workdir.
     seq GetJobName (\<lambda>jobName.
     seq (attempt (act_MkdirAll (dfx_cache OS jobName))) (\<lambda>r.
     act_copyDir (PathJoin [workdir, ''.dfx'']) (dfx_cache OS jobName))))"

section \<open>action_ipfs.go\<close>

record IpfsAction =
  ip_path :: string
  ip_api :: string
  ip_gateway :: string
  ip_artiUrl :: string
  ip_baseDir :: string

definition NewIpfsAction :: "Step \<Rightarrow> IpfsAction" where
  "NewIpfsAction step =
     \<lparr>ip_path = step_with step ''path'', ip_api = step_with step ''api'', ip_gateway = step_with step ''gateway'',
      ip_artiUrl = step_with step ''arti_url'', ip_baseDir = step_with step ''base_dir''\<rparr>"

definition Ipfs_Pre :: "IpfsAction \<Rightarrow> ('y aworld, IpfsAction) act" where
  "Ipfs_Pre a =
     seq (ctx_map ''parameter'') (\<lambda>params.
     seq (checked (ReplaceWithParam (ip_artiUrl a) params)) (\<lambda>artiUrl.
     seq (checked (ReplaceWithParam (ip_baseDir a) params)) (\<lambda>baseDir.
     seq (checked (ReplaceWithParam (ip_gateway a) params)) (\<lambda>gateway.
     ret (a\<lparr>ip_artiUrl := artiUrl, ip_baseDir := baseDir, ip_gateway := gateway\<rparr>)))))"

definition Ipfs_Hook :: "'y os_lib \<Rightarrow> 'y net_lib \<Rightarrow> IpfsAction \<Rightarrow> ('y aworld, ActionResult option) act" where
  "Ipfs_Hook OS N a =
     seq (ctx_string_ok ''workdir'' ''get workdir error'') (\<lambda>workdir.
     seq (if ip_artiUrl a \<noteq> [] then seq (fetch_artifact OS N (ip_artiUrl a) workdir) (\<lambda>u. ret (PathJoin [workdir]))
          else ret (ip_path a)) (\<lambda>path.
     seq (look (\<lambda>w. if path = [] then Inl ENOENT else Stat (w_fs w) (path_of path))) (\<lambda>st.
     case st of
       Inl e \<Rightarrow> seq (out_line OS ''path or arti_url is empty'') (\<lambda>u. fail (errno_msg e))
     | Inr n \<Rightarrow>
         seq (attempt (nl_addDir N (ip_api a) (PathJoin [path, ip_baseDir a]))) (\<lambda>r. case r of
           Inl e \<Rightarrow> seq (out_line OS (''error:'' @ e)) (\<lambda>u. fail e)
         | Inr cid \<Rightarrow>
             ret (Some (empty_ActionResult\<lparr>ar_Deploys :=
               [\<lparr>dep_Name = [], dep_Cid = cid, dep_Url = ip_gateway a @ ''/ipfs/'' @ cid\<rparr>]\<rparr>))))))"

definition Ipfs_Post :: "('y aworld, unit) act" where
  "Ipfs_Post = ret ()"

section \<open>The addresses of deployed canisters\<close>

text \<open>What \<open>dfx deploy\<close> prints at its end: headings, and for every canister its name and address.\<close>

datatype dfx_line = Heading string | Address string string

fun dfx_text :: "dfx_line \<Rightarrow> string" where
  "dfx_text (Heading h) = h @ nl"
| "dfx_text (Address n u) = ''    '' @ n @ '': '' @ u @ nl"

definition url_ok :: "string \<Rightarrow> bool" where
  "url_ok u \<longleftrightarrow> list_all (\<lambda>c. \<not> white c) u \<and> TrimSpace u = u \<and>
     (HasPrefix u ''http://'' \<and> u \<noteq> ''http://'' \<or> HasPrefix u ''https://'' \<and> u \<noteq> ''https://'')"

lemma url_okD:
  assumes "url_ok u"
  obtains r where "r \<noteq> []" "u = ''http://'' @ r \<or> u = ''https://'' @ r" "list_all (\<lambda>c. \<not> white c) u"
  using assms by (auto simp: url_ok_def HasPrefix_iff)

fun dfx_line_ok :: "dfx_line \<Rightarrow> bool" where
  "dfx_line_ok (Heading h) \<longleftrightarrow> \<not> Contains h ''http://'' \<and> \<not> Contains h ''https://'' \<and> CHR 0x0A \<notin> set h"
| "dfx_line_ok (Address n u) \<longleftrightarrow> n \<noteq> [] \<and> list_all (\<lambda>c. c \<noteq> CHR '':'' \<and> \<not> white c) n \<and> TrimSpace n = n \<and> url_ok u"

definition addresses :: "dfx_line list \<Rightarrow> (string \<times> string) list" where
  "addresses ls = concat (map (\<lambda>l. case l of Heading h \<Rightarrow> [] | Address n u \<Rightarrow> [(n, u)]) ls)"

definition no_url :: "string \<Rightarrow> bool" where
  "no_url t \<longleftrightarrow> \<not> HasPrefix (dropWhile white t) ''http://'' \<and> \<not> HasPrefix (dropWhile white t) ''https://''"

lemma no_url_at: "no_url t \<Longrightarrow> url_at t = None"
  by (simp add: no_url_def url_at_def Let_def)

lemma all_pairs_Nil [simp]: "all_pairs [] = []"
  by (simp add: all_pairs.simps)

lemma all_pairs_skip: "pair_at (c # r) = None \<Longrightarrow> all_pairs (c # r) = all_pairs r"
  by (subst all_pairs.simps) simp

lemma all_pairs_white: "white c \<Longrightarrow> all_pairs (c # r) = all_pairs r"
  by (rule all_pairs_skip) (simp add: pair_at_def)

text \<open>A prefix without the separating character matches before it.\<close>

lemma HasPrefix_before:
  assumes "HasPrefix (h @ c # t) p" and "c \<notin> set p"
  shows "HasPrefix h p"
proof -
  obtain r where "h @ c # t = p @ r" using assms(1) by (auto simp: HasPrefix_iff)
  then show ?thesis using assms(2) by (auto simp: append_eq_append_conv2 HasPrefix_iff Cons_eq_append_conv)
qed

lemma Contains_suffix: "Contains b p \<Longrightarrow> Contains (a @ b) p"
  unfolding Contains_iff by (metis append_assoc)

lemma dropWhile_suffix: "\<exists>a. h = a @ dropWhile P h"
  by (metis takeWhile_dropWhile_id)

lemma no_url_heading:
  assumes "\<not> Contains h ''http://''" and "\<not> Contains h ''https://''" and "no_url t"
  shows "no_url (h @ nl @ t)"
proof (cases "list_all white h")
  case True
  then have "dropWhile white (h @ nl @ t) = dropWhile white t"
    by (simp add: list_all_iff nl_def white_def dropWhile_append)
  then show ?thesis using assms(3) by (simp add: no_url_def)
next
  case False
  then have d: "dropWhile white (h @ nl @ t) = dropWhile white h @ CHR 0x0A # t"
    by (auto simp: list_all_iff nl_def dropWhile_append)
  obtain a where a: "h = a @ dropWhile white h" using dropWhile_suffix by blast
  have "\<not> HasPrefix (dropWhile white h @ CHR 0x0A # t) p" if "\<not> Contains h p" "CHR 0x0A \<notin> set p" for p
    using that a HasPrefix_before [of "dropWhile white h" "CHR 0x0A" t p] HasPrefix_imp_Contains Contains_suffix
    by metis
  from this [OF assms(1)] this [OF assms(2)] show ?thesis
    unfolding no_url_def d by simp
qed

lemma takeWhile_stop: "\<not> P c \<Longrightarrow> takeWhile P (xs @ c # t) = takeWhile P xs"
  by (induction xs) auto

lemma takeWhile_all: "list_all P xs \<Longrightarrow> takeWhile P xs = xs"
  by (induction xs) auto

lemma white_nl [simp]: "white CHR 0x0A"
  by (simp add: white_def)

lemma pair_at_heading:
  assumes "\<not> Contains h ''http://''" and "\<not> Contains h ''https://''" and "CHR 0x0A \<notin> set h" and "no_url t"
  shows "pair_at (h @ nl @ t) = None"
proof -
  let ?P = "\<lambda>c. c \<noteq> CHR '':'' \<and> \<not> white c"
  have key: "takeWhile ?P (h @ nl @ t) = takeWhile ?P h"
    using takeWhile_stop [of ?P "CHR 0x0A" h t] by (simp add: nl_def)
  have rest: "drop (length (takeWhile ?P h)) (h @ nl @ t) = dropWhile ?P h @ nl @ t"
    by (induction h) auto
  obtain a where a: "h = a @ dropWhile ?P h" using dropWhile_suffix by blast
  show ?thesis
  proof (cases "dropWhile ?P h")
    case Nil
    then show ?thesis unfolding pair_at_def key Let_def rest Nil by (simp add: nl_def)
  next
    case (Cons c h')
    have "h = (a @ [c]) @ h'" using a Cons by simp
    then have "\<not> Contains h' ''http://''" "\<not> Contains h' ''https://''"
      using assms(1,2) Contains_suffix by metis+
    then have "url_at (h' @ nl @ t) = None"
      using no_url_heading assms(4) no_url_at by blast
    then show ?thesis by (simp add: pair_at_def key rest Cons Let_def del: drop_append)
  qed
qed

lemma all_pairs_heading:
  assumes "\<not> Contains h ''http://''" and "\<not> Contains h ''https://''" and "CHR 0x0A \<notin> set h" and "no_url t"
  shows "all_pairs (h @ nl @ t) = all_pairs t"
  using assms(1-3)
proof (induction h)
  case Nil
  then show ?case by (simp add: nl_def all_pairs_white white_def)
next
  case (Cons c h)
  have "\<not> Contains h p" if "\<not> Contains (c # h) p" for p
    using that Contains_suffix [of h p "[c]"] by auto
  then have "all_pairs (h @ nl @ t) = all_pairs t" using Cons by simp
  moreover have "pair_at ((c # h) @ nl @ t) = None"
    using pair_at_heading [OF Cons.prems assms(4)] .
  ultimately show ?case using all_pairs_skip [of c "h @ nl @ t"] by simp
qed

lemma url_at_url:
  assumes "url_ok u"
  shows "url_at (CHR '' '' # u @ nl @ t) = Some (u, nl @ t)"
proof -
  obtain r where r: "r \<noteq> []" "u = ''http://'' @ r \<or> u = ''https://'' @ r" "list_all (\<lambda>c. \<not> white c) u"
    using assms by (rule url_okD)
  have "list_all (\<lambda>c. \<not> white c) r" using r by auto
  then have w: "takeWhile (\<lambda>c. \<not> white c) (r @ nl @ t) = r"
    using takeWhile_stop [of "\<lambda>c. \<not> white c" "CHR 0x0A" r t] by (simp add: nl_def takeWhile_all)
  from r(2) show ?thesis
  proof
    assume u: "u = ''http://'' @ r"
    have d: "dropWhile white (CHR '' '' # u @ nl @ t) = u @ nl @ t"
      using u by (simp add: white_def)
    have "\<not> HasPrefix (u @ nl @ t) ''https://''" "HasPrefix (u @ nl @ t) ''http://''"
      using u by simp_all
    then show ?thesis
      using r(1) w u unfolding url_at_def d by (simp add: Let_def eval_nat_numeral)
  next
    assume u: "u = ''https://'' @ r"
    have d: "dropWhile white (CHR '' '' # u @ nl @ t) = u @ nl @ t"
      using u by (simp add: white_def)
    have "HasPrefix (u @ nl @ t) ''https://''"
      using u by simp
    then show ?thesis
      using r(1) w u unfolding url_at_def d by (simp add: Let_def eval_nat_numeral)
  qed
qed

lemma all_pairs_address:
  assumes "dfx_line_ok (Address n u)"
  shows "all_pairs (dfx_text (Address n u) @ t) = (n, u) # all_pairs t"
proof -
  let ?P = "\<lambda>c. c \<noteq> CHR '':'' \<and> \<not> white c"
  let ?r = "n @ '': '' @ u @ nl @ t"
  have n: "n \<noteq> []" "takeWhile ?P ?r = n" "url_ok u"
    using assms takeWhile_stop [of ?P "CHR '':''" n "'' '' @ u @ nl @ t"] by (simp_all add: takeWhile_all)
  have "pair_at ?r = Some ((n, u), nl @ t)"
    using n url_at_url [OF n(3), of t] by (simp add: pair_at_def)
  moreover obtain c m where "?r = c # m" using n(1) by (cases n) auto
  ultimately have "all_pairs ?r = (n, u) # all_pairs (nl @ t)"
    by (subst all_pairs.simps) (auto simp: nl_def dest: arg_cong [where f = length])
  also have "all_pairs (nl @ t) = all_pairs t" by (simp add: nl_def all_pairs_white white_def)
  finally show ?thesis by (simp add: all_pairs_white white_def)
qed

text \<open>A name is not the scheme of a URL: what follows its colon is a space.\<close>

lemma not_scheme:
  assumes "CHR '':'' \<notin> set n" and "hd t \<noteq> CHR ''/''" and "t \<noteq> []"
  shows "\<not> HasPrefix (n @ CHR '':'' # t) ''http://''" "\<not> HasPrefix (n @ CHR '':'' # t) ''https://''"
proof -
  have "\<not> HasPrefix (n @ CHR '':'' # t) (p @ ''://'')" if "CHR '':'' \<notin> set p" for p
  proof
    assume "HasPrefix (n @ CHR '':'' # t) (p @ ''://'')"
    then obtain r where r: "n @ CHR '':'' # t = p @ CHR '':'' # ''//'' @ r" by (auto simp: HasPrefix_iff)
    have "takeWhile (\<lambda>c. c \<noteq> CHR '':'') (n @ CHR '':'' # t) = n"
      "takeWhile (\<lambda>c. c \<noteq> CHR '':'') (p @ CHR '':'' # ''//'' @ r) = p"
      using assms(1) that by (simp_all add: takeWhile_stop takeWhile_all list_all_iff, metis+)
    then have "n = p" using r by simp
    then show False using r assms(2,3) by simp
  qed
  from this [of "''http''"] this [of "''https''"] show "\<not> HasPrefix (n @ CHR '':'' # t) ''http://''"
    "\<not> HasPrefix (n @ CHR '':'' # t) ''https://''" by simp_all
qed

lemma no_url_text: "list_all dfx_line_ok ls \<Longrightarrow> no_url (concat (map dfx_text ls))"
proof (induction ls)
  case (Cons l ls)
  show ?case
  proof (cases l)
    case (Heading h)
    then show ?thesis using Cons no_url_heading [of h] by simp
  next
    case (Address n u)
    then have "dropWhile white (dfx_text l @ t) = n @ '': '' @ u @ nl @ t" for t
      using Cons.prems by (cases n) (auto simp: white_def)
    moreover have "\<not> HasPrefix (n @ '': '' @ u @ nl @ t) ''http://''"
      "\<not> HasPrefix (n @ '': '' @ u @ nl @ t) ''https://''" for t
      using not_scheme [of n "'' '' @ u @ nl @ t"] Cons.prems Address by (auto simp: list_all_iff)
    ultimately show ?thesis by (simp add: no_url_def)
  qed
qed (simp add: no_url_def)

lemma all_pairs_text: "list_all dfx_line_ok ls \<Longrightarrow> all_pairs (concat (map dfx_text ls)) = addresses ls"
proof (induction ls)
  case (Cons l ls)
  show ?case
  proof (cases l)
    case (Heading h)
    then show ?thesis
      using Cons all_pairs_heading [OF _ _ _ no_url_text [of ls], of h] by (simp add: addresses_def)
  next
    case (Address n u)
    then show ?thesis
      using Cons all_pairs_address [of n u "concat (map dfx_text ls)"] by (simp add: addresses_def)
  qed
qed (simp add: addresses_def)


lemma m_load_stores:
  "m_load (fold (\<lambda>(k, u). m_store k u) xs m) k =
     (case map_of (rev xs) k of Some u \<Rightarrow> Some u | None \<Rightarrow> m_load m k)"
  by (induction xs arbitrary: m) (auto simp: map_add_def split: option.splits)

lemma analyzeURL_text:
  assumes "list_all dfx_line_ok ls"
  shows "m_load (analyzeURL (concat (map dfx_text ls))) = map_of (rev (addresses ls))"
proof -
  have "list_all (\<lambda>(k, u). TrimSpace k = k \<and> TrimSpace u = u) (addresses ls)"
    using assms by (induction ls) (auto simp: addresses_def url_ok_def split: dfx_line.splits)
  then have "fold (\<lambda>(k, u). m_store (TrimSpace k) (TrimSpace u)) (addresses ls) m =
      fold (\<lambda>(k, u). m_store k u) (addresses ls) m" for m :: "(string, string) gomap"
    by (intro fold_cong) (auto simp: list_all_iff)
  moreover have "m_load ([] :: (string, string) gomap) k = None" for k
    by (simp add: m_load_def)
  ultimately show ?thesis
    by (simp add: analyzeURL_def all_pairs_text [OF assms] fun_eq_iff m_load_stores split: option.splits)
qed

lemma dfx_quiet_pure:
  "pure_tool OS out \<Longrightarrow> out (dfxBin # args) = (r, None) \<Longrightarrow> dfx_quiet OS args d w = (Returns (Inr r), w)"
  by (simp add: dfx_quiet_def pure_tool_def act_run_cmd_def seq_def ret_def)

lemma deployed_urls_pure:
  assumes "pure_tool OS out" and "\<And>n. n \<in> set ks \<Longrightarrow>
    out [dfxBin, ''canister'', ''id'', n, ''--network'', icNetwork N, ''-qq''] = (cid n, None)"
  shows "deployed_urls OS N dir urls ks w =
    (Returns (Inr (map (\<lambda>n. \<lparr>dep_Name = n, dep_Cid = TrimSpace (cid n), dep_Url = the (m_load urls n)\<rparr>) ks)), w)"
  using assms(2)
proof (induction ks)
  case (Cons k ks)
  have "canister_id OS N dir k w = (Returns (Inr (TrimSpace (cid k))), w)"
    using dfx_quiet_pure [OF assms(1)] Cons.prems [of k] by (simp add: canister_id_def seq_def ret_def)
  then show ?case using Cons by (simp add: seq_def ret_def)
qed (simp add: ret_def)

text \<open>
  C36. When the tool runs without an error, icp-deploy with the deploy command reports exactly the
  canisters whose addresses the tool printed, in whatever lines stand around them: each once, with its
  name, with the identifier the tool gives for it, and with the address that was printed last.
\<close>

theorem icp_deploy_reported:
  assumes "m_load (w_ctx w) ''workdir'' = Some (CStr dir)" and "nl_lock N w = (Returns (Inr ()), w1)"
    and "pure_tool OS out" and "\<And>ks. set (os_map_order OS ks) = set ks"
    and "out [dfxBin, ''identity'', ''use'', id_userId a] = (o1, None)" and "id_deployCmd a"
    and "out [dfxBin, ''deploy'', ''--network'', icNetwork N, ''--with-cycles'', ''300000000000''] =
      (concat (map dfx_text ls), None)" and "list_all dfx_line_ok ls"
    and "\<And>n u. (n, u) \<in> set (addresses ls) \<Longrightarrow>
      out [dfxBin, ''canister'', ''id'', n, ''--network'', icNetwork N, ''-qq''] = (cid n, None)"
  shows "\<exists>ds w'. ICPDeploy_Hook OS N a w = (Returns (Inr (Some (empty_ActionResult\<lparr>ar_Deploys := ds\<rparr>))), w') \<and>
    set ds = {\<lparr>dep_Name = n, dep_Cid = TrimSpace (cid n), dep_Url = u\<rparr> | n u. map_of (rev (addresses ls)) n = Some u}"
proof -
  let ?t = "concat (map dfx_text ls)" and ?order = "os_map_order OS (m_keys (analyzeURL (concat (map dfx_text ls))))"
  have keys: "n \<in> set ?order \<longleftrightarrow> (\<exists>u. map_of (rev (addresses ls)) n = Some u)" for n
    using assms(4) analyzeURL_text [OF assms(8)] gm.keys_load [of n "analyzeURL ?t"] by auto
  then have "out [dfxBin, ''canister'', ''id'', n, ''--network'', icNetwork N, ''-qq''] = (cid n, None)"
    if "n \<in> set ?order" for n
    using that assms(9) by (auto dest: map_of_SomeD)
  note ids = deployed_urls_pure [OF assms(3) this, where urls = "analyzeURL ?t"]
  have "\<exists>w'. ICPDeploy_Hook OS N a w = (Returns (Inr (Some (empty_ActionResult\<lparr>ar_Deploys :=
      map (\<lambda>n. \<lparr>dep_Name = n, dep_Cid = TrimSpace (cid n), dep_Url = the (m_load (analyzeURL ?t) n)\<rparr>) ?order\<rparr>))), w')"
    using assms(1,2,3,5,6,7) dfx_quiet_pure [OF assms(3,5)] ids
    by (simp add: ICPDeploy_Hook_def GetWorkdir_def ctx_string_def with_lock_def seq_def act_run_cmd_def pure_tool_def
      out_line_def upd_def ret_def Let_def)
  moreover have "set (map (\<lambda>n. \<lparr>dep_Name = n, dep_Cid = TrimSpace (cid n), dep_Url = the (m_load (analyzeURL ?t) n)\<rparr>) ?order) =
      {\<lparr>dep_Name = n, dep_Cid = TrimSpace (cid n), dep_Url = u\<rparr> | n u. map_of (rev (addresses ls)) n = Some u}"
    using keys analyzeURL_text [OF assms(8)] by (auto simp: image_def)
  ultimately show ?thesis by blast
qed

definition demo_lines :: "dfx_line list" where
  "demo_lines = [Heading ''URLs:'', Heading ''  Frontend canister via browser'', Address ''web'' ''http://127.0.0.1:4943/?id=b'',
     Heading ''  Backend canister via Candid interface:'', Address ''api'' ''https://ic0.app/?id=c'']"

definition demo_dfx :: "string list \<Rightarrow> string \<times> error option" where
  "demo_dfx c = (if c ! 1 = ''deploy'' then concat (map dfx_text demo_lines)
     else if c ! 1 = ''canister'' then ''id-'' @ c ! 3 @ nl else [], None)"

definition demo_net :: "unit net_lib" where
  "demo_net = \<lparr>nl_dfx = (\<lambda>s. Inr []), nl_network = [], nl_lock = ret (), nl_unlock = id, nl_errorf = id,
     nl_url = (\<lambda>u. Inr (''file'', drop 7 u, u)), nl_get = (\<lambda>u. fail ''no network''),
     nl_unzip = (\<lambda>s. Inr []), nl_addDir = (\<lambda>p q. fail ''no network'')\<rparr>"

theorem icp_deploy_reported_witness:
  "\<exists>ds w'. ICPDeploy_Hook (demo_os\<lparr>os_run := (\<lambda>c d w. (demo_dfx c, w))\<rparr>) demo_net
      \<lparr>id_artiUrl = [], id_dfxJson = [], id_userId = ''u'', id_deployCmd = True\<rparr>
      (demo_checks\<lparr>w_ctx := [(''workdir'', CStr ''/w'')]\<rparr>) =
      (Returns (Inr (Some (empty_ActionResult\<lparr>ar_Deploys := ds\<rparr>))), w') \<and>
    set ds = {\<lparr>dep_Name = ''web'', dep_Cid = ''id-web'', dep_Url = ''http://127.0.0.1:4943/?id=b''\<rparr>,
      \<lparr>dep_Name = ''api'', dep_Cid = ''id-api'', dep_Url = ''https://ic0.app/?id=c''\<rparr>}"
proof -
  let ?OS = "demo_os\<lparr>os_run := (\<lambda>c d w. (demo_dfx c, w))\<rparr>" and ?w = "demo_checks\<lparr>w_ctx := [(''workdir'', CStr ''/w'')]\<rparr>"
    and ?a = "\<lparr>id_artiUrl = [], id_dfxJson = [], id_userId = ''u'', id_deployCmd = True\<rparr>"
  have ctx: "m_load (w_ctx ?w) ''workdir'' = Some (CStr ''/w'')" by (simp add: m_load_def)
  have lock: "nl_lock demo_net ?w = (Returns (Inr ()), ?w)" by (simp add: demo_net_def ret_def)
  have tool: "pure_tool ?OS demo_dfx" by (simp add: pure_tool_def)
  have ord: "set (os_map_order ?OS ks) = set ks" for ks by (simp add: demo_os_def)
  have use: "demo_dfx [dfxBin, ''identity'', ''use'', id_userId ?a] = ([], None)" by (simp add: demo_dfx_def)
  have dep: "demo_dfx [dfxBin, ''deploy'', ''--network'', icNetwork demo_net, ''--with-cycles'', ''300000000000''] =
      (concat (map dfx_text demo_lines), None)" by (simp add: demo_dfx_def)
  have ok: "list_all dfx_line_ok demo_lines"
  proof -
    have u: "url_ok ''http://127.0.0.1:4943/?id=b''" "url_ok ''https://ic0.app/?id=c''" by code_simp+
    have "dfx_line_ok (Heading ''URLs:'')" "dfx_line_ok (Heading ''  Frontend canister via browser'')"
      "dfx_line_ok (Heading ''  Backend canister via Candid interface:'')" by code_simp+
    moreover have "dfx_line_ok (Address ''web'' u) = url_ok u" "dfx_line_ok (Address ''api'' u) = url_ok u" for u
      by (simp_all add: white_def TrimSpace_def is_space_def)
    ultimately show ?thesis using u by (simp add: demo_lines_def del: dfx_line_ok.simps)
  qed
  have ids: "demo_dfx [dfxBin, ''canister'', ''id'', n, ''--network'', icNetwork demo_net, ''-qq''] = (''id-'' @ n @ nl, None)" for n
    by (simp add: demo_dfx_def)
  have cids: "TrimSpace (''id-'' @ ''web'' @ nl) = ''id-web''" "TrimSpace (''id-'' @ ''api'' @ nl) = ''id-api''"
    by code_simp+
  let ?D = "\<lambda>(n, u). \<lparr>dep_Name = n, dep_Cid = TrimSpace (''id-'' @ n @ nl), dep_Url = u\<rparr>"
  have "map_of (rev (addresses demo_lines)) n = Some u \<longleftrightarrow> (n, u) \<in> {(''web'', ''http://127.0.0.1:4943/?id=b''),
      (''api'', ''https://ic0.app/?id=c'')}" for n u
    by (auto simp: demo_lines_def addresses_def)
  then have "{?D (n, u) | n u. map_of (rev (addresses demo_lines)) n = Some u} =
      ?D ` {(''web'', ''http://127.0.0.1:4943/?id=b''), (''api'', ''https://ic0.app/?id=c'')}"
    by blast
  then have "{?D (n, u) | n u. map_of (rev (addresses demo_lines)) n = Some u} =
      {\<lparr>dep_Name = ''web'', dep_Cid = ''id-web'', dep_Url = ''http://127.0.0.1:4943/?id=b''\<rparr>,
       \<lparr>dep_Name = ''api'', dep_Cid = ''id-api'', dep_Url = ''https://ic0.app/?id=c''\<rparr>}"
    by (simp only: image_insert image_empty prod.case cids)
  then show ?thesis
    using icp_deploy_reported [OF ctx lock tool ord use _ dep ok, of "\<lambda>n. ''id-'' @ n @ nl"] ids by simp
qed

end
