(* ===== verification/Services.thy ===== *)
theory Services
  imports Deploy Checks
begin

text \<open>
  Actions that leave their work to a service or a tool: \<open>openai\<close> (\<open>action_openai.go\<close>),
  \<open>hamster-pinata-ipfs\<close> (\<open>action_pinata_ipfs.go\<close>), \<open>deploy-ink-contract\<close> (\<open>action_ink.go\<close>),
  \<open>image-build\<close>, \<open>image-push\<close>, and the remote actions of \<open>action_remote.go\<close>.  A method that assigns to
  its action returns it.
\<close>

section \<open>action_openai.go\<close>

record openai_client =
  oc_key :: string
  oc_base :: string
  oc_mapper :: "string \<Rightarrow> string"

text \<open>The environment, and the chat completion of the client: the contents of the choices of its answer.\<close>

record 'y openai_lib =
  ol_env :: "string \<Rightarrow> string"
  ol_chat :: "openai_client \<Rightarrow> string \<Rightarrow> string \<Rightarrow> ('y aworld, string list) act"

record OpenaiAction =
  oa_dir :: string
  oa_suffix :: string

definition NewOpenaiAction :: "Step \<Rightarrow> OpenaiAction" where
  "NewOpenaiAction step =
     \<lparr>oa_dir = (if step_with step ''dir'' = [] then ''contracts'' else step_with step ''dir''),
      oa_suffix = (if step_with step ''suffix'' = [] then ''.sol'' else step_with step ''suffix'')\<rparr>"

definition Openai_Pre :: "('y aworld, unit) act" where "Openai_Pre = ret ()"
definition Openai_Post :: "('y aworld, unit) act" where "Openai_Post = ret ()"

definition GPT3Dot5Turbo :: string where "GPT3Dot5Turbo = ''gpt-3.5-turbo''"

definition getOpenaiClient :: "'y openai_lib \<Rightarrow> openai_client" where
  "getOpenaiClient L =
     \<lparr>oc_key = ol_env L ''AZURE_API_KEY'', oc_base = ol_env L ''AZURE_API_BASE'',
      oc_mapper = (\<lambda>model. if model = ''gpt-3.5-turbo'' then ol_env L ''AZURE_DEPLOYMENT_NAME'' else [])\<rparr>"

definition openai_prompt :: "string \<Rightarrow> string" where
  "openai_prompt code = code @ nl @ ''### Security risk with above contract''"

definition openai_answer :: "string \<Rightarrow> string list \<Rightarrow> string" where
  "openai_answer f choices =
     (if choices \<noteq> [] then Base f @ '' '' @ nl @ '' '' @ concat (map (\<lambda>c. c @ nl) choices) else [])"

text \<open>A file that cannot be read is asked about as if it were empty: \<open>err\<close> is overwritten.\<close>

definition askOpenAiChat :: "'y os_lib \<Rightarrow> 'y openai_lib \<Rightarrow> string \<Rightarrow> ('y aworld, string) act" where
  "askOpenAiChat OS L f =
     seq (attempt (act_ReadFile f)) (\<lambda>c.
     seq (attempt (ol_chat L (getOpenaiClient L) GPT3Dot5Turbo
           (openai_prompt (case c of Inl e \<Rightarrow> [] | Inr code \<Rightarrow> code)))) (\<lambda>r.
     case r of
       Inl e \<Rightarrow> seq (out_line OS (''openai request failed: '' @ e @ nl)) (\<lambda>u. fail e)
     | Inr choices \<Rightarrow> ret (openai_answer f choices)))"

fun ask_files :: "'y os_lib \<Rightarrow> 'y openai_lib \<Rightarrow> string list \<Rightarrow> string \<Rightarrow> ('y aworld, string \<times> error option) act" where
  "ask_files OS L [] checkResult = ret (checkResult, None)"
| "ask_files OS L (f # fs) checkResult =
     seq (attempt (askOpenAiChat OS L f)) (\<lambda>r.
     case r of
       Inl e \<Rightarrow> ret (checkResult, Some e)
     | Inr askResult \<Rightarrow> ask_files OS L fs (checkResult @ askResult))"

text \<open>The value of \<open>strconv.Atoi\<close> when its error is ignored, and of a type assertion when \<open>ok\<close> is.\<close>

definition atoi_value :: "string \<Rightarrow> int" where
  "atoi_value s =
     (case Atoi s of
        Inr i \<Rightarrow> i
      | Inl e \<Rightarrow> if e = ''strconv.Atoi: value out of range''
                 then (if HasPrefix s ''-'' then - (2 ^ 63) else 2 ^ 63 - 1) else 0)"

definition ctx_default :: "string \<Rightarrow> ('y aworld, string) act" where
  "ctx_default key = look (\<lambda>w. case m_load (w_ctx w) key of Some (CStr s) \<Rightarrow> s | _ \<Rightarrow> [])"

definition Openai_Hook :: "'y os_lib \<Rightarrow> 'y openai_lib \<Rightarrow> OpenaiAction \<Rightarrow> ('y aworld, ActionResult option) act" where
  "Openai_Hook OS L a =
     seq (ctx_default ''workdir'') (\<lambda>workdir.
     seq (ctx_default ''id'') (\<lambda>jobId.
     seq (look (\<lambda>w. suffix_files (PathJoin [workdir, oa_dir a]) (oa_suffix a) (w_fs w))) (\<lambda>files.
     seq (ask_files OS L files []) (\<lambda>(checkResult, errData).
     case errData of
       Some e \<Rightarrow> if checkResult = [] then fail e else
         seq (out_line OS checkResult) (\<lambda>u. ret (Some (empty_ActionResult\<lparr>ar_Reports :=
           [\<lparr>rep_Id = atoi_value jobId, rep_Url = [], rep_Type = 3, rep_Content = checkResult\<rparr>]\<rparr>)))
     | None \<Rightarrow>
         seq (out_line OS checkResult) (\<lambda>u. ret (Some (empty_ActionResult\<lparr>ar_Reports :=
           [\<lparr>rep_Id = atoi_value jobId, rep_Url = [], rep_Type = 3, rep_Content = checkResult\<rparr>]\<rparr>)))))))"

section \<open>action_pinata_ipfs.go\<close>

datatype form_part = Form_Field string string | Form_File string string string

record pin_request =
  pr_url :: string
  pr_auth :: string
  pr_parts :: "form_part list"

text \<open>The token of \<open>consts.go\<close>, the HTTP client with the body it read, and the JSON parser.\<close>

record 'y pin_lib =
  pl_jwt :: string
  pl_post :: "pin_request \<Rightarrow> ('y aworld, string) act"
  pl_json :: "string \<Rightarrow> json res"

record PinataIpfsAction =
  pa_path :: string

definition NewPinataIpfsAction :: "Step \<Rightarrow> PinataIpfsAction" where
  "NewPinataIpfsAction step = \<lparr>pa_path = step_with step ''path''\<rparr>"

definition Pinata_Pre :: "('y aworld, unit) act" where "Pinata_Pre = ret ()"
definition Pinata_Post :: "('y aworld, unit) act" where "Pinata_Post = ret ()"

definition PinataIpfsUrl :: string where "PinataIpfsUrl = ''https://gateway.pinata.cloud/ipfs/''"
definition PinataIpfsPinUrl :: string where "PinataIpfsPinUrl = ''https://api.pinata.cloud/pinning/pinFileToIPFS''"
definition PinataOptionsFmt :: string where "PinataOptionsFmt = quoted ''{~cidVersion~: 1}''"

definition pinata_metadata :: "string \<Rightarrow> string" where
  "pinata_metadata fileName = quoted ''{~name~: ~'' @ fileName @ quoted ''~, ~keyvalues~: {~company~: ~Hamster~}}''"

text \<open>
  \<open>json.Unmarshal\<close> into \<open>PinataIpfsPinReq\<close>, whose three fields are strings: keys are compared without
  case (ASCII), \<open>null\<close> leaves a field as it is, any other value is a type error.
\<close>

record PinataIpfsPinReq =
  pq_IpfsHash :: string
  pq_PinSize :: string
  pq_Timestamp :: string

definition pin_member :: "string \<times> json \<Rightarrow> PinataIpfsPinReq \<times> bool \<Rightarrow> PinataIpfsPinReq \<times> bool" where
  "pin_member m acc =
     (case (m, acc) of ((k, v), (q, ok)) \<Rightarrow>
        if lower k \<in> {''ipfshash'', ''pinsize'', ''timestamp''}
        then (case v of
            JNull \<Rightarrow> (q, ok)
          | JStr s \<Rightarrow> (if lower k = ''ipfshash'' then q\<lparr>pq_IpfsHash := s\<rparr>
                      else if lower k = ''pinsize'' then q\<lparr>pq_PinSize := s\<rparr>
                      else q\<lparr>pq_Timestamp := s\<rparr>, ok)
          | _ \<Rightarrow> (q, False))
        else (q, ok))"

definition pin_unmarshal :: "json \<Rightarrow> PinataIpfsPinReq res" where
  "pin_unmarshal j =
     (let zero = \<lparr>pq_IpfsHash = [], pq_PinSize = [], pq_Timestamp = []\<rparr> in
      case j of
        JNull \<Rightarrow> Inr zero
      | JObj ms \<Rightarrow> (case fold pin_member ms (zero, True) of (q, ok) \<Rightarrow>
          if ok then Inr q else Inl ''json: cannot unmarshal'')
      | _ \<Rightarrow> Inl ''json: cannot unmarshal'')"

definition pin_parts :: "string \<Rightarrow> string \<Rightarrow> form_part list" where
  "pin_parts dstPath d =
     [Form_File ''file'' (Base dstPath) d, Form_Field ''pinataOptions'' PinataOptionsFmt,
      Form_Field ''pinataMetadata'' (pinata_metadata (after_slash dstPath))]"

definition Pinata_Hook :: "'y pin_lib \<Rightarrow> PinataIpfsAction \<Rightarrow> ('y aworld, ActionResult option) act" where
  "Pinata_Hook P a =
     seq (ctx_string_ok ''workdir'' ''get workdir error'') (\<lambda>workdir.
     let dstPath = PathJoin [workdir, pa_path a] in
     seq (look w_fs) (\<lambda>fs.
     case (if dstPath = [] then Inl ENOENT else Stat fs (path_of dstPath)) of
       Inl e \<Rightarrow> fail (''get path fail, err is  '' @ errno_msg e)
     | Inr n \<Rightarrow>
         if denied fs (path_of dstPath) then fail ''open path fail''
         else (case n of
             FDir \<Rightarrow> fail ''file copy fail''
           | FFile d \<Rightarrow>
               seq (pl_post P \<lparr>pr_url = PinataIpfsPinUrl, pr_auth = ''Bearer '' @ pl_jwt P,
                      pr_parts = pin_parts dstPath d\<rparr>) (\<lambda>body.
               case (case pl_json P body of Inl e \<Rightarrow> Inl e | Inr j \<Rightarrow> pin_unmarshal j) of
                 Inl e \<Rightarrow> fail ''req json unmarshal fail''
               | Inr q \<Rightarrow> ret (Some (empty_ActionResult\<lparr>ar_Artifactorys :=
                   [\<lparr>art_Name = pa_path a, art_Url = PinataIpfsUrl @ pq_IpfsHash q\<rparr>]\<rparr>))))))"

section \<open>action_ink.go\<close>

record InkAction =
  ik_network :: string
  ik_mnemonic :: string

definition NewInkAction :: "Step \<Rightarrow> InkAction" where
  "NewInkAction step = \<lparr>ik_network = step_with step ''network'', ik_mnemonic = step_with step ''mnemonic''\<rparr>"

definition InkUrlMap :: "(string, string) gomap" where
  "InkUrlMap =
     [(''Local'', ''ws://127.0.0.1:9944''), (''Rococo'', ''wss://rococo-contracts-rpc.polkadot.io''),
      (''Shibuya'', ''wss://rpc.shibuya.astar.network''), (''Shiden'', ''wss://rpc.shiden.astar.network'')]"

text \<open>\<open>ExecuteCommand\<close> is that of the checks; both callers then write the output once more.\<close>

definition ink_command :: "'y os_lib \<Rightarrow> string list \<Rightarrow> string \<Rightarrow> ('y aworld, unit) act" where
  "ink_command OS commands workdir =
     seq (check_command OS commands workdir) (\<lambda>(out, err).
     seq (out_line OS out) (\<lambda>u. case err of Some e \<Rightarrow> fail e | None \<Rightarrow> ret ()))"

definition Ink_Pre :: "'y os_lib \<Rightarrow> ('y aworld, unit) act" where
  "Ink_Pre OS =
     seq (ctx_string_ok ''workdir'' ''get workdir error'') (\<lambda>workdir.
     ink_command OS (Fields ''npm install -g deploy-polkadot@1.0.3'') workdir)"

definition ink_file :: "string list \<Rightarrow> string" where
  "ink_file files = (case List.find (\<lambda>f. HasSuffix f ''.contract'') files of None \<Rightarrow> [] | Some f \<Rightarrow> f)"

definition Ink_Hook :: "'y os_lib \<Rightarrow> InkAction \<Rightarrow> ('y aworld, ActionResult option) act" where
  "Ink_Hook OS a =
     seq (ctx_string_ok ''workdir'' ''get workdir error'') (\<lambda>workdir.
     let targetPath = PathJoin [workdir, ''target'', ''ink''] in
     seq (look w_fs) (\<lambda>fs.
     if Stat fs (path_of targetPath) = Inl ENOENT then fail (errno_msg ENOENT)
     else (case ReadDir (path_of targetPath) fs of
         Inl e \<Rightarrow> fail (errno_msg e)
       | Inr files \<Rightarrow>
           (let fileName = ink_file files in
            if fileName \<noteq> [] then
              seq (ink_command OS [''deploy-polkadot'', ''--url'',
                    case m_load InkUrlMap (ik_network a) of None \<Rightarrow> [] | Some u \<Rightarrow> u,
                    ''--mnemonic'', ik_mnemonic a, ''--metadata'', PathJoin [targetPath, fileName]] workdir) (\<lambda>u.
              ret None)
            else fail ''no contract structures found''))))"

definition Ink_Post :: "('y aworld, unit) act" where "Ink_Post = ret ()"

section \<open>action_image_build.go, action_image_push.go\<close>

record ImageAction =
  im_imageName :: string

definition NewImageBuildAction :: "Step \<Rightarrow> ImageAction" where
  "NewImageBuildAction step = \<lparr>im_imageName = step_with step ''image_name''\<rparr>"

definition NewImagePushAction :: "Step \<Rightarrow> ImageAction" where
  "NewImagePushAction step = \<lparr>im_imageName = step_with step ''image_name''\<rparr>"

definition Image_Pre :: "ImageAction \<Rightarrow> ('y aworld, ImageAction) act" where
  "Image_Pre a =
     seq (ctx_map ''parameter'') (\<lambda>params.
     seq (checked (ReplaceWithParam (im_imageName a) params)) (\<lambda>imageName.
     ret (a\<lparr>im_imageName := imageName\<rparr>)))"

text \<open>\<open>ExecuteCommand\<close> of both actions, as in the checks.\<close>

definition build_command :: "'y os_lib \<Rightarrow> string list \<Rightarrow> string \<Rightarrow> ('y aworld, string \<times> error option) act" where
  "build_command OS commands workdir = check_command OS commands workdir"

definition push_command :: "'y os_lib \<Rightarrow> string list \<Rightarrow> string \<Rightarrow> ('y aworld, string \<times> error option) act" where
  "push_command OS commands workdir = check_command OS commands workdir"

definition ImageBuild_Hook :: "'y os_lib \<Rightarrow> ImageAction \<Rightarrow> ('y aworld, ActionResult option) act" where
  "ImageBuild_Hook OS a =
     seq (ctx_string_ok ''workdir'' ''get workdir error'') (\<lambda>workdir.
     seq (build_command OS [''docker'', ''build'', ''-t'', im_imageName a, ''.''] workdir) (\<lambda>(out, err).
     case err of Some e \<Rightarrow> fail ''docker build image failed'' | None \<Rightarrow> ret None))"

definition image_result :: "string \<Rightarrow> ActionResult" where
  "image_result n = empty_ActionResult\<lparr>ar_Artifactorys := [\<lparr>art_Name = n, art_Url = []\<rparr>],
     ar_BuildData := [\<lparr>bld_ImageName = n\<rparr>]\<rparr>"

definition ImagePush_Hook :: "'y os_lib \<Rightarrow> ImageAction \<Rightarrow> ('y aworld, ActionResult option) act" where
  "ImagePush_Hook OS a =
     seq (ctx_string_ok ''workdir'' ''get workdir error'') (\<lambda>workdir.
     seq (push_command OS [''docker'', ''push'', im_imageName a] workdir) (\<lambda>(out, err).
     case err of
       Some e \<Rightarrow> fail ''docker push image failed''
     | None \<Rightarrow>
         seq (push_command OS [''docker'', ''rmi'', im_imageName a] workdir) (\<lambda>r.
         ret (Some (image_result (im_imageName a))))))"

definition ImagePush_Pre :: "ImageAction \<Rightarrow> ('y aworld, ImageAction) act" where
  "ImagePush_Pre a = Image_Pre a"

definition Image_Post :: "('y aworld, unit) act" where "Image_Post = ret ()"
definition ImagePush_Post :: "('y aworld, unit) act" where "ImagePush_Post = ret ()"

section \<open>action_remote.go, model/remote_action.go\<close>

record ActionInputArg =
  ai_Description :: string
  ai_Default :: string
  ai_Required :: bool

record ActionStep =
  as_Run :: string
  as_Shell :: string

record RemoteAction =
  ra_Name :: string
  ra_Description :: string
  ra_Author :: string
  ra_Inputs :: "(string, ActionInputArg) gomap"
  ra_Using :: string
  ra_Steps :: "ActionStep list"

record RemoteHandler =
  rh_name :: string
  rh_args :: "(string, string) gomap"
  rh_actionRoot :: string

text \<open>
  \<open>rand.Intn\<close> by call; \<open>yaml.Unmarshal\<close>, which fills what it can before it fails; a command with its
  environment, directory, output and error.
\<close>

record 'y remote_lib =
  rl_intn :: "'y aworld \<Rightarrow> nat \<Rightarrow> nat"
  rl_yaml :: "string \<Rightarrow> RemoteAction \<times> error option"
  rl_exec :: "string list \<Rightarrow> string list \<Rightarrow> string \<Rightarrow> 'y aworld \<Rightarrow> (string \<times> error option) \<times> 'y aworld"

definition letters :: string where
  "letters = ''abcdefghijklmnopqrstuvwxyzABCDEFGHIJKLMNOPQRSTUVWXYZ''"

definition RandSeq :: "(nat \<Rightarrow> nat) \<Rightarrow> nat \<Rightarrow> string" where
  "RandSeq intn n = map (\<lambda>i. letters ! (intn i mod length letters)) [0..<n]"

definition NewRemoteAction :: "Step \<Rightarrow> RemoteHandler" where
  "NewRemoteAction step = \<lparr>rh_name = step_Uses step, rh_args = step_With step, rh_actionRoot = []\<rparr>"

definition Remote_Pre :: "'y os_lib \<Rightarrow> 'y remote_lib \<Rightarrow> RemoteHandler \<Rightarrow> ('y aworld, RemoteHandler) act" where
  "Remote_Pre OS R a =
     seq (ctx_string ''name'') (\<lambda>pipelineName.
     seq (ctx_string ''hamsterRoot'') (\<lambda>hamsterRoot.
     seq (look (\<lambda>w. RandSeq (rl_intn R w) 9)) (\<lambda>cloneDir.
     seq (attempt (act_MkdirAll hamsterRoot)) (\<lambda>r.
     seq (attempt (act_Remove (PathJoin [hamsterRoot, pipelineName]))) (\<lambda>r.
     seq (act_run_cmd OS [''git'', ''clone'', ''--progress'', ''https://github.com/'' @ rh_name a, cloneDir] hamsterRoot) (\<lambda>(output, err).
     case err of
       Some e \<Rightarrow> fail e
     | None \<Rightarrow> ret (a\<lparr>rh_actionRoot := PathJoin [hamsterRoot, cloneDir]\<rparr>)))))))"

definition remote_env :: "'y os_lib \<Rightarrow> RemoteHandler \<Rightarrow> (string, ActionInputArg) gomap \<Rightarrow> string list \<Rightarrow> string list" where
  "remote_env OS a inputs env =
     env @ map (\<lambda>k. k @ ''='' @ (case m_load (rh_args a) k of None \<Rightarrow> [] | Some v \<Rightarrow> v)) (os_map_order OS (m_keys inputs))"

definition step_file :: "string \<Rightarrow> nat \<Rightarrow> string" where
  "step_file root i = PathJoin [root, ''step-'' @ Itoa (int i)]"

text \<open>The loop over the steps: what \<open>Run\<close> names is run if it exists, otherwise it is a script.\<close>

fun remote_steps :: "'y remote_lib \<Rightarrow> string \<Rightarrow> string list \<Rightarrow> nat \<Rightarrow> ActionStep list \<Rightarrow> ('y aworld, unit) act" where
  "remote_steps R root env i [] = ret ()"
| "remote_steps R root env i (s # ss) =
     seq (look (\<lambda>w. Stat (w_fs w) (path_of (PathJoin [root, as_Run s])))) (\<lambda>st.
     seq (case st of
            Inr n \<Rightarrow> ret [as_Run s]
          | Inl e \<Rightarrow> seq (act_WriteFile (step_file root i) (as_Run s)) (\<lambda>u. ret [''-c'', step_file root i])) (\<lambda>args.
     seq (\<lambda>w. case rl_exec R env (as_Shell s # args) root w of (r, w') \<Rightarrow> (Returns (Inr r), w')) (\<lambda>(output, err).
     remote_steps R root env (Suc i) ss)))"

definition Remote_Hook :: "'y os_lib \<Rightarrow> 'y remote_lib \<Rightarrow> RemoteHandler \<Rightarrow> ('y aworld, ActionResult option) act" where
  "Remote_Hook OS R a =
     seq (look w_ctx) (\<lambda>stack.
     case m_load stack ''env'' of
       Some (CStrs env) \<Rightarrow>
         seq (act_ReadFile (PathJoin [rh_actionRoot a, ''action.yml''])) (\<lambda>yamlFile.
         case rl_yaml R yamlFile of (remoteAction, err) \<Rightarrow>
           seq (remote_steps R (rh_actionRoot a) (remote_env OS a (ra_Inputs remoteAction) env) 0 (ra_Steps remoteAction)) (\<lambda>u.
           case err of Some e \<Rightarrow> fail e | None \<Rightarrow> ret None))
     | _ \<Rightarrow> fail ''env cannot be empty'')"

definition Remote_Post :: "RemoteHandler \<Rightarrow> ('y aworld, unit) act" where
  "Remote_Post a = act_RemoveAll (rh_actionRoot a)"

section \<open>What a remote action runs\<close>

type_synonym call = "string list \<times> string list \<times> string"

definition log_call :: "call \<Rightarrow> (call list) aworld \<Rightarrow> (call list) aworld" where
  "log_call c w = w\<lparr>w_ext := (w_ext w)\<lparr>ax_rest := ax_rest (w_ext w) @ [c]\<rparr>\<rparr>"

text \<open>A tool that leaves the files alone and keeps a log; what it prints and whether it fails is \<open>out\<close>.\<close>

definition logging :: "(string list \<Rightarrow> string \<times> error option) \<Rightarrow> (call list) remote_lib \<Rightarrow> bool" where
  "logging out R \<longleftrightarrow> (\<forall>env cmd dir w. rl_exec R env cmd dir w = (out cmd, log_call (env, cmd, dir) w))"

definition run_path :: "string \<Rightarrow> ActionStep \<Rightarrow> path" where
  "run_path root s = path_of (PathJoin [root, as_Run s])"

definition step_call :: "fs \<Rightarrow> string \<Rightarrow> nat \<Rightarrow> ActionStep \<Rightarrow> string list" where
  "step_call fs root i s =
     as_Shell s # (if isl (Stat fs (run_path root s)) then [''-c'', step_file root i] else [as_Run s])"

definition step_place :: "path \<Rightarrow> nat \<Rightarrow> path" where
  "step_place ds i = ds @ [''step-'' @ Itoa (int i)]"

text \<open>The directory of the action takes the files of the steps, and no step names one of them.\<close>

definition steps_writable :: "fs \<Rightarrow> path \<Rightarrow> bool" where
  "steps_writable fs ds \<longleftrightarrow> dirs_ok fs ds \<and> fs_lookup fs ds = Some FDir \<and> \<not> denied fs ds \<and>
     (\<forall>i. \<not> denied fs (step_place ds i) \<and> fs_lookup fs (step_place ds i) \<noteq> Some FDir)"

definition steps_apart :: "path \<Rightarrow> ActionStep list \<Rightarrow> bool" where
  "steps_apart ds ss \<longleftrightarrow> (\<forall>s \<in> set ss. \<forall>i. run_path (abs_path ds) s \<noteq> step_place ds i)"

lemma step_place_inject [simp]: "step_place ds i = step_place ds j \<longleftrightarrow> i = j"
  by (simp add: step_place_def)

lemma step_place_ne [simp]: "step_place ds i \<noteq> []" "step_place ds i \<noteq> ds" "ds \<noteq> step_place ds i"
  by (simp_all add: step_place_def)

lemma step_file_place:
  assumes "list_all good_comp ds"
  shows "path_of (step_file (abs_path ds) i) = step_place ds i"
proof -
  have "good_comp (''step-'' @ Itoa (int i))"
    by (auto simp: good_comp_def dot_def dotdot_def)
  then show ?thesis
    using assms PathJoin_abs [of ds "[''step-'' @ Itoa (int i)]"] path_of_abs [of "step_place ds i"]
    by (simp add: step_file_def step_place_def)
qed

lemma isl_Stat_put:
  assumes "fs_lookup fs p \<noteq> Some FDir" and "q \<noteq> p" and "p \<noteq> []"
  shows "isl (Stat (fs_put p (FFile c) fs) q) = isl (Stat fs q)"
proof -
  have "dirs_ok (fs_put p (FFile c) fs) q = dirs_ok fs q"
    using assms by (auto simp: dirs_ok_def)
  then have "(\<exists>n. Stat (fs_put p (FFile c) fs) q = Inr n) = (\<exists>n. Stat fs q = Inr n)"
    using assms by (simp add: Stat_Inr)
  then show ?thesis by (metis isl_def sum.exhaust sum.distinct(1))
qed

lemma steps_writable_put:
  "steps_writable fs ds \<Longrightarrow> steps_writable (fs_put (step_place ds i) (FFile c) fs) ds"
  using dirs_ok_put [of fs ds "step_place ds i" "FFile c"] by (simp add: steps_writable_def)

lemma steps_writable_ok:
  "steps_writable fs ds \<Longrightarrow> WriteFile (step_place ds i) c fs = (None, fs_put (step_place ds i) (FFile c) fs)"
  using dirs_ok_snoc [of fs ds "''step-'' @ Itoa (int i)"]
  by (intro WriteFile_ok) (auto simp: steps_writable_def step_place_def)

text \<open>One step: what it wrote, and what was run.\<close>

definition step_fs :: "path \<Rightarrow> nat \<Rightarrow> ActionStep \<Rightarrow> fs \<Rightarrow> fs" where
  "step_fs ds i s fs =
     (if isl (Stat fs (run_path (abs_path ds) s)) then fs_put (step_place ds i) (FFile (as_Run s)) fs else fs)"

lemma remote_step:
  assumes "list_all good_comp ds" and "steps_writable (w_fs w) ds" and "logging out R"
  shows "remote_steps R (abs_path ds) env i (s # ss) w =
    remote_steps R (abs_path ds) env (Suc i) ss
      (log_call (env, step_call (w_fs w) (abs_path ds) i s, abs_path ds) (w\<lparr>w_fs := step_fs ds i s (w_fs w)\<rparr>))"
proof (cases "Stat (w_fs w) (run_path (abs_path ds) s)")
  case (Inl e)
  then have "act_WriteFile (step_file (abs_path ds) i) (as_Run s) w =
      (Returns (Inr ()), w\<lparr>w_fs := step_fs ds i s (w_fs w)\<rparr>)"
    using assms by (simp add: act_WriteFile_def step_file_place steps_writable_ok step_fs_def)
  then show ?thesis
    using Inl assms(3) unfolding run_path_def logging_def
    by (simp add: seq_Returns act_run step_call_def run_path_def split: prod.splits)
next
  case (Inr n)
  then show ?thesis
    using assms(3) unfolding run_path_def logging_def
    by (simp add: seq_Returns act_run step_call_def step_fs_def run_path_def split: prod.splits)
qed

lemma step_fs_simps:
  assumes "steps_writable fs ds"
  shows "steps_writable (step_fs ds i s fs) ds"
    and "q \<noteq> step_place ds i \<Longrightarrow> fs_lookup (step_fs ds i s fs) q = fs_lookup fs q"
    and "fs_deny (step_fs ds i s fs) = fs_deny fs"
    and "steps_apart ds (s' # ss) \<Longrightarrow> isl (Stat (step_fs ds i s fs) (run_path (abs_path ds) s')) =
      isl (Stat fs (run_path (abs_path ds) s'))"
proof -
  show "steps_writable (step_fs ds i s fs) ds" using assms by (simp add: step_fs_def steps_writable_put)
  show "steps_apart ds (s' # ss) \<Longrightarrow> isl (Stat (step_fs ds i s fs) (run_path (abs_path ds) s')) =
      isl (Stat fs (run_path (abs_path ds) s'))"
    using assms isl_Stat_put [of fs "step_place ds i" "run_path (abs_path ds) s'" "as_Run s"]
    by (simp add: step_fs_def steps_apart_def steps_writable_def)
qed (simp_all add: step_fs_def)

lemma log_call_simps [simp]:
  "w_fs (log_call c w) = w_fs w" "ax_rest (w_ext (log_call c w)) = ax_rest (w_ext w) @ [c]"
  by (simp_all add: log_call_def)

lemma steps_apart_Cons: "steps_apart ds (s # ss) \<longleftrightarrow> steps_apart ds [s] \<and> steps_apart ds ss"
  by (auto simp: steps_apart_def)

lemma remote_steps_log:
  assumes "list_all good_comp ds" and "logging out R" and "steps_writable (w_fs w) ds" and "steps_apart ds ss"
  shows "\<exists>w'. remote_steps R (abs_path ds) env i ss w = (Returns (Inr ()), w') \<and>
    ax_rest (w_ext w') = ax_rest (w_ext w) @
      map (\<lambda>(j, s). (env, step_call (w_fs w) (abs_path ds) j s, abs_path ds)) (enumerate i ss) \<and>
    steps_writable (w_fs w') ds \<and>
    (\<forall>j. j < i \<longrightarrow> fs_lookup (w_fs w') (step_place ds j) = fs_lookup (w_fs w) (step_place ds j)) \<and>
    (\<forall>(j, s) \<in> set (enumerate i ss). isl (Stat (w_fs w) (run_path (abs_path ds) s)) \<longrightarrow>
      fs_lookup (w_fs w') (step_place ds j) = Some (FFile (as_Run s)))"
  using assms(3,4)
proof (induction ss arbitrary: i w)
  case Nil
  then show ?case by (simp add: act_run)
next
  case (Cons s ss)
  let ?fs = "step_fs ds i s (w_fs w)"
  let ?w1 = "log_call (env, step_call (w_fs w) (abs_path ds) i s, abs_path ds) (w\<lparr>w_fs := ?fs\<rparr>)"
  note fs = step_fs_simps [OF Cons.prems(1), where i = i and s = s]
  have apart: "steps_apart ds ss" using Cons.prems(2) steps_apart_Cons by blast
  from Cons.IH [of ?w1 "Suc i"] fs(1) apart obtain w' where w':
    "remote_steps R (abs_path ds) env (Suc i) ss ?w1 = (Returns (Inr ()), w')"
    "ax_rest (w_ext w') = ax_rest (w_ext ?w1) @
      map (\<lambda>(j, s). (env, step_call ?fs (abs_path ds) j s, abs_path ds)) (enumerate (Suc i) ss)"
    "steps_writable (w_fs w') ds"
    "\<forall>j < Suc i. fs_lookup (w_fs w') (step_place ds j) = fs_lookup ?fs (step_place ds j)"
    "\<forall>(j, s) \<in> set (enumerate (Suc i) ss). isl (Stat ?fs (run_path (abs_path ds) s)) \<longrightarrow>
      fs_lookup (w_fs w') (step_place ds j) = Some (FFile (as_Run s))"
    by auto
  have same: "isl (Stat ?fs (run_path (abs_path ds) s')) = isl (Stat (w_fs w) (run_path (abs_path ds) s'))"
    if "s' \<in> set ss" for s'
    using fs(4) [of s' ss] apart that by (auto simp: steps_apart_def)
  have in_ss: "s' \<in> set ss" if "(j, s') \<in> set (enumerate (Suc i) ss)" for j s'
    using that by (auto simp: enumerate_eq_zip dest: set_zip_rightD)
  have "map (\<lambda>(j, s). (env, step_call ?fs (abs_path ds) j s, abs_path ds)) (enumerate (Suc i) ss) =
      map (\<lambda>(j, s). (env, step_call (w_fs w) (abs_path ds) j s, abs_path ds)) (enumerate (Suc i) ss)"
    using same in_ss by (intro map_cong refl) (auto simp: step_call_def)
  moreover have "fs_lookup (w_fs w') (step_place ds j) = fs_lookup (w_fs w) (step_place ds j)" if "j < i" for j
    using w'(4) fs(2) [of "step_place ds j"] that by simp
  moreover have "fs_lookup (w_fs w') (step_place ds i) = Some (FFile (as_Run s))"
    if "isl (Stat (w_fs w) (run_path (abs_path ds) s))"
    using w'(4) that by (simp add: step_fs_def)
  moreover have "remote_steps R (abs_path ds) env i (s # ss) w = (Returns (Inr ()), w')"
    using remote_step [OF assms(1) Cons.prems(1) assms(2), of env i s ss] w'(1) by simp
  moreover have "\<forall>(j, s) \<in> set (enumerate (Suc i) ss). isl (Stat (w_fs w) (run_path (abs_path ds) s)) \<longrightarrow>
      fs_lookup (w_fs w') (step_place ds j) = Some (FFile (as_Run s))"
    using w'(5) same in_ss by blast
  ultimately show ?case using w'(2,3) by auto
qed


definition demo_action :: RemoteAction where
  "demo_action = \<lparr>ra_Name = [], ra_Description = [], ra_Author = [],
     ra_Inputs = [(''v'', \<lparr>ai_Description = [], ai_Default = ''1'', ai_Required = True\<rparr>)], ra_Using = [],
     ra_Steps = [\<lparr>as_Run = ''build.sh'', as_Shell = ''sh''\<rparr>, \<lparr>as_Run = ''make test'', as_Shell = ''bash''\<rparr>]\<rparr>"

definition demo_remote :: "(call list) remote_lib" where
  "demo_remote = \<lparr>rl_intn = (\<lambda>w i. 0), rl_yaml = (\<lambda>y. (demo_action, None)),
     rl_exec = (\<lambda>env cmd dir w. (([], Some ''exit status 1''), log_call (env, cmd, dir) w))\<rparr>"

definition demo_remote_os :: "(call list) os_lib" where
  "demo_remote_os = \<lparr>os_run = (\<lambda>c d w. (([], None), w)), os_stream = (\<lambda>c d e w. (([], None), w)),
     os_environ = [], os_rand = (\<lambda>w. ''r''), os_minute = (\<lambda>t. 0), os_format = demo_format,
     os_map_order = (\<lambda>ks. ks), os_readdir = (\<lambda>ns. ns), os_home = Inr ''/h''\<rparr>"

definition demo_clone :: "(call list) aworld" where
  "demo_clone = \<lparr>w_fs = \<lparr>fs_nodes = [([''r''], FDir), ([''r'', ''action.yml''], FFile ''y''),
       ([''r'', ''build.sh''], FFile ''make'')], fs_deny = []\<rparr>,
     w_out = fst demo_out, w_ctx = [(''env'', CStrs [''PIPELINE_ID=1''])], w_time = 1,
     w_ext = \<lparr>ax_heap = [], ax_rest = []\<rparr>\<rparr>"


text \<open>A working directory that is still empty does not outlive \<open>Pre\<close>.\<close>

lemma mkdir_from_existing:
  "Stat fs (pre @ cs) = Inr FDir \<Longrightarrow> mkdir_from pre cs fs = (None, fs)"
proof (induction cs arbitrary: pre)
  case (Cons c cs)
  have "Stat fs (pre @ [c]) = Inr FDir"
  proof (cases cs)
    case (Cons d ds)
    then have "strict_prefix (pre @ [c]) (pre @ c # cs)" by (simp add: strict_prefix_def)
    then show ?thesis
      using Cons.prems by (auto simp: Stat_Inr dirs_ok_def dest: prefix_order.dual_order.strict_trans)
  qed (use Cons.prems in simp)
  then show ?case using Cons.IH [of "pre @ [c]"] Cons.prems by simp
qed simp

lemma remove_empty_dir:
  assumes "Stat fs p = Inr FDir" and "fs_children fs p = []" and "p \<noteq> []"
  shows "Remove p fs = (None, fs_del p fs)" and "\<And>n. Stat (fs_del p fs) p \<noteq> Inr n"
proof -
  show "Remove p fs = (None, fs_del p fs)" using assms by (simp add: Remove_def)
  show "Stat (fs_del p fs) p \<noteq> Inr n" for n using assms(3) by (simp add: Stat_Inr)
qed

text \<open>
  \<open>Pre\<close> of a remote action removes the working directory of its job when nothing is in it yet: in
  the context that \<open>Execute\<close> sets up, the path it removes is that directory, so the steps after it have
  none to run in.
\<close>

theorem remote_removes_workdir:
  assumes "w_ctx w = engine_context E jid job" and "e_home E = abs_path hs"
    and "list_all good_comp hs" and "good_comp (job_Name job)" and "pure_tool OS out"
    and "Stat (w_fs w) (hs @ [''workdir'', job_Name job]) = Inr FDir"
    and "fs_children (w_fs w) (hs @ [''workdir'', job_Name job]) = []"
  shows "\<exists>dir. m_load (w_ctx w) ''workdir'' = Some (CStr dir) \<and> Stat (w_fs w) (path_of dir) = Inr FDir \<and>
    (\<forall>n. Stat (w_fs (snd (Remote_Pre OS R a w))) (path_of dir) \<noteq> Inr n)"
proof -
  let ?root = "abs_path (hs @ [''workdir''])" and ?p = "hs @ [''workdir'', job_Name job]"
  have wd: "good_comp ''workdir''" by (simp add: good_comp_def dot_def dotdot_def)
  have root: "PathJoin [abs_path hs, ''workdir''] = ?root"
    using PathJoin_abs [of hs "[''workdir'']"] assms(3) wd by simp
  have dir: "PathJoin [?root, job_Name job] = abs_path ?p" "path_of (abs_path ?p) = ?p" "path_of ?root = hs @ [''workdir'']"
    using PathJoin_abs [of "hs @ [''workdir'']" "[job_Name job]"] assms(3,4) wd by simp_all
  have ctx: "m_load (w_ctx w) ''name'' = Some (CStr (job_Name job))" "m_load (w_ctx w) ''hamsterRoot'' = Some (CStr ?root)"
    "m_load (w_ctx w) ''workdir'' = Some (CStr (abs_path ?p))"
    using assms(1,2) root dir by (simp_all add: engine_context_def Let_def m_load_def m_store_def)
  have "strict_prefix (hs @ [''workdir'']) ?p" by (simp add: strict_prefix_def)
  then have "Stat (w_fs w) (hs @ [''workdir'']) = Inr FDir"
    using assms(6) by (auto simp: Stat_Inr dirs_ok_def dest: prefix_order.dual_order.strict_trans)
  then have mk: "MkdirAll (hs @ [''workdir'']) (w_fs w) = (None, w_fs w)"
    using mkdir_from_existing [of "w_fs w" "[]"] by (simp add: MkdirAll_def)
  note rm = remove_empty_dir [OF assms(6,7)]
  have "w_fs (snd (Remote_Pre OS R a w)) = fs_del ?p (w_fs w)"
    using ctx mk rm(1) dir assms(5)
    by (simp add: Remote_Pre_def seq_def ctx_string_def ret_def look_def attempt_def act_MkdirAll_def act_Remove_def
        act_run_cmd_def pure_tool_def Let_def fail_def split: prod.splits option.splits)
  then show ?thesis using ctx(3) dir rm(2) assms(6) by auto
qed

theorem remote_removes_workdir_witness:
  "\<forall>n. Stat (w_fs (snd (Remote_Pre demo_os \<lparr>rl_intn = (\<lambda>w i. i), rl_yaml = (\<lambda>y. undefined), rl_exec = (\<lambda>e c d w. (([], None), w))\<rparr>
      \<lparr>rh_name = ''o/a'', rh_args = [], rh_actionRoot = []\<rparr>
      (demo_checks\<lparr>w_fs := \<lparr>fs_nodes = [([''h''], FDir), ([''h'', ''workdir''], FDir), ([''h'', ''workdir'', ''j''], FDir)], fs_deny = []\<rparr>,
        w_ctx := engine_context demo_env 1 two_steps\<rparr>)))) [''h'', ''workdir'', ''j''] \<noteq> Inr n"
proof -
  let ?w = "demo_checks\<lparr>w_fs := \<lparr>fs_nodes = [([''h''], FDir), ([''h'', ''workdir''], FDir), ([''h'', ''workdir'', ''j''], FDir)], fs_deny = []\<rparr>,
        w_ctx := engine_context demo_env 1 two_steps\<rparr>"
  have "Stat (w_fs ?w) ([''h''] @ [''workdir'', job_Name two_steps]) = Inr FDir"
    "fs_children (w_fs ?w) ([''h''] @ [''workdir'', job_Name two_steps]) = []"
    "list_all good_comp [''h'']" "good_comp (job_Name two_steps)" by code_simp+
  moreover have "e_home demo_env = abs_path [''h'']" "pure_tool demo_os (\<lambda>c. ([], None))"
    by (simp_all add: demo_env_def abs_path_def pure_tool_def demo_os_def)
  moreover have "m_load (w_ctx ?w) ''workdir'' = Some (CStr ''/h/workdir/j'')" "path_of ''/h/workdir/j'' = [''h'', ''workdir'', ''j'']"
    by code_simp+
  ultimately show ?thesis
    using remote_removes_workdir [of ?w demo_env 1 two_steps "[''h'']" demo_os "\<lambda>c. ([], None)"
      "\<lparr>rl_intn = (\<lambda>w i. i), rl_yaml = (\<lambda>y. undefined), rl_exec = (\<lambda>e c d w. (([], None), w))\<rparr>"
      "\<lparr>rh_name = ''o/a'', rh_args = [], rh_actionRoot = []\<rparr>"] by auto
qed

section \<open>What the OpenAI step returns\<close>

definition pure_chat :: "'y openai_lib \<Rightarrow> (string \<Rightarrow> string list res) \<Rightarrow> bool" where
  "pure_chat L chat \<longleftrightarrow> (\<forall>c m p w. ol_chat L c m p w = (Returns (chat p), w))"

definition code_of :: "fs \<Rightarrow> string \<Rightarrow> string" where
  "code_of fs f = (case GetFileData f fs of Inl e \<Rightarrow> [] | Inr code \<Rightarrow> code)"

definition asked :: "(string \<Rightarrow> string list res) \<Rightarrow> fs \<Rightarrow> string \<Rightarrow> string res" where
  "asked chat fs f = map_sum id (openai_answer f) (chat (openai_prompt (code_of fs f)))"

lemma askOpenAiChat_asked:
  assumes "pure_chat L chat"
  shows "\<exists>w'. askOpenAiChat OS L f w = (Returns (asked chat (w_fs w) f), w') \<and> w_fs w' = w_fs w"
  using assms
  by (cases "chat (openai_prompt (code_of (w_fs w) f))")
    (auto simp: askOpenAiChat_def seq_def attempt_def act_ReadFile_def pure_chat_def asked_def code_of_def
      out_line_def upd_def fail_def ret_def)

lemma ask_files_asked:
  assumes "pure_chat L chat"
  shows "\<exists>w'. ask_files OS L fs acc w =
    (Returns (Inr (let q = asked chat (w_fs w); ok = takeWhile (\<lambda>f. \<not> isl (q f)) fs in
       (acc @ concat (map (\<lambda>f. projr (q f)) ok), if ok = fs then None else Some (projl (q (fs ! length ok)))))), w')"
proof (induction fs arbitrary: acc w)
  case Nil
  then show ?case by (simp add: ret_def)
next
  case (Cons f fs)
  obtain w1 where w1: "askOpenAiChat OS L f w = (Returns (asked chat (w_fs w) f), w1)" "w_fs w1 = w_fs w"
    using askOpenAiChat_asked [OF assms] by blast
  show ?case
  proof (cases "asked chat (w_fs w) f")
    case (Inl e)
    then show ?thesis using w1 by (simp add: seq_def attempt_def ret_def)
  next
    case (Inr t)
    then show ?thesis using w1 Cons.IH [of "acc @ t" w1] by (auto simp: seq_def attempt_def Let_def)
  qed
qed

text \<open>
  C38. What the OpenAI step returns: the contracts are asked about in their order up to the first that
  fails, and the answers until there are its report, as a success.  The error counts only when all
  answers so far are empty; the contracts after it are not reviewed.
\<close>

theorem openai_report:
  assumes "pure_chat L chat" and "m_load (w_ctx w) ''workdir'' = Some (CStr dir)"
    and "m_load (w_ctx w) ''id'' = Some (CStr (Itoa jid))" and "in_int64 jid"
    and "files = suffix_files (PathJoin [dir, oa_dir a]) (oa_suffix a) (w_fs w)"
    and "ok = takeWhile (\<lambda>f. \<not> isl (asked chat (w_fs w) f)) files"
    and "review = concat (map (\<lambda>f. projr (asked chat (w_fs w) f)) ok)"
  shows "fst (Openai_Hook OS L a w) = Returns (if review = [] \<and> ok \<noteq> files
    then Inl (projl (asked chat (w_fs w) (files ! length ok)))
    else Inr (Some (empty_ActionResult\<lparr>ar_Reports :=
      [\<lparr>rep_Id = jid, rep_Url = [], rep_Type = 3, rep_Content = review\<rparr>]\<rparr>)))"
proof -
  obtain w' where "ask_files OS L files [] w =
      (Returns (Inr (review, if ok = files then None else Some (projl (asked chat (w_fs w) (files ! length ok))))), w')"
    using ask_files_asked [OF assms(1), of OS files "[]" w] assms(6,7) by (auto simp: Let_def)
  then show ?thesis
    using assms(2-5) by (auto simp: Openai_Hook_def ctx_default_def seq_def look_def out_line_def upd_def ret_def fail_def
        atoi_value_def)
qed

definition demo_chat :: "unit openai_lib" where
  "demo_chat = \<lparr>ol_env = (\<lambda>k. []), ol_chat = (\<lambda>c m p. if HasPrefix p ''A'' then ret [''fine''] else fail ''timeout'')\<rparr>"

theorem openai_report_witness:
  "fst (Openai_Hook demo_os demo_chat \<lparr>oa_dir = ''w'', oa_suffix = ''.sol''\<rparr>
      (demo_checks\<lparr>w_fs := demo_tree, w_ctx := [(''workdir'', CStr ''/''), (''id'', CStr ''1'')]\<rparr>)) =
    Returns (Inr (Some (empty_ActionResult\<lparr>ar_Reports :=
      [\<lparr>rep_Id = 1, rep_Url = [], rep_Type = 3, rep_Content = ''a.sol '' @ nl @ '' fine'' @ nl\<rparr>]\<rparr>)))"
proof -
  let ?chat = "\<lambda>p. if HasPrefix p ''A'' then Inr [''fine''] else Inl ''timeout''"
  let ?w = "demo_checks\<lparr>w_fs := demo_tree, w_ctx := [(''workdir'', CStr ''/''), (''id'', CStr ''1'')]\<rparr>"
  let ?a = "\<lparr>oa_dir = ''w'', oa_suffix = ''.sol''\<rparr>"
  let ?files = "suffix_files (PathJoin [''/'', oa_dir ?a]) (oa_suffix ?a) (w_fs ?w)"
  have chat: "pure_chat demo_chat ?chat" by (simp add: pure_chat_def demo_chat_def ret_def fail_def)
  have fs: "[''/w/a.sol'', ''/w/lib/b.sol''] = ?files" by code_simp
  have tree: "w_fs ?w = demo_tree" by simp
  have ok: "[''/w/a.sol''] = takeWhile (\<lambda>f. \<not> isl (asked ?chat (w_fs ?w) f)) [''/w/a.sol'', ''/w/lib/b.sol'']"
    unfolding tree by code_simp
  have review: "''a.sol '' @ nl @ '' fine'' @ nl = concat (map (\<lambda>f. projr (asked ?chat (w_fs ?w) f)) [''/w/a.sol''])"
    unfolding tree by code_simp
  have ctx: "m_load (w_ctx ?w) ''workdir'' = Some (CStr ''/'')" "m_load (w_ctx ?w) ''id'' = Some (CStr (Itoa 1))"
    by code_simp+
  show ?thesis
    using openai_report [OF chat ctx _ fs ok review, of demo_os] by (simp add: in_int64_def nl_def)
qed

end
