(* ===== verification/Delivery.thy ===== *)
theory Delivery
  imports Deploy
begin

text \<open>
  What one job saves and another fetches: the archive of an \<open>hamster-artifactory\<close> step, its download by
  \<open>hamster-ipfs\<close> or \<open>icp-deploy\<close>, and the cache of \<open>.dfx\<close> between two runs of a job.
\<close>

section \<open>Fetching an archive\<close>

lemma fetch_file_url:
  assumes url: "nl_url N u = Inr (''file'', src, s)" and F: "PathJoin [workdir, Base u] = F" "Ext F = ''.zip''"
    and W1: "WriteFile (path_of F) [] (w_fs w) = (None, fs1)" and src: "can_open fs1 src" "GetFileData src fs1 = Inr z"
    and W2: "WriteFile (path_of F) z fs1 = (None, fs2)" and R: "ReadFile (path_of F) fs2 = Inr z"
    and U: "nl_unzip N z = Inr zw" "unzip_entries workdir zw fs2 = Inr (None, fs3)"
  shows "\<exists>w'. fetch_artifact OS N u workdir w = (Returns (Inr ()), w') \<and> w_fs w' = snd (Remove (path_of F) fs3)"
proof -
  have ne: "F \<noteq> []" using F(2) by (auto simp: Ext_def after_slash_def)
  obtain e fs4 where rm: "Remove (path_of F) fs3 = (e, fs4)" by force
  show ?thesis
    using F(2) W1 src W2 R U ne rm
    by (cases e) (simp_all add: fetch_artifact_def url F(1) store_as_def DeCompressZip_def seq_def attempt_def out_line_def
      upd_def ret_def look_def checked_def act_WriteFile_def act_Remove_def Let_def fail_def)
qed

lemma read_after_remove:
  assumes "readStringFromFile q fs = Inr d" and "path_of q \<noteq> p" and "\<not> strict_prefix p (path_of q)"
  shows "readStringFromFile q (snd (Remove p fs)) = Inr d"
proof (cases "Stat fs p")
  case (Inr n)
  show ?thesis
  proof (cases "p = [] \<or> n = FDir \<and> fs_children fs p \<noteq> []")
    case True
    then show ?thesis using Inr assms(1) by (auto simp: Remove_def)
  next
    case False
    then have "snd (Remove p fs) = fs_del p fs" using Inr by (auto simp: Remove_def)
    moreover have "dirs_ok (fs_del p fs) (path_of q)"
      using assms False by (auto simp: read_iff dirs_ok_def)
    ultimately show ?thesis using assms False by (simp add: read_iff)
  qed
qed (use assms(1) in \<open>simp add: Remove_def\<close>)

lemma vacant_put:
  assumes "vacant fs ds name" and "f \<noteq> name"
  shows "vacant (fs_put (ds @ [f]) (FFile c) fs) ds name"
proof -
  have "fs_lookup (fs_put (ds @ [f]) (FFile c) fs) q = fs_lookup fs q" if "prefix q ds \<or> (\<exists>rel. q = ds @ name # rel)" for q
    using that assms(2) by (auto dest: prefix_length_le)
  then show ?thesis using assms unfolding vacant_def by simp
qed


text \<open>A format for archives: every character behind an \<open>a\<close>, every word ends in a \<open>b\<close>.\<close>

definition enc_word :: "string \<Rightarrow> string" where
  "enc_word n = concat (map (\<lambda>c. [CHR ''a'', c]) n) @ ''b''"

fun dec_word :: "string \<Rightarrow> string \<times> string" where
  "dec_word (a # c # s) = (if a = CHR ''a'' then (case dec_word s of (n, r) \<Rightarrow> (c # n, r)) else ([], c # s))"
| "dec_word s = ([], [])"

definition enc_zip :: "zip \<Rightarrow> string" where
  "enc_zip zw = concat (map (\<lambda>(n, d). enc_word n @ enc_word d) zw)"

fun dec_zip :: "nat \<Rightarrow> string \<Rightarrow> zip" where
  "dec_zip 0 s = []"
| "dec_zip (Suc k) s = (if s = [] then [] else (case dec_word s of (n, r) \<Rightarrow> (case dec_word r of (d, r') \<Rightarrow> (n, d) # dec_zip k r')))"

lemma dec_enc_word [simp]: "dec_word (enc_word n @ r) = (n, r)"
  by (induction n) (cases r; simp add: enc_word_def)+

lemma enc_word_ne [simp]: "enc_word n \<noteq> []"
  by (simp add: enc_word_def)

lemma dec_enc_zip: "length zw \<le> k \<Longrightarrow> dec_zip k (enc_zip zw) = zw"
proof (induction zw arbitrary: k)
  case Nil
  then show ?case by (cases k) (simp_all add: enc_zip_def)
next
  case (Cons e zw)
  then show ?case by (cases k; cases e) (simp_all add: enc_zip_def)
qed

lemma length_enc_zip: "length zw \<le> length (enc_zip zw)"
proof (induction zw)
  case (Cons e zw)
  obtain n d where "e = (n, d)" by force
  then show ?case using Cons by (simp add: enc_zip_def) (simp add: enc_word_def)
qed simp

definition demo_files :: "unit net_lib" where
  "demo_files = demo_net\<lparr>nl_url := (\<lambda>u. Inr (''file'', drop 7 u, u)), nl_unzip := (\<lambda>s. Inr (dec_zip (length s) s))\<rparr>"

definition demo_saved :: "unit aworld" where
  "demo_saved = snd (Artifactory_Hook demo_os enc_zip (\<lambda>z. None) \<lparr>af_name = ''out.zip'', af_path = [abs_path [''w'']], af_compress = True\<rparr> demo_save)"

lemma demo_saved_paths:
  "m_keys (fs_nodes (w_fs demo_saved)) =
     [[''w''], [''w'', ''a.sol''], [''w'', ''lib''], [''w'', ''lib'', ''b.sol''], [''w'', ''c.txt''], [''h''],
      [''h'', ''pipelines''], [''h'', ''pipelines'', ''jobs''], [''h'', ''pipelines'', ''jobs'', ''j''],
      [''h'', ''pipelines'', ''jobs'', ''j'', ''artifactory''],
      [''h'', ''pipelines'', ''jobs'', ''j'', ''artifactory'', ''1''],
      [''h'', ''pipelines'', ''jobs'', ''j'', ''artifactory'', ''1'', ''out.zip'']]"
  "fs_deny (w_fs demo_saved) = []" "fs_lookup (w_fs demo_saved) [''w''] = Some FDir"
  "Stat (w_fs demo_saved) [''w'', ''lib''] = Inr FDir"
  by code_simp+


section \<open>Copying a tree\<close>

definition apart :: "path \<Rightarrow> path \<Rightarrow> bool" where
  "apart S D \<longleftrightarrow> \<not> prefix S D \<and> \<not> prefix D S"

definition compatible :: "fs \<Rightarrow> path \<Rightarrow> path \<Rightarrow> bool" where
  "compatible fs S D \<longleftrightarrow> (\<forall>rel x. (fs_lookup fs (S @ rel) = Some FDir \<longrightarrow> fs_lookup fs (D @ rel) \<noteq> Some (FFile x)) \<and>
     (fs_lookup fs (S @ rel) = Some (FFile x) \<longrightarrow> fs_lookup fs (D @ rel) \<noteq> Some FDir))"

text \<open>What is at \<open>S\<close> has been copied to \<open>D\<close>, for the relative paths in \<open>A\<close> at least, and nothing else changed.\<close>

definition copied :: "path set \<Rightarrow> fs \<Rightarrow> path \<Rightarrow> path \<Rightarrow> fs \<Rightarrow> bool" where
  "copied A fs S D fs' \<longleftrightarrow> fs_plain fs' \<and> (\<forall>q. \<not> prefix D q \<longrightarrow> fs_lookup fs' q = fs_lookup fs q) \<and>
     (\<forall>rel. fs_lookup fs' (D @ rel) = fs_lookup fs (D @ rel) \<or>
       fs_lookup fs (S @ rel) \<noteq> None \<and> fs_lookup fs' (D @ rel) = fs_lookup fs (S @ rel)) \<and>
     (\<forall>rel \<in> A. fs_lookup fs (S @ rel) \<noteq> None \<longrightarrow> fs_lookup fs' (D @ rel) = fs_lookup fs (S @ rel))"

lemma apart_source: "apart S D \<Longrightarrow> \<not> prefix D (S @ rel)"
  unfolding apart_def by (metis prefix_append prefix_order.dual_order.trans prefix_same_cases prefixI)

lemma copied_source: "copied A fs S D fs' \<Longrightarrow> apart S D \<Longrightarrow> fs_lookup fs' (S @ rel) = fs_lookup fs (S @ rel)"
  using apart_source unfolding copied_def by blast

lemma copied_compatible:
  assumes "copied A fs S D fs'" and "apart S D" and "compatible fs S D"
  shows "compatible fs' S D"
proof -
  have "fs_lookup fs' (D @ rel) = fs_lookup fs (D @ rel) \<or>
      fs_lookup fs (S @ rel) \<noteq> None \<and> fs_lookup fs' (D @ rel) = fs_lookup fs (S @ rel)" for rel
    using assms(1) unfolding copied_def by blast
  then show ?thesis
    using assms(3) copied_source [OF assms(1,2)] unfolding compatible_def by (metis fnode.distinct(1) option.inject)
qed

lemma copied_trans:
  assumes "copied A fs S D fs1" and "copied B fs1 S D fs2" and "apart S D"
  shows "copied (A \<union> B) fs S D fs2"
proof -
  have src: "fs_lookup fs1 (S @ rel) = fs_lookup fs (S @ rel)" for rel by (rule copied_source [OF assms(1,3)])
  have "fs_lookup fs2 (D @ rel) = fs_lookup fs (S @ rel)" if "rel \<in> A \<union> B" "fs_lookup fs (S @ rel) \<noteq> None" for rel
    using that assms(1,2) src [of rel] unfolding copied_def by (metis Un_iff)
  then show ?thesis using assms(1,2) src unfolding copied_def by metis
qed

lemma copied_child:
  assumes "copied UNIV fs (S @ [n]) (D @ [n]) fs'"
  shows "copied {n # r | r. True} fs S D fs'"
proof -
  have "\<not> prefix (D @ [n]) q" if "\<not> prefix D q" for q using that by (metis append_prefixD)
  moreover have "fs_lookup fs' (D @ rel) = fs_lookup fs (D @ rel) \<or>
      fs_lookup fs (S @ rel) \<noteq> None \<and> fs_lookup fs' (D @ rel) = fs_lookup fs (S @ rel)" for rel
  proof (cases "prefix [n] rel")
    case True
    then obtain r where "rel = n # r" by (auto simp: prefix_def)
    then show ?thesis using assms unfolding copied_def by (metis append.assoc append_Cons append_Nil)
  next
    case False
    then have "\<not> prefix (D @ [n]) (D @ rel)" by simp
    then show ?thesis using assms unfolding copied_def by blast
  qed
  moreover have "fs_lookup fs (S @ n # r) \<noteq> None \<longrightarrow> fs_lookup fs' (D @ n # r) = fs_lookup fs (S @ n # r)" for r
    using assms unfolding copied_def by (metis UNIV_I append.assoc append_Cons append_Nil)
  ultimately show ?thesis using assms unfolding copied_def by blast
qed

lemma copied_all:
  "copied A fs S D fs' \<Longrightarrow> (\<And>rel. fs_lookup fs (S @ rel) \<noteq> None \<Longrightarrow> rel \<in> A) \<Longrightarrow> copied UNIV fs S D fs'"
  unfolding copied_def by blast

lemma plain_child_dirs:
  "fs_plain fs \<Longrightarrow> fs_lookup fs D = Some FDir \<Longrightarrow> dirs_ok fs (D @ [n]) \<and> \<not> denied fs q"
  using fs_ok_dirs [of fs D FDir] by (auto simp: dirs_ok_snoc fs_plain_def fs_ok_def)

lemma copy_file_copied:
  assumes "fs_plain fs" and "fs_lookup fs (S @ [n]) = Some (FFile d)" and "apart S D" and "list_all good_comp (D @ [n])"
    and "fs_lookup fs D = Some FDir" and "fs_lookup fs (D @ [n]) \<noteq> Some FDir"
  shows "\<exists>fs'. copy_file (abs_path (S @ [n])) (abs_path (D @ [n])) fs = (None, fs') \<and>
    copied UNIV fs (S @ [n]) (D @ [n]) fs'"
proof -
  let ?s = "S @ [n]" and ?t = "D @ [n]"
  let ?fs1 = "fs_put ?t (FFile []) fs" and ?fs2 = "fs_put ?t (FFile d) (fs_put ?t (FFile []) fs)"
  have ok: "fs_ok fs" using assms(1) by (simp add: fs_plain_def)
  have ne: "?s \<noteq> ?t" using assms(3) by (auto simp: apart_def)
  have good: "path_of (abs_path ?s) = ?s" "path_of (abs_path ?t) = ?t"
    using assms(4) fs_plain_dir_good [OF assms(1,2)] by simp_all
  note d = plain_child_dirs [OF assms(1,5)]
  have plain1: "fs_plain ?fs1" using assms by (intro fs_plain_put) auto
  have D1: "fs_lookup ?fs1 D = Some FDir" using assms(5) by simp
  have plain2: "fs_plain ?fs2" using fs_plain_put [OF plain1 assms(4), of "FFile d"] D1 by simp
  have W1: "WriteFile ?t [] fs = (None, ?fs1)" using d assms(6) by (intro WriteFile_ok) auto
  have W2: "WriteFile ?t d ?fs1 = (None, ?fs2)" using plain_child_dirs [OF plain1 D1] by (intro WriteFile_ok) auto
  have read: "ReadFile ?s g = Inr d" if "fs_plain g" "fs_lookup g ?s = Some (FFile d)" for g
    using that fs_ok_Stat_Some [of g ?s "FFile d"] by (auto simp: ReadFile_def fs_plain_def fs_ok_def)
  have "copy_file (abs_path ?s) (abs_path ?t) fs = (None, ?fs2)"
    using read [OF assms(1,2)] read [OF plain1] W1 W2 good ne assms(2) by (simp add: copy_file_def)
  moreover have "copied UNIV fs ?s ?t ?fs2"
  proof -
    have leaf: "rel = []" if "fs_lookup fs (?s @ rel) \<noteq> None" for rel
      using that fs_ok_prefix [OF ok, of ?s rel] assms(2) by (cases "rel = []") auto
    have same: "fs_lookup ?fs2 q = fs_lookup fs q" if "q \<noteq> ?t" for q using that by simp
    have new: "fs_lookup ?fs2 (?t @ rel) = fs_lookup fs (?s @ rel)" if "fs_lookup fs (?s @ rel) \<noteq> None" for rel
      using leaf [OF that] assms(2) by simp
    have "fs_lookup ?fs2 (?t @ rel) = fs_lookup fs (?t @ rel) \<or>
        fs_lookup fs (?s @ rel) \<noteq> None \<and> fs_lookup ?fs2 (?t @ rel) = fs_lookup fs (?s @ rel)" for rel
      using same [of "?t @ rel"] new [of rel] assms(2) by (cases "rel = []") auto
    then show ?thesis using plain2 same new unfolding copied_def by (metis prefix_order.dual_order.refl)
  qed
  ultimately show ?thesis by blast
qed

lemma MkdirAll_child:
  assumes "fs_plain fs" and "fs_lookup fs D = Some FDir" and "\<And>x. fs_lookup fs (D @ [n]) \<noteq> Some (FFile x)"
  shows "MkdirAll (D @ [n]) fs = (None, if fs_lookup fs (D @ [n]) = None then fs_put (D @ [n]) FDir fs else fs)"
proof -
  have "mkdir_from pre (cs @ ds) fs = mkdir_from (pre @ cs) ds fs" if "dirs_ok fs (pre @ cs)" "fs_lookup fs (pre @ cs) = Some FDir" for pre cs ds
    using that
  proof (induction cs arbitrary: pre)
    case (Cons c cs)
    have "Stat fs (pre @ [c]) = Inr FDir"
    proof (cases cs)
      case (Cons d ds)
      then have "strict_prefix (pre @ [c]) (pre @ c # cs)" by (simp add: strict_prefix_def)
      then show ?thesis
        using Cons.prems(1) by (auto simp: Stat_Inr dirs_ok_def dest: prefix_order.dual_order.strict_trans)
    qed (use Cons.prems in \<open>simp add: Stat_Inr\<close>)
    then show ?case using Cons.IH [of "pre @ [c]"] Cons.prems by simp
  qed simp
  from this [of "[]" D "[n]"] have "mkdir_from [] (D @ [n]) fs = mkdir_from D [n] fs"
    using assms(1,2) fs_ok_dirs [of fs D FDir] by (simp add: fs_plain_def)
  moreover have "Stat fs (D @ [n]) = (case fs_lookup fs (D @ [n]) of None \<Rightarrow> Inl ENOENT | Some m \<Rightarrow> Inr m)"
    using fs_ok_dirs [of fs D FDir] assms(1,2) plain_child_dirs [OF assms(1,2)]
    by (subst Stat_snoc) (auto simp: fs_plain_def)
  moreover have "fs_lookup fs (D @ [n]) = None \<or> fs_lookup fs (D @ [n]) = Some FDir"
    using assms(3) by (metis fnode.exhaust option.exhaust)
  ultimately show ?thesis by (auto simp: MkdirAll_def)
qed

lemma apart_child: "apart S D \<Longrightarrow> apart (S @ [n]) (D @ [n])"
  unfolding apart_def by (metis append_prefixD prefix_snoc)

lemma compatible_child: "compatible fs S D \<Longrightarrow> compatible fs (S @ [n]) (D @ [n])"
  unfolding compatible_def by simp

lemma copied_dir:
  "copied A fs S D fs' \<Longrightarrow> fs_lookup fs S = Some FDir \<Longrightarrow> fs_lookup fs D = Some FDir \<Longrightarrow> fs_lookup fs' D = Some FDir"
  unfolding copied_def by (metis append_Nil2)

definition copy_entry :: "nat \<Rightarrow> string \<Rightarrow> string \<Rightarrow> string \<Rightarrow> fs \<Rightarrow> error option \<times> fs" where
  "copy_entry n src dst name fs = (case Stat fs (path_of (PathJoin [src, name])) of
      Inr FDir \<Rightarrow> copy_dir n (PathJoin [src, name]) (PathJoin [dst, name]) fs
    | _ \<Rightarrow> copy_file (PathJoin [src, name]) (PathJoin [dst, name]) fs)"

lemma copy_dir_copied:
  "fs_plain fs \<Longrightarrow> fs_lookup fs S = Some FDir \<Longrightarrow> apart S (D @ [x]) \<Longrightarrow> list_all good_comp (D @ [x]) \<Longrightarrow>
   fs_lookup fs D = Some FDir \<Longrightarrow> compatible fs S (D @ [x]) \<Longrightarrow>
   (\<And>rel. fs_lookup fs (S @ rel) \<noteq> None \<Longrightarrow> length rel < n) \<Longrightarrow>
   \<exists>fs'. copy_dir n (abs_path S) (abs_path (D @ [x])) fs = (None, fs') \<and> copied UNIV fs S (D @ [x]) fs'"
proof (induction n arbitrary: fs S D x)
  case 0
  then show ?case by (metis append_Nil2 less_zeroE option.distinct(1))
next
  case (Suc n)
  let ?T = "D @ [x]"
  have gS: "list_all good_comp S" using fs_plain_dir_good [OF Suc.prems(1,2)] .
  have paths: "path_of (abs_path S) = S" "path_of (abs_path ?T) = ?T" using gS Suc.prems(4) by simp_all
  have nofile: "fs_lookup fs ?T \<noteq> Some (FFile y)" for y
    using Suc.prems(2,6) unfolding compatible_def by (metis append_Nil2)
  define fs1 where "fs1 = (if fs_lookup fs ?T = None then fs_put ?T FDir fs else fs)"
  have mk: "MkdirAll ?T fs = (None, fs1)" unfolding fs1_def by (rule MkdirAll_child [OF Suc.prems(1,5) nofile])
  have "fs_lookup fs ?T = None \<or> fs_lookup fs ?T = Some FDir" using nofile by (metis fnode.exhaust option.exhaust)
  then have T1: "fs_lookup fs1 ?T = Some FDir" by (auto simp: fs1_def)
  have c1: "copied {[]} fs S ?T fs1"
  proof (cases "fs_lookup fs ?T = None")
    case True
    then have fs1: "fs1 = fs_put ?T FDir fs" by (simp add: fs1_def)
    have "fs_plain fs1" using fs_plain_put [OF Suc.prems(1,4), of FDir] Suc.prems(5) True fs1 by simp
    moreover have "fs_lookup fs1 q = fs_lookup fs q" if "q \<noteq> ?T" for q using that fs1 by simp
    moreover have "fs_lookup fs1 (?T @ rel) = fs_lookup fs (?T @ rel) \<or>
        fs_lookup fs (S @ rel) \<noteq> None \<and> fs_lookup fs1 (?T @ rel) = fs_lookup fs (S @ rel)" for rel
      using Suc.prems(2) fs1 by (cases "rel = []") simp_all
    ultimately show ?thesis using T1 Suc.prems(2) unfolding copied_def by (metis append_Nil2 prefix_order.dual_order.refl singletonD)
  next
    case False
    then have "fs1 = fs" unfolding fs1_def by (rule if_not_P)
    then show ?thesis using Suc.prems(1,2) T1 by (simp add: copied_def)
  qed
  have step: "\<exists>h. copy_entry n (abs_path S) (abs_path ?T) name g = (None, h) \<and> copied {name # r | r. True} g S ?T h"
    if g: "fs_plain g" "fs_lookup g ?T = Some FDir" "compatible g S ?T" "\<And>rel. fs_lookup g (S @ rel) = fs_lookup fs (S @ rel)"
      "fs_lookup fs (S @ [name]) \<noteq> None" for g name
  proof -
    obtain m where m: "fs_lookup g (S @ [name]) = Some m" using g(4,5) by (metis option.exhaust)
    have good: "list_all good_comp (S @ [name])" using fs_plain_dir_good [OF g(1) m] .
    then have gn: "list_all good_comp (?T @ [name])" using Suc.prems(4) by simp
    have join: "PathJoin [abs_path S, name] = abs_path (S @ [name])" "PathJoin [abs_path ?T, name] = abs_path (?T @ [name])"
      using PathJoin_abs [of S "[name]"] PathJoin_abs [of ?T "[name]"] good gn by simp_all
    have st: "Stat g (path_of (abs_path (S @ [name]))) = Inr m"
      using fs_ok_Stat_Some [of g "S @ [name]" m] g(1) m good by (simp add: fs_plain_def)
    show ?thesis
    proof (cases m)
      case FDir
      have "length rel < n" if "fs_lookup g ((S @ [name]) @ rel) \<noteq> None" for rel
        using that g(4) [of "name # rel"] Suc.prems(7) [of "name # rel"] by simp
      then obtain h where "copy_dir n (abs_path (S @ [name])) (abs_path (?T @ [name])) g = (None, h)"
        "copied UNIV g (S @ [name]) (?T @ [name]) h"
        using Suc.IH [OF g(1) _ apart_child [OF Suc.prems(3)] gn g(2) compatible_child [OF g(3)]] m FDir by blast
      then show ?thesis using copied_child FDir st by (simp add: copy_entry_def join)
    next
      case (FFile d)
      have "fs_lookup g (?T @ [name]) \<noteq> Some FDir" using g(3) m FFile unfolding compatible_def by blast
      then obtain h where "copy_file (abs_path (S @ [name])) (abs_path (?T @ [name])) g = (None, h)"
        "copied UNIV g (S @ [name]) (?T @ [name]) h"
        using copy_file_copied [OF g(1) _ Suc.prems(3) gn g(2)] m FFile by blast
      then show ?thesis using copied_child FFile st by (simp add: copy_entry_def join)
    qed
  qed
  have loop: "\<exists>h. copy_entries (copy_entry n (abs_path S) (abs_path ?T)) names g = (None, h) \<and>
      copied {name # r | name r. name \<in> set names} g S ?T h"
    if "fs_plain g" "fs_lookup g ?T = Some FDir" "compatible g S ?T" "\<And>rel. fs_lookup g (S @ rel) = fs_lookup fs (S @ rel)"
      "\<And>name. name \<in> set names \<Longrightarrow> fs_lookup fs (S @ [name]) \<noteq> None" for names g
    using that
  proof (induction names arbitrary: g)
    case Nil
    then show ?case by (simp add: copied_def)
  next
    case (Cons name names)
    obtain h where h: "copy_entry n (abs_path S) (abs_path ?T) name g = (None, h)" "copied {name # r | r. True} g S ?T h"
      using step [OF Cons.prems(1-4) Cons.prems(5) [of name]] by auto
    have S: "fs_lookup h (S @ rel) = fs_lookup fs (S @ rel)" for rel
      using copied_source [OF h(2) Suc.prems(3)] Cons.prems(4) by simp
    have "fs_lookup g S = Some FDir" using Cons.prems(4) [of "[]"] Suc.prems(2) by simp
    then have T: "fs_lookup h ?T = Some FDir" using copied_dir [OF h(2)] Cons.prems(2) by simp
    have "fs_plain h" using h(2) by (simp add: copied_def)
    then obtain k where k: "copy_entries (copy_entry n (abs_path S) (abs_path ?T)) names h = (None, k)"
      "copied {name # r | name r. name \<in> set names} h S ?T k"
      using Cons.IH [OF _ T copied_compatible [OF h(2) Suc.prems(3) Cons.prems(3)] S] Cons.prems(5) by auto
    have "{n # r | n r. n \<in> set (name # names)} = {name # r | r. True} \<union> {n # r | n r. n \<in> set names}" by auto
    then show ?case using h(1) k(1) copied_trans [OF h(2) k(2) Suc.prems(3)] by simp
  qed
  have S1: "fs_lookup fs1 (S @ rel) = fs_lookup fs (S @ rel)" for rel by (rule copied_source [OF c1 Suc.prems(3)])
  have plain1: "fs_plain fs1" using c1 by (simp add: copied_def)
  have kids: "name \<in> set (sort (fs_children fs1 S)) \<longleftrightarrow> fs_lookup fs (S @ [name]) \<noteq> None" for name
    using S1 [of "[name]"] fs_lookup_key [of "S @ [name]" fs1] by (simp add: children_iff)
  obtain h where h: "copy_entries (copy_entry n (abs_path S) (abs_path ?T)) (sort (fs_children fs1 S)) fs1 = (None, h)"
    "copied {name # r | name r. name \<in> set (sort (fs_children fs1 S))} fs1 S ?T h"
    using loop [OF plain1 T1 copied_compatible [OF c1 Suc.prems(3,6)] S1] kids by blast
  have dirS: "Stat fs S = Inr FDir" "Stat fs1 S = Inr FDir" "fs_deny fs1 = []"
    using fs_ok_Stat_Some Suc.prems(1,2) plain1 S1 [of "[]"] by (auto simp: fs_plain_def fs_ok_def)
  have "copy_dir (Suc n) (abs_path S) (abs_path ?T) fs = (None, h)"
    using paths dirS mk h(1) by (simp add: ReadDir_def copy_entry_def [abs_def])
  moreover have "copied UNIV fs S ?T h"
  proof (rule copied_all [OF copied_trans [OF c1 h(2) Suc.prems(3)]])
    fix rel assume rel: "fs_lookup fs (S @ rel) \<noteq> None"
    show "rel \<in> {[]} \<union> {name # r | name r. name \<in> set (sort (fs_children fs1 S))}"
    proof (cases rel)
      case (Cons name r)
      then have "fs_lookup fs (S @ [name]) \<noteq> None"
        using rel fs_ok_prefix [of fs "S @ [name]" r] Suc.prems(1) by (cases "r = []") (auto simp: fs_plain_def)
      then show ?thesis using Cons kids by auto
    qed simp
  qed
  ultimately show ?case by blast
qed

section \<open>The cache of .dfx\<close>

definition no_file_above :: "fs \<Rightarrow> path \<Rightarrow> bool" where
  "no_file_above fs p \<longleftrightarrow> (\<forall>q x. prefix q p \<longrightarrow> fs_lookup fs q \<noteq> Some (FFile x))"

lemma MkdirAll_plain:
  assumes "fs_plain fs" and "list_all good_comp p" and "no_file_above fs p"
  shows "\<exists>fs1. MkdirAll p fs = (None, fs1) \<and> fs_plain fs1 \<and> fs_lookup fs1 p = Some FDir \<and> adds_dirs p fs fs1"
proof -
  obtain e fs1 where m: "MkdirAll p fs = (e, fs1)" by force
  have "fst (mkdir_from [] p fs) = None"
    using assms(1,3) by (intro mkdir_from_free) (auto simp: no_file_above_def fs_plain_def fs_ok_def)
  then have e: "e = None" using m by (simp add: MkdirAll_def)
  moreover have "fs_plain fs1" using mkdir_from_plain [of "[]" p fs e fs1] m assms(1,2) by (simp add: MkdirAll_def)
  ultimately show ?thesis using MkdirAll_adds [OF m] m by (auto simp: Stat_Inr)
qed

lemma adds_dirs_source:
  assumes "adds_dirs p fs fs'" and "apart S p"
  shows "fs_lookup fs' (S @ rel) = fs_lookup fs (S @ rel)"
proof -
  have "\<not> prefix (S @ rel) p" using assms(2) unfolding apart_def by (metis append_prefixD)
  then show ?thesis using assms(1) unfolding adds_dirs_def by blast
qed

text \<open>Making the target and copying into it, as both ends of the cache do.\<close>

lemma copied_into:
  assumes "fs_plain fs" and "fs_lookup fs S = Some FDir" and "apart S (D @ [x])" and "list_all good_comp (D @ [x])"
    and "no_file_above fs (D @ [x])" and "compatible fs S (D @ [x])"
  shows "\<exists>fs1 fs2. MkdirAll (D @ [x]) fs = (None, fs1) \<and> copyDir (abs_path S) (abs_path (D @ [x])) fs1 = (None, fs2) \<and>
    (\<forall>rel n. fs_lookup fs (S @ rel) = Some n \<longrightarrow> fs_lookup fs2 (D @ x # rel) = Some n)"
proof -
  obtain fs1 where m: "MkdirAll (D @ [x]) fs = (None, fs1)" "fs_plain fs1" "fs_lookup fs1 (D @ [x]) = Some FDir"
    "adds_dirs (D @ [x]) fs fs1" using MkdirAll_plain [OF assms(1,4,5)] by blast
  note S = adds_dirs_source [OF m(4) assms(3)]
  have below: "fs_lookup fs1 ((D @ [x]) @ r # rel) = fs_lookup fs ((D @ [x]) @ r # rel)" for r rel
    using m(4) unfolding adds_dirs_def by (auto dest: prefix_length_le)
  have comp: "compatible fs1 S (D @ [x])"
    unfolding compatible_def
  proof (intro allI)
    fix rel y
    show "(fs_lookup fs1 (S @ rel) = Some FDir \<longrightarrow> fs_lookup fs1 ((D @ [x]) @ rel) \<noteq> Some (FFile y)) \<and>
        (fs_lookup fs1 (S @ rel) = Some (FFile y) \<longrightarrow> fs_lookup fs1 ((D @ [x]) @ rel) \<noteq> Some FDir)"
      using assms(2,6) S [of rel] below m(3) unfolding compatible_def by (cases rel) auto
  qed
  have D: "fs_lookup fs1 D = Some FDir" using fs_ok_prefix [of fs1 D "[x]"] m(2,3) by (simp add: fs_plain_def)
  have depth: "length rel < Suc (fs_depth fs1)" if "fs_lookup fs1 (S @ rel) \<noteq> None" for rel
  proof (cases "S @ rel = []")
    case False
    then show ?thesis using that fs_lookup_key [of "S @ rel" fs1] fs_depth_bound [of "S @ rel" fs1] by simp
  qed simp
  obtain fs2 where c: "copyDir (abs_path S) (abs_path (D @ [x])) fs1 = (None, fs2)" "copied UNIV fs1 S (D @ [x]) fs2"
    using copy_dir_copied [OF m(2) _ assms(3,4) D comp depth] assms(2) S [of "[]"] by (auto simp: copyDir_def)
  have "fs_lookup fs2 (D @ x # rel) = Some n" if "fs_lookup fs (S @ rel) = Some n" for rel n
    using c(2) that S [of rel] unfolding copied_def by (metis UNIV_I append.assoc append_Cons append_Nil option.distinct(1))
  with m(1) c(1) show ?thesis by blast
qed

text \<open>
  C40. The \<open>.dfx\<close> directory of a run is there for the next one: what \<open>Post\<close> of \<open>icp-deploy\<close> leaves in the
  cache, the next \<open>Pre\<close> copies into its working directory, every directory and every file with its data,
  as long as the cache is kept and nothing of another kind is in the way.
\<close>

theorem dfx_cache_restored:
  assumes "m_load (w_ctx w) ''workdir'' = Some (CStr (abs_path ws))" and "m_load (w_ctx w) ''name'' = Some (CStr j)"
    and cache: "dfx_cache OS j = abs_path (C @ [c])" "list_all good_comp (C @ [c])"
    and "fs_plain (w_fs w)" and "fs_lookup (w_fs w) (ws @ [''.dfx'']) = Some FDir"
    and "apart (ws @ [''.dfx'']) (C @ [c])" and "no_file_above (w_fs w) (C @ [c])"
    and "compatible (w_fs w) (ws @ [''.dfx'']) (C @ [c])"
    and later: "fs_plain (w_fs w2)"
      "\<And>rel. fs_lookup (w_fs w2) (C @ c # rel) = fs_lookup (w_fs (snd (ICPDeploy_Post OS w))) (C @ c # rel)"
    and ws2: "list_all good_comp ws2" "no_file_above (w_fs w2) (ws2 @ [''.dfx''])"
      "apart (C @ [c]) (ws2 @ [''.dfx''])" "compatible (w_fs w2) (C @ [c]) (ws2 @ [''.dfx''])"
  shows "\<exists>w1 w3. ICPDeploy_Post OS w = (Returns (Inr ()), w1) \<and>
    restore_dfx OS (abs_path ws2) j w2 = (Returns (Inr ()), w3) \<and>
    (\<forall>rel n. fs_lookup (w_fs w) (ws @ ''.dfx'' # rel) = Some n \<longrightarrow> fs_lookup (w_fs w3) (ws2 @ ''.dfx'' # rel) = Some n)"
proof -
  have dfx: "good_comp ''.dfx''" by (simp add: good_comp_def dot_def dotdot_def)
  have gws: "list_all good_comp ws" using fs_plain_dir_good [OF assms(5,6)] by simp
  have paths: "PathJoin [abs_path ws, ''.dfx''] = abs_path (ws @ [''.dfx''])"
    "PathJoin [abs_path ws2, ''.dfx''] = abs_path (ws2 @ [''.dfx''])" "path_of (abs_path (C @ [c])) = C @ [c]"
    "path_of (abs_path (ws2 @ [''.dfx''])) = ws2 @ [''.dfx'']"
    using PathJoin_abs [of ws "[''.dfx'']"] PathJoin_abs [of ws2 "[''.dfx'']"] gws ws2(1) dfx cache(2) by simp_all
  obtain fs1 fs2 where p: "MkdirAll (C @ [c]) (w_fs w) = (None, fs1)"
    "copyDir (abs_path (ws @ [''.dfx''])) (abs_path (C @ [c])) fs1 = (None, fs2)"
    "\<forall>rel n. fs_lookup (w_fs w) ((ws @ [''.dfx'']) @ rel) = Some n \<longrightarrow> fs_lookup fs2 (C @ c # rel) = Some n"
    using copied_into [OF assms(5,6,7) cache(2) assms(8,9)] by blast
  have post: "ICPDeploy_Post OS w = (Returns (Inr ()), w\<lparr>w_fs := fs2\<rparr>)"
    using assms(1,2) cache paths p(1,2)
    by (simp add: ICPDeploy_Post_def GetWorkdir_def GetJobName_def seq_def ctx_string_def ret_def attempt_def
        act_MkdirAll_def act_copyDir_def upd_def)
  have kept: "fs_lookup (w_fs w2) (C @ c # rel) = Some n" if "fs_lookup (w_fs w) (ws @ ''.dfx'' # rel) = Some n" for rel n
    using that p(3) later(2) post by simp
  have C: "fs_lookup (w_fs w2) (C @ [c]) = Some FDir" using kept [of "[]"] assms(6) by simp
  have "no_file_above (w_fs w2) (C @ [c])"
    unfolding no_file_above_def
  proof (intro allI impI)
    fix q y assume "prefix q (C @ [c])"
    then obtain t where "C @ [c] = q @ t" by (auto simp: prefix_def)
    then show "fs_lookup (w_fs w2) q \<noteq> Some (FFile y)"
      using C fs_ok_prefix [of "w_fs w2" q t] later(1) by (cases "t = []") (auto simp: fs_plain_def)
  qed
  then obtain fs3 where m: "MkdirAll (C @ [c]) (w_fs w2) = (None, fs3)" "fs_plain fs3" "fs_lookup fs3 (C @ [c]) = Some FDir"
    "adds_dirs (C @ [c]) (w_fs w2) fs3" using MkdirAll_plain [OF later(1) cache(2)] by blast
  have same: "fs_lookup fs3 q = fs_lookup (w_fs w2) q" for q
  proof (cases "prefix q (C @ [c])")
    case True
    then obtain t where "C @ [c] = q @ t" by (auto simp: prefix_def)
    then have "fs_lookup (w_fs w2) q = Some FDir"
      using C fs_ok_prefix [of "w_fs w2" q t] later(1) by (cases "t = []") (auto simp: fs_plain_def)
    then show ?thesis using m(4) unfolding adds_dirs_def by (metis option.distinct(1))
  qed (use m(4) in \<open>auto simp: adds_dirs_def\<close>)
  obtain fs4 fs5 where r: "MkdirAll (ws2 @ [''.dfx'']) fs3 = (None, fs4)"
    "copyDir (abs_path (C @ [c])) (abs_path (ws2 @ [''.dfx''])) fs4 = (None, fs5)"
    "\<forall>rel n. fs_lookup fs3 ((C @ [c]) @ rel) = Some n \<longrightarrow> fs_lookup fs5 (ws2 @ ''.dfx'' # rel) = Some n"
    using copied_into [OF m(2,3) ws2(3), of] ws2 dfx same unfolding no_file_above_def compatible_def by auto
  have "restore_dfx OS (abs_path ws2) j w2 = (Returns (Inr ()), w2\<lparr>w_fs := fs5\<rparr>)"
    using cache paths m(1) r(1,2)
    by (simp add: restore_dfx_def Let_def seq_def attempt_def act_MkdirAll_def act_copyDir_def upd_def)
  moreover have "fs_lookup fs5 (ws2 @ ''.dfx'' # rel) = Some n" if "fs_lookup (w_fs w) (ws @ ''.dfx'' # rel) = Some n" for rel n
    using r(3) kept [OF that] same by simp
  ultimately show ?thesis using post by auto
qed

lemma fs_plain_check:
  assumes "fs_deny fs = []" and "m_wf (fs_nodes fs)"
    and "list_all (\<lambda>q. q \<noteq> [] \<and> list_all good_comp q \<and> fs_lookup fs (butlast q) = Some FDir) (m_keys (fs_nodes fs))"
  shows "fs_plain fs"
proof -
  have "q \<in> set (m_keys (fs_nodes fs))" if "fs_lookup fs q = Some n" "q \<noteq> []" for q n
    using that fs_lookup_key [of q fs] by simp
  then have "fs_ok fs" using assms(1,3) unfolding fs_ok_def by (auto simp: list_all_iff)
  then show ?thesis using assms by (auto simp: fs_plain_def list_all_iff)
qed

definition demo_dfx_world :: "unit aworld" where
  "demo_dfx_world = demo_checks\<lparr>w_fs := \<lparr>fs_nodes = [([''w''], FDir), ([''w'', ''.dfx''], FDir),
     ([''w'', ''.dfx'', ''ids''], FFile ''x'')], fs_deny = []\<rparr>,
     w_ctx := [(''workdir'', CStr ''/w''), (''name'', CStr ''j'')]\<rparr>"

lemma demo_dfx_post:
  "w_fs (snd (ICPDeploy_Post demo_os demo_dfx_world)) = \<lparr>fs_nodes = [([''w''], FDir), ([''w'', ''.dfx''], FDir),
     ([''w'', ''.dfx'', ''ids''], FFile ''x''), ([''h''], FDir), ([''h'', ''pipelines''], FDir),
     ([''h'', ''pipelines'', ''jobs''], FDir), ([''h'', ''pipelines'', ''jobs'', ''j''], FDir),
     ([''h'', ''pipelines'', ''jobs'', ''j'', ''.dfx''], FDir),
     ([''h'', ''pipelines'', ''jobs'', ''j'', ''.dfx'', ''ids''], FFile ''x'')], fs_deny = []\<rparr>"
  by code_simp

text \<open>Below a name that is not there everything is free.\<close>

lemma free_below:
  assumes "\<forall>q \<in> set (m_keys (fs_nodes fs)). hd q \<noteq> a"
  shows "no_file_above fs (a # p)" and "compatible fs S (a # p)"
proof -
  have none: "fs_lookup fs (a # r) = None" for r
    using assms fs_lookup_key [of "a # r" fs] by auto
  show "compatible fs S (a # p)" by (simp add: compatible_def none)
  show "no_file_above fs (a # p)" by (auto simp: no_file_above_def none prefix_Cons)
qed

theorem dfx_cache_restored_witness:
  "\<exists>w1 w3. ICPDeploy_Post demo_os demo_dfx_world = (Returns (Inr ()), w1) \<and>
     restore_dfx demo_os ''/v'' ''j'' (demo_checks\<lparr>w_fs := w_fs w1\<rparr>) = (Returns (Inr ()), w3) \<and>
     fs_lookup (w_fs w3) [''v'', ''.dfx'', ''ids''] = Some (FFile ''x'')"
proof -
  let ?C = "[''h'', ''pipelines'', ''jobs'', ''j'']" and ?w2 = "demo_checks\<lparr>w_fs := w_fs (snd (ICPDeploy_Post demo_os demo_dfx_world))\<rparr>"
  have w2: "w_fs ?w2 = w_fs (snd (ICPDeploy_Post demo_os demo_dfx_world))" by simp
  have abs: "''/w'' = abs_path [''w'']" "''/v'' = abs_path [''v'']" by (simp_all add: abs_path_def)
  have ctx: "m_load (w_ctx demo_dfx_world) ''workdir'' = Some (CStr (abs_path [''w'']))"
    "m_load (w_ctx demo_dfx_world) ''name'' = Some (CStr ''j'')"
    "dfx_cache demo_os ''j'' = abs_path (?C @ [''.dfx''])" "list_all good_comp (?C @ [''.dfx''])" by code_simp+
  have fs: "fs_plain (w_fs demo_dfx_world)" by (rule fs_plain_check) code_simp+
  have dfx: "fs_lookup (w_fs demo_dfx_world) ([''w''] @ [''.dfx'']) = Some FDir"
    "fs_lookup (w_fs demo_dfx_world) ([''w''] @ ''.dfx'' # [''ids'']) = Some (FFile ''x'')" by code_simp+
  have apart: "apart ([''w''] @ [''.dfx'']) (?C @ [''.dfx''])" "apart (?C @ [''.dfx'']) ([''v''] @ [''.dfx''])"
    by (simp_all add: apart_def)
  have "\<forall>q \<in> set (m_keys (fs_nodes (w_fs demo_dfx_world))). hd q \<noteq> ''h''" by code_simp
  note free1 = free_below [OF this, where p = "[''pipelines'', ''jobs'', ''j'', ''.dfx'']"]
  have "\<forall>q \<in> set (m_keys (fs_nodes (w_fs ?w2))). hd q \<noteq> ''v''" unfolding w2 demo_dfx_post by code_simp
  note free2 = free_below [OF this, where p = "[''.dfx'']"]
  have fs2: "fs_plain (w_fs ?w2)" unfolding w2 demo_dfx_post by (rule fs_plain_check) code_simp+
  have v: "list_all good_comp [''v'']" by code_simp
  obtain w1 w3 where "ICPDeploy_Post demo_os demo_dfx_world = (Returns (Inr ()), w1)"
    "restore_dfx demo_os (abs_path [''v'']) ''j'' ?w2 = (Returns (Inr ()), w3)"
    "\<forall>rel n. fs_lookup (w_fs demo_dfx_world) ([''w''] @ ''.dfx'' # rel) = Some n \<longrightarrow>
      fs_lookup (w_fs w3) ([''v''] @ ''.dfx'' # rel) = Some n"
    using dfx_cache_restored [OF ctx(1,2,3,4) fs dfx(1) apart(1) _ _ fs2 _ v _ apart(2)] free1 free2 w2 by auto
  with dfx(2) abs(2) show ?thesis by auto
qed

end
