(* ===== verification/Support.thy ===== *)
theory Support
  imports Services Aptos "HOL-Library.Word"
begin

text \<open>
  The small functions at the edge of the program: the address, name and directories of the machine
  (\<open>utils/util.go\<close>), the files of Move packages (\<open>utils/aptos.go\<close>), the texts and the artifacts of a
  job detail (\<open>model/stage.go\<close>, \<open>model/job.go\<close>), the context of an action (\<open>ctx/action_context.go\<close>)
  and the accessors of the executor client.  What they ask of the operating system, the TOML
  library and the formatting of times are arguments.
\<close>

section \<open>The machine (utils/util.go)\<close>

record os_user =
  u_Uid :: string
  u_Gid :: string

definition GetUIDAndGID :: "os_user res \<Rightarrow> string \<times> string \<times> error option" where
  "GetUIDAndGID current =
     (case current of Inl e \<Rightarrow> ([], [], Some e) | Inr u \<Rightarrow> (u_Uid u, u_Gid u, None))"

definition DefaultConfigDir :: "string res \<Rightarrow> string" where
  "DefaultConfigDir home =
     (case home of Inl e \<Rightarrow> ''pipelines'' @ ''.'' | Inr d \<Rightarrow> PathJoin [d, ''pipelines''])"

definition GetMyHostname :: "string res \<Rightarrow> string \<times> error option" where
  "GetMyHostname hostname = (case hostname of Inl e \<Rightarrow> (''unknown'', Some e) | Inr h \<Rightarrow> (h, None))"

text \<open>
  An address of an interface is an \<open>*net.IPNet\<close> with its bytes, or something else.  \<open>To4\<close>, \<open>IsLoopback\<close>
  and \<open>String\<close> (of what has four bytes) are those of package net.
\<close>

datatype net_addr = IPNet "8 word list" | OtherAddr

definition To4 :: "8 word list \<Rightarrow> 8 word list option" where
  "To4 bs =
     (if length bs = 4 then Some bs
      else if length bs = 16 \<and> take 10 bs = replicate 10 0 \<and> bs ! 10 = 0xFF \<and> bs ! 11 = 0xFF
      then Some (drop 12 bs) else None)"

definition IsLoopback :: "8 word list \<Rightarrow> bool" where
  "IsLoopback bs =
     (case To4 bs of Some b4 \<Rightarrow> b4 ! 0 = 127 | None \<Rightarrow> bs = replicate 15 0 @ [1])"

definition dotted :: "8 word list \<Rightarrow> string" where
  "dotted b4 = Join (map (\<lambda>b. Itoa (uint b)) b4) ''.''"

fun GetMyIP_loop :: "net_addr list \<Rightarrow> string \<times> error option" where
  "GetMyIP_loop [] = (''unknown'', Some ''can not get ip'')"
| "GetMyIP_loop (OtherAddr # as) = GetMyIP_loop as"
| "GetMyIP_loop (IPNet bs # as) =
     (if IsLoopback bs then GetMyIP_loop as
      else (case To4 bs of Some b4 \<Rightarrow> (dotted b4, None) | None \<Rightarrow> GetMyIP_loop as))"

definition GetMyIP :: "net_addr list res \<Rightarrow> string \<times> error option" where
  "GetMyIP addrs = (case addrs of Inl e \<Rightarrow> (''unknown'', Some e) | Inr as \<Rightarrow> GetMyIP_loop as)"

text \<open>A command keeps the context it was made with; \<open>Run\<close> starts it and waits.\<close>

record 'c Cmd =
  cmd_ctx :: 'c
  cmd_line :: "string list"

definition NewCommand :: "'c \<Rightarrow> string \<Rightarrow> string list \<Rightarrow> 'c Cmd" where
  "NewCommand ctx command args = \<lparr>cmd_ctx = ctx, cmd_line = command # args\<rparr>"

definition Cmd_Start :: "(string list \<Rightarrow> 'w \<Rightarrow> error option \<times> 'w) \<Rightarrow> 'c Cmd \<Rightarrow> ('w, unit) act" where
  "Cmd_Start start c w =
     (case start (cmd_line c) w of
        (Some err, w') \<Rightarrow> fail err w'
      | (None, w') \<Rightarrow> ret () w')"

definition Cmd_Run :: "(string list \<Rightarrow> 'w \<Rightarrow> error option \<times> 'w) \<Rightarrow>
    (string list \<Rightarrow> 'w \<Rightarrow> error option \<times> 'w) \<Rightarrow> 'c Cmd \<Rightarrow> ('w, unit) act" where
  "Cmd_Run start wait c =
     seq (Cmd_Start start c) (\<lambda>u w.
       case wait (cmd_line c) w of (Some err, w') \<Rightarrow> fail err w' | (None, w') \<Rightarrow> ret () w')"

section \<open>Files of Move packages (utils/aptos.go)\<close>

record Package =
  pkg_Name :: string
  pkg_Version :: string

record 'd MoveToml =
  mt_Package :: Package
  mt_Addresses :: "(string, string) gomap"
  mt_Dependencies :: 'd

record 'd toml_lib =
  tl_decode :: "string \<Rightarrow> 'd MoveToml res"
  tl_encode :: "'d MoveToml \<Rightarrow> string res"

definition ParseMoveTomlWithString :: "'d toml_lib \<Rightarrow> string \<Rightarrow> 'd MoveToml res" where
  "ParseMoveTomlWithString T tomlString = tl_decode T tomlString"

definition SaveMoveTomlString :: "'d toml_lib \<Rightarrow> 'd MoveToml \<Rightarrow> string res" where
  "SaveMoveTomlString T moveToml = tl_encode T moveToml"

definition ParseMoveToml :: "'d toml_lib \<Rightarrow> string \<Rightarrow> fs \<Rightarrow> 'd MoveToml res" where
  "ParseMoveToml T tomlPath fs = then_do (GetFileData tomlPath fs) (tl_decode T)"

definition MoveToml_GetAddressField :: "(string list \<Rightarrow> string list) \<Rightarrow> 'd MoveToml \<Rightarrow> KeyValue list" where
  "MoveToml_GetAddressField ord m = GetAddressField ord (mt_Addresses m)"

text \<open>\<open>GetDefaultNamedAddress\<close> and \<open>FileToHexString\<close> on a file of the machine.\<close>

definition DefaultNamedAddress :: "'d toml_lib \<Rightarrow> (string list \<Rightarrow> string list) \<Rightarrow> string \<Rightarrow> fs \<Rightarrow> string res" where
  "DefaultNamedAddress T ord tomlPath fs =
     GetDefaultNamedAddress ord (then_do (ParseMoveToml T tomlPath fs) (\<lambda>m. Inr (mt_Addresses m)))"

section \<open>Texts and artifacts of a job detail (model/stage.go, model/job.go)\<close>

definition StageDetail_ToString :: "(time \<Rightarrow> string) \<Rightarrow> StageDetail \<Rightarrow> string" where
  "StageDetail_ToString fmt s =
     ''StageName: '' @ sd_Name s @ '', status: '' @ Itoa (status_int (sd_Status s)) @
     '', StartTime: '' @ fmt (sd_StartTime s) @ '', Duration: '' @ Itoa (sd_Duration s) @ '' ''"

definition JobDetail_ToString :: "(time \<Rightarrow> string) \<Rightarrow> JobDetail \<Rightarrow> string" where
  "JobDetail_ToString fmt jd =
     (let str = foldl (\<lambda>str s. str @ StageDetail_ToString fmt s @ [CHR 0x0A]) [] (jd_Stages jd) in
      ''job: '' @ job_Name (jd_Job jd) @ '', Status: '' @ Itoa (status_int (jd_Status jd)) @
      '', StartTime: '' @ fmt (jd_StartTime jd) @ '' , Duration: '' @ Itoa (jd_Duration jd) @
      '', stages: ['' @ [CHR 0x0A] @ str @ '']'')"

text \<open>
  \<open>AddArtifactory\<close> of an open file: its name, its path and how much of it has been read.
  \<open>os.Create\<close> empties what is there before the copy.
\<close>

record os_file =
  of_Name :: string
  of_path :: path
  of_offset :: nat

definition rest_of_file :: "os_file \<Rightarrow> fs \<Rightarrow> errno + string" where
  "rest_of_file f fs =
     (case Stat fs (of_path f) of
        Inr (FFile d) \<Rightarrow> Inr (drop (of_offset f) d)
      | Inr FDir \<Rightarrow> Inl EISDIR
      | Inl e \<Rightarrow> Inl e)"

definition AddArtifactory :: "string res \<Rightarrow> os_file \<Rightarrow> JobDetail \<Rightarrow> fs \<Rightarrow> error option \<times> JobDetail \<times> fs" where
  "AddArtifactory home f jd fs =
     (let name = job_Name (jd_Job jd);
          arti = \<lparr>art_Name = of_Name f,
            art_Url = ''/artifactory/'' @ name @ ''/'' @ Itoa (jd_Id jd) @ ''/'' @ of_Name f\<rparr>;
          dir = PathJoin [DefaultConfigDir home, ''artifactory'', name, Itoa (jd_Id jd)];
          fs1 = snd (MkdirAll (path_of dir) fs);
          fullPath = path_of (PathJoin [dir, of_Name f])
      in case WriteFile fullPath [] fs1 of
           (Some e, fs2) \<Rightarrow> (Some (errno_msg e), jd, fs2)
         | (None, fs2) \<Rightarrow>
             (case rest_of_file f fs2 of
                Inl e \<Rightarrow> (Some (errno_msg e), jd, fs2)
              | Inr d \<Rightarrow>
                  (case WriteFile fullPath d fs2 of
                     (Some e, fs3) \<Rightarrow> (Some (errno_msg e), jd, fs3)
                   | (None, fs3) \<Rightarrow>
                       (None, jd\<lparr>jd_ActionResult := (jd_ActionResult jd)\<lparr>ar_Artifactorys :=
                          ar_Artifactorys (jd_ActionResult jd) @ [arti]\<rparr>\<rparr>, fs3))))"

section \<open>The context of an action (ctx/action_context.go)\<close>

text \<open>\<open>ac_ctx\<close> is the value of the context under \<open>stack\<close>, if there is one.\<close>

record ActionContext =
  ac_step :: Step
  ac_ctx :: "(string, ctx_value) gomap option"
  ac_output :: "Output option"

definition NewActionContext :: "Step \<Rightarrow> (string, ctx_value) gomap option \<Rightarrow> Output option \<Rightarrow> ActionContext" where
  "NewActionContext step ctx out = \<lparr>ac_step = step, ac_ctx = ctx, ac_output = out\<rparr>"

definition GetStack :: "ActionContext \<Rightarrow> (string, ctx_value) gomap go" where
  "GetStack a = (case ac_ctx a of None \<Rightarrow> Inl (PanicMsg ''interface conversion'') | Some m \<Rightarrow> Inr m)"

definition GetStackValue :: "string \<Rightarrow> ActionContext \<Rightarrow> ctx_value option go" where
  "GetStackValue key a = then_do (GetStack a) (\<lambda>m. Inr (m_load m key))"

definition ActionContext_WriteLine :: "time_format \<Rightarrow> time \<Rightarrow> string \<Rightarrow> ActionContext \<Rightarrow> ActionContext" where
  "ActionContext_WriteLine C now line a =
     (case ac_output a of None \<Rightarrow> a | Some out \<Rightarrow> a\<lparr>ac_output := Some (WriteLine C now line out)\<rparr>)"

definition GetStepWith :: "string \<Rightarrow> ActionContext \<Rightarrow> string" where
  "GetStepWith key a = step_with (ac_step a) key"

section \<open>The executor client (executor/client.go)\<close>

definition GetStatusChangeChan :: "Executor \<Rightarrow> StatusChangeMessage list" where
  "GetStatusChangeChan ex = ex_StatusChan ex"

definition Client_GetJobStatus :: "string \<Rightarrow> int \<Rightarrow> Executor \<Rightarrow> Status \<times> error option" where
  "Client_GetJobStatus jobName jobID ex = Executor_GetJobStatus jobName jobID ex"

section \<open>What they give\<close>

text \<open>The address a worker announces is a four byte address that does not loop back.\<close>

lemma dotted_address:
  "snd (GetMyIP addrs) = None \<longleftrightarrow>
     (\<exists>as bs b4. addrs = Inr as \<and> IPNet bs \<in> set as \<and> To4 bs = Some b4 \<and> b4 ! 0 \<noteq> 127)"
proof -
  have "snd (GetMyIP_loop as) = None \<longleftrightarrow> (\<exists>bs b4. IPNet bs \<in> set as \<and> To4 bs = Some b4 \<and> b4 ! 0 \<noteq> 127)" for as
    by (induction as rule: GetMyIP_loop.induct) (auto simp: IsLoopback_def split: option.splits)
  then show ?thesis by (auto simp: GetMyIP_def split: sum.splits)
qed

lemma GetMyIP_first:
  assumes "\<And>a. a \<in> set as \<Longrightarrow> a = OtherAddr \<or> (\<exists>bs. a = IPNet bs \<and> (IsLoopback bs \<or> To4 bs = None))"
    and "To4 bs = Some b4" and "b4 ! 0 \<noteq> 127"
  shows "GetMyIP (Inr (as @ IPNet bs # rest)) = (dotted b4, None)"
proof -
  have "GetMyIP_loop (as @ IPNet bs # rest) = (dotted b4, None)"
    using assms
  proof (induction as)
    case Nil
    then show ?case by (simp add: IsLoopback_def)
  next
    case (Cons a as)
    then have "GetMyIP_loop (as @ IPNet bs # rest) = (dotted b4, None)" by simp
    moreover have "a = OtherAddr \<or> (\<exists>bs. a = IPNet bs \<and> (IsLoopback bs \<or> To4 bs = None))"
      by (rule Cons.prems(1)) simp
    ultimately show ?case by (auto split: option.splits)
  qed
  then show ?thesis by (simp add: GetMyIP_def)
qed

text \<open>A Move package written and read again, with a TOML library that inverts itself.\<close>

lemma MoveToml_roundtrip:
  assumes "\<And>m s. tl_encode T m = Inr s \<Longrightarrow> tl_decode T s = Inr m" and "SaveMoveTomlString T m = Inr s"
    and "WriteFile (path_of p) s fs = (None, fs')"
  shows "ParseMoveTomlWithString T s = Inr m" and "ParseMoveToml T p fs' = Inr m"
proof -
  from assms(1,2) have d: "tl_decode T s = Inr m" by (simp add: SaveMoveTomlString_def)
  then show "ParseMoveTomlWithString T s = Inr m" by (simp add: ParseMoveTomlWithString_def)
  have "GetFileData p fs' = Inr s" using WriteFile_read [OF assms(3)] by (simp add: GetFileData_iff)
  with d show "ParseMoveToml T p fs' = Inr m" by (simp add: ParseMoveToml_def)
qed

text \<open>An artifact recorded by \<open>AddArtifactory\<close> lies in its directory, with what was left of the file.\<close>

lemma rest_of_file_put:
  assumes "rest_of_file f fs = Inr d" and "WriteFile p c fs = (None, fs')" and "of_path f \<noteq> p"
  shows "rest_of_file f fs' = Inr d"
proof -
  from WriteFile_None [OF assms(2)] have p: "p \<noteq> []" "fs' = fs_put p (FFile c) fs" "fs_lookup fs p \<noteq> Some FDir" by auto
  obtain D where "Stat fs (of_path f) = Inr (FFile D)" and d: "d = drop (of_offset f) D"
    using assms(1) by (auto simp: rest_of_file_def split: sum.splits fnode.splits)
  then have "Stat fs' (of_path f) = Inr (FFile D)"
    using p assms(3) by (simp add: Stat_Inr dirs_ok_put)
  then show ?thesis by (simp add: rest_of_file_def d)
qed

lemma AddArtifactory_stored:
  assumes "AddArtifactory home f jd fs = (None, jd', fs')"
    and "full = PathJoin [PathJoin [DefaultConfigDir home, ''artifactory'', job_Name (jd_Job jd), Itoa (jd_Id jd)],
      of_Name f]" and "of_path f \<noteq> path_of full"
  shows "\<exists>d. GetFileData full fs' = Inr d \<and> rest_of_file f fs' = Inr d \<and>
    map art_Name (ar_Artifactorys (jd_ActionResult jd')) =
      map art_Name (ar_Artifactorys (jd_ActionResult jd)) @ [of_Name f]"
proof -
  from assms(1,2) obtain fs2 d where r: "rest_of_file f fs2 = Inr d"
    and w: "WriteFile (path_of full) d fs2 = (None, fs')"
    and m: "map art_Name (ar_Artifactorys (jd_ActionResult jd')) =
      map art_Name (ar_Artifactorys (jd_ActionResult jd)) @ [of_Name f]"
    by (auto simp: AddArtifactory_def Let_def split: prod.splits option.splits sum.splits)
  from WriteFile_read [OF w] have "GetFileData full fs' = Inr d" by (simp add: GetFileData_iff)
  with m rest_of_file_put [OF r w assms(3)] show ?thesis by blast
qed

end
