(* ===== verification/Transport.thy ===== *)
theory Transport
  imports Grpc "HOL-Library.Sublist"
begin

text \<open>
  The server and the clients of \<open>grpc/\<close> connected: opening them, the handler of a stream, and the
  network of one master with its workers as a machine whose steps are the rounds of the loops on both
  sides, in any order.  A channel that is full (10000 messages, 100 errors) refuses the step that
  puts something on it, as Go blocks the goroutine.  The messages the engines put on and take
  off the channels are kept beside the state, which is what the theorem compares.
\<close>

section \<open>Opening (GrpcServerStart, GrpcClientStart, AlineChat)\<close>

definition GrpcServerStart :: "error option \<Rightarrow> AlineGrpcServer res" where
  "GrpcServerStart listen = (case listen of Some err \<Rightarrow> Inl err | None \<Rightarrow> Inr NewGrpcServer)"

definition NewGrpcClient :: AlineGrpcClient where
  "NewGrpcClient = \<lparr>gc_RecvMsgChan = [], gc_SendMsgChan = [], gc_ErrorChan = []\<rparr>"

text \<open>\<open>handleMessage\<close> opens the stream before it starts the two loops.\<close>

definition GrpcClientStart :: "error option \<Rightarrow> error option \<Rightarrow> AlineGrpcClient res" where
  "GrpcClientStart dial chat =
     (case dial of Some err \<Rightarrow> Inl err
      | None \<Rightarrow> (case chat of Some err \<Rightarrow> Inl err | None \<Rightarrow> Inr NewGrpcClient))"

text \<open>\<open>AlineChat\<close> on the results of \<open>Recv\<close>: the end of the stream and an error both end it.\<close>

fun AlineChat :: "(string list \<Rightarrow> string list) \<Rightarrow> nat \<Rightarrow> stream_event list \<Rightarrow> AlineGrpcServer \<Rightarrow> AlineGrpcServer" where
  "AlineChat ord stream [] s = s"
| "AlineChat ord stream (Received msg # evs) s = AlineChat ord stream evs (chat_receive stream msg s)"
| "AlineChat ord stream (StreamEOF # evs) s = chat_end ord stream s"
| "AlineChat ord stream (StreamError err # evs) s = chat_end ord stream s"

section \<open>The network\<close>

record net =
  n_server :: AlineGrpcServer
  n_client :: "nat \<Rightarrow> AlineGrpcClient"
  n_down :: "nat \<Rightarrow> AlineMessage list"
  n_up :: "nat \<Rightarrow> AlineMessage list"
  n_closed :: "nat list"
  n_put :: "AlineMessage list"
  n_taken :: "AlineMessage list"
  n_heard :: "(nat \<times> AlineMessage) list"
  n_wput :: "nat \<Rightarrow> AlineMessage list"
  n_wtaken :: "nat \<Rightarrow> AlineMessage list"

definition net_start :: net where
  "net_start =
     \<lparr>n_server = NewGrpcServer, n_client = (\<lambda>c. NewGrpcClient), n_down = (\<lambda>c. []), n_up = (\<lambda>c. []),
      n_closed = [], n_put = [], n_taken = [], n_heard = [], n_wput = (\<lambda>c. []), n_wtaken = (\<lambda>c. [])\<rparr>"

definition chan_cap :: nat where "chan_cap = 10000"
definition error_cap :: nat where "error_cap = 100"

text \<open>
  The rounds: the engine of the master puts or takes a message or an error, its send loop sends
  (\<open>Some\<close> is a failure), the handler of stream \<open>c\<close> receives or ends; the same for the worker behind
  stream \<open>c\<close>.
\<close>

datatype net_event =
    MasterPuts AlineMessage | MasterSends "error option" | MasterReceives nat | MasterTakes
  | MasterTakesError | StreamEnds "string list \<Rightarrow> string list" nat
  | WorkerPuts nat "AlineMessage option" | WorkerSends nat | WorkerReceives nat | WorkerTakes nat

definition put_down :: "(nat \<times> AlineMessage) option \<Rightarrow> (nat \<Rightarrow> AlineMessage list) \<Rightarrow> nat \<Rightarrow> AlineMessage list" where
  "put_down d down = (case d of None \<Rightarrow> down | Some (c, m) \<Rightarrow> down(c := down c @ [m]))"

definition send_on :: "nat list \<Rightarrow> error option \<Rightarrow> nat \<Rightarrow> AlineMessage \<Rightarrow> error option" where
  "send_on closed e c m = (if c \<in> set closed then Some ''transport is closing'' else e)"

fun net_do :: "net_event \<Rightarrow> net \<Rightarrow> net option" where
  "net_do (MasterPuts m) N =
     (let s = n_server N in
      if length (gs_SendMsgChan s) \<ge> chan_cap then None
      else Some (N\<lparr>n_server := s\<lparr>gs_SendMsgChan := gs_SendMsgChan s @ [m]\<rparr>, n_put := n_put N @ [m]\<rparr>))"
| "net_do (MasterSends e) N =
     (if gs_SendMsgChan (n_server N) = [] then None
      else case server_send (send_on (n_closed N) e) (n_server N) of
        Inl p \<Rightarrow> None
      | Inr (d, s) \<Rightarrow>
          if length (gs_ErrorChan s) > error_cap then None
          else Some (N\<lparr>n_server := s, n_down := put_down d (n_down N)\<rparr>))"
| "net_do (MasterReceives c) N =
     (case n_up N c of
        [] \<Rightarrow> None
      | m # ms \<Rightarrow>
          if c \<in> set (n_closed N) \<or> length (gs_RecvMsgChan (n_server N)) \<ge> chan_cap then None
          else Some (N\<lparr>n_server := chat_receive c m (n_server N), n_up := (n_up N)(c := ms),
            n_heard := n_heard N @ [(c, m)]\<rparr>))"
| "net_do MasterTakes N =
     (case gs_RecvMsgChan (n_server N) of
        [] \<Rightarrow> None
      | m # ms \<Rightarrow> Some (N\<lparr>n_server := (n_server N)\<lparr>gs_RecvMsgChan := ms\<rparr>, n_taken := n_taken N @ [m]\<rparr>))"
| "net_do MasterTakesError N =
     (case gs_ErrorChan (n_server N) of
        [] \<Rightarrow> None
      | e # es \<Rightarrow> Some (N\<lparr>n_server := (n_server N)\<lparr>gs_ErrorChan := es\<rparr>\<rparr>))"
| "net_do (StreamEnds ord c) N =
     Some (N\<lparr>n_server := chat_end ord c (n_server N), n_closed := c # n_closed N\<rparr>)"
| "net_do (WorkerPuts c msg) N =
     (let cl = n_client N c in
      if length (gc_SendMsgChan cl) \<ge> chan_cap then None
      else Some (N\<lparr>n_client := (n_client N)(c := cl\<lparr>gc_SendMsgChan := gc_SendMsgChan cl @ [msg]\<rparr>),
        n_wput := (n_wput N)(c := n_wput N c @ (case msg of None \<Rightarrow> [] | Some m \<Rightarrow> [m]))\<rparr>))"
| "net_do (WorkerSends c) N =
     (case client_send (\<lambda>m. if c \<in> set (n_closed N) then Some ''transport is closing'' else None) (n_client N c) of
        Inr (Some m, cl) \<Rightarrow> Some (N\<lparr>n_client := (n_client N)(c := cl), n_up := (n_up N)(c := n_up N c @ [m])\<rparr>)
      | _ \<Rightarrow> None)"
| "net_do (WorkerReceives c) N =
     (case n_down N c of
        [] \<Rightarrow> None
      | m # ms \<Rightarrow>
          if c \<in> set (n_closed N) \<or> length (gc_RecvMsgChan (n_client N c)) \<ge> chan_cap then None
          else Some (N\<lparr>n_client := (n_client N)(c := snd (client_receive (Received m) (n_client N c))),
            n_down := (n_down N)(c := ms)\<rparr>))"
| "net_do (WorkerTakes c) N =
     (case gc_RecvMsgChan (n_client N c) of
        [] \<Rightarrow> None
      | m # ms \<Rightarrow> Some (N\<lparr>n_client := (n_client N)(c := (n_client N c)\<lparr>gc_RecvMsgChan := ms\<rparr>),
          n_wtaken := (n_wtaken N)(c := n_wtaken N c @ [m])\<rparr>))"

fun net_run :: "net_event list \<Rightarrow> net \<Rightarrow> net option" where
  "net_run [] N = Some N"
| "net_run (e # es) N = (case net_do e N of None \<Rightarrow> None | Some N' \<Rightarrow> net_run es N')"

section \<open>Its invariant\<close>

text \<open>
  A log of the send loop: every message it has taken with the stream it went to, if any.
\<close>

definition to_stream :: "nat \<Rightarrow> (nat option \<times> AlineMessage) list \<Rightarrow> AlineMessage list" where
  "to_stream c log = map snd (filter (\<lambda>e. fst e = Some c) log)"

definition from_stream :: "nat \<Rightarrow> (nat \<times> AlineMessage) list \<Rightarrow> AlineMessage list" where
  "from_stream c heard = map snd (filter (\<lambda>e. fst e = c) heard)"

definition msg_key :: "AlineMessage \<Rightarrow> string" where
  "msg_key m = GetNodeKey (msg_Name m) (msg_Address m)"

definition announced :: "net \<Rightarrow> nat \<Rightarrow> string \<Rightarrow> bool" where
  "announced N c key \<longleftrightarrow> key \<in> set (map msg_key (from_stream c (n_heard N)))"

fun pending :: "AlineMessage option list \<Rightarrow> AlineMessage list" where
  "pending [] = []"
| "pending (None # xs) = pending xs"
| "pending (Some m # xs) = m # pending xs"

definition down_inv :: "net \<Rightarrow> (nat option \<times> AlineMessage) list \<Rightarrow> bool" where
  "down_inv N log \<longleftrightarrow>
     n_put N = map snd log @ gs_SendMsgChan (n_server N) \<and>
     (\<forall>c. to_stream c log = n_wtaken N c @ gc_RecvMsgChan (n_client N c) @ n_down N c)"

definition conn_inv :: "net \<Rightarrow> (nat option \<times> AlineMessage) list \<Rightarrow> bool" where
  "conn_inv N log \<longleftrightarrow>
     (\<forall>key c. getConn key (n_server N) = Some c \<longrightarrow> announced N c key) \<and>
     (\<forall>c m. (Some c, m) \<in> set log \<longrightarrow> announced N c (msg_key m))"

definition up_inv :: "net \<Rightarrow> bool" where
  "up_inv N \<longleftrightarrow>
     map snd (n_heard N) = n_taken N @ gs_RecvMsgChan (n_server N) \<and>
     (\<forall>c. n_wput N c = from_stream c (n_heard N) @ n_up N c @ pending (gc_SendMsgChan (n_client N c)))"

definition caps_inv :: "net \<Rightarrow> bool" where
  "caps_inv N \<longleftrightarrow> length (gs_SendMsgChan (n_server N)) \<le> chan_cap \<and>
     length (gs_RecvMsgChan (n_server N)) \<le> chan_cap \<and> length (gs_ErrorChan (n_server N)) \<le> error_cap"

lemmas net_invs = down_inv_def conn_inv_def up_inv_def caps_inv_def

lemma to_stream_simps [simp]:
  "to_stream c [] = []" "to_stream c (log @ [(d, m)]) = to_stream c log @ (if d = Some c then [m] else [])"
  by (simp_all add: to_stream_def)

lemma from_stream_simps [simp]:
  "from_stream c [] = []" "from_stream c (h @ [(d, m)]) = from_stream c h @ (if d = c then [m] else [])"
  by (simp_all add: from_stream_def)

lemma pending_append [simp]: "pending (xs @ ys) = pending xs @ pending ys"
  by (induction xs rule: pending.induct) simp_all

lemma announced_mono:
  "announced N c key \<Longrightarrow> n_heard N' = n_heard N @ xs \<Longrightarrow> announced N' c key"
  by (auto simp: announced_def from_stream_def)

text \<open>A round of the send loop takes the first message and hands it to the stream of its node, if it does.\<close>

lemma server_send_cases:
  assumes "server_send send s = Inr (d, s')" and "gs_SendMsgChan s = m # ms"
  shows "gs_SendMsgChan s' = ms \<and> gs_conns s' = gs_conns s \<and> gs_RecvMsgChan s' = gs_RecvMsgChan s \<and>
    (d = None \<or> (\<exists>c. d = Some (c, m) \<and> getConn (msg_key m) s = Some c \<and> send c m = None))"
  using assms by (auto simp: server_send_def msg_key_def getConn_def Let_def then_do_Inr_iff split: option.splits if_splits)

lemma deleteStream_frame [simp]:
  "gs_SendMsgChan (deleteStream st keys s) = gs_SendMsgChan s"
  "gs_RecvMsgChan (deleteStream st keys s) = gs_RecvMsgChan s"
  "gs_ErrorChan (deleteStream st keys s) = gs_ErrorChan s"
  by (induction keys arbitrary: s) (auto split: option.splits)

lemma chat_end_frame [simp]:
  "gs_SendMsgChan (chat_end ord st s) = gs_SendMsgChan s"
  "gs_RecvMsgChan (chat_end ord st s) = gs_RecvMsgChan s"
  "gs_ErrorChan (chat_end ord st s) = gs_ErrorChan s"
  by (simp_all add: chat_end_def)

lemma chat_end_conns: "getConn key (chat_end ord st s) = Some c \<Longrightarrow> getConn key s = Some c"
  unfolding chat_end_def by (rule deleteStream_conns)

lemma chat_receive_frame [simp]:
  "gs_SendMsgChan (chat_receive st m s) = gs_SendMsgChan s"
  "gs_ErrorChan (chat_receive st m s) = gs_ErrorChan s"
  "gs_RecvMsgChan (chat_receive st m s) = gs_RecvMsgChan s @ [m]"
  "getConn key (chat_receive st m s) = (if key = msg_key m then Some st else getConn key s)"
  by (simp_all add: chat_receive_def getConn_def msg_key_def)

lemma client_send_some:
  assumes "client_send send cl = Inr (Some m, cl')"
  shows "gc_SendMsgChan cl = Some m # gc_SendMsgChan cl' \<and> gc_RecvMsgChan cl' = gc_RecvMsgChan cl"
  using assms by (auto simp: client_send_def split: list.splits option.splits)

section \<open>Every round keeps it\<close>

text \<open>The log after a round: only the send loop adds to it.\<close>

definition log_entry :: "net_event \<Rightarrow> net \<Rightarrow> (nat option \<times> AlineMessage) list" where
  "log_entry e N =
     (case e of
        MasterSends err \<Rightarrow>
          (case (gs_SendMsgChan (n_server N), server_send (send_on (n_closed N) err) (n_server N)) of
             (m # ms, Inr (d, s)) \<Rightarrow> [(map_option fst d, m)]
           | _ \<Rightarrow> [])
      | _ \<Rightarrow> [])"

lemma net_do_sends:
  assumes "net_do (MasterSends e) N = Some N'"
  obtains m ms d s where "gs_SendMsgChan (n_server N) = m # ms" "gs_SendMsgChan s = ms"
    "gs_conns s = gs_conns (n_server N)" "gs_RecvMsgChan s = gs_RecvMsgChan (n_server N)"
    "length (gs_ErrorChan s) \<le> error_cap"
    "d = None \<or> (\<exists>c. d = Some (c, m) \<and> getConn (msg_key m) (n_server N) = Some c)"
    "N' = N\<lparr>n_server := s, n_down := put_down d (n_down N)\<rparr>"
    "log_entry (MasterSends e) N = [(map_option fst d, m)]"
proof -
  obtain m ms where q: "gs_SendMsgChan (n_server N) = m # ms"
    using assms by (cases "gs_SendMsgChan (n_server N)") auto
  obtain d s where r: "server_send (send_on (n_closed N) e) (n_server N) = Inr (d, s)"
    and s: "length (gs_ErrorChan s) \<le> error_cap" "N' = N\<lparr>n_server := s, n_down := put_down d (n_down N)\<rparr>"
    using assms q by (auto split: sum.splits if_splits)
  show ?thesis
    by (rule that [of m ms s d]) (use server_send_cases [OF r q] q r s in \<open>auto simp: log_entry_def\<close>)
qed

lemma down_inv_step:
  assumes "net_do e N = Some N'" and "down_inv N log"
  shows "down_inv N' (log @ log_entry e N)"
proof (cases e)
  case (MasterSends err)
  from assms(1)[unfolded this] show ?thesis
    by (rule net_do_sends) (use assms(2) MasterSends in \<open>auto simp: down_inv_def put_down_def\<close>)
next
  case (WorkerSends c)
  then obtain m cl where "client_send (\<lambda>m. if c \<in> set (n_closed N) then Some ''transport is closing'' else None)
      (n_client N c) = Inr (Some m, cl)"
    and "N' = N\<lparr>n_client := (n_client N)(c := cl), n_up := (n_up N)(c := n_up N c @ [m])\<rparr>"
    using assms(1) by (auto split: sum.splits option.splits)
  then show ?thesis using assms(2) WorkerSends client_send_some
    by (auto simp: down_inv_def log_entry_def)
qed (use assms in \<open>auto simp: down_inv_def log_entry_def Let_def client_receive_def split: list.splits if_splits\<close>)

lemma conn_inv_frame:
  assumes "conn_inv N log" and "n_heard N' = n_heard N"
    and "\<And>key c. getConn key (n_server N') = Some c \<Longrightarrow> getConn key (n_server N) = Some c"
  shows "conn_inv N' log"
proof -
  have "announced N' c key = announced N c key" for c key by (simp add: announced_def assms(2))
  with assms(1,3) show ?thesis unfolding conn_inv_def by simp
qed

lemma conn_inv_step:
  assumes "net_do e N = Some N'" and "conn_inv N log"
  shows "conn_inv N' (log @ log_entry e N)"
proof (cases e)
  case (MasterSends err)
  from assms(1)[unfolded this] show ?thesis
    by (rule net_do_sends) (use assms(2) MasterSends in \<open>auto simp: conn_inv_def getConn_def announced_def\<close>)
next
  case (MasterReceives c)
  then show ?thesis using assms
    by (auto simp: conn_inv_def log_entry_def announced_def image_Un split: list.splits if_splits)
next
  case (StreamEnds ord c)
  show ?thesis
    by (simp add: StreamEnds log_entry_def, rule conn_inv_frame [OF assms(2)])
      (use assms(1) StreamEnds in \<open>auto dest: chat_end_conns\<close>)
next
  case (WorkerSends c)
  have "n_heard N' = n_heard N" "n_server N' = n_server N"
    using assms(1) WorkerSends by (auto split: sum.splits option.splits)
  then have "conn_inv N' log" by (intro conn_inv_frame [OF assms(2)]) simp_all
  then show ?thesis by (simp add: WorkerSends log_entry_def)
qed (use assms in \<open>auto simp: log_entry_def Let_def getConn_def split: list.splits if_splits
    elim!: conn_inv_frame\<close>)

lemma up_inv_step:
  assumes "net_do e N = Some N'" and "up_inv N"
  shows "up_inv N'"
proof (cases e)
  case (MasterSends err)
  from assms(1)[unfolded this] show ?thesis
    by (rule net_do_sends) (use assms(2) in \<open>auto simp: up_inv_def\<close>)
next
  case (WorkerSends c)
  then obtain m cl where "client_send (\<lambda>m. if c \<in> set (n_closed N) then Some ''transport is closing'' else None)
      (n_client N c) = Inr (Some m, cl)"
    and "N' = N\<lparr>n_client := (n_client N)(c := cl), n_up := (n_up N)(c := n_up N c @ [m])\<rparr>"
    using assms(1) by (auto split: sum.splits option.splits)
  then show ?thesis using assms(2) client_send_some by (fastforce simp: up_inv_def)
qed (use assms in \<open>auto simp: up_inv_def Let_def client_receive_def split: list.splits if_splits option.splits\<close>)

lemma caps_inv_step:
  assumes "net_do e N = Some N'" and "caps_inv N"
  shows "caps_inv N'"
proof (cases e)
  case (MasterSends err)
  from assms(1)[unfolded this] show ?thesis
    by (rule net_do_sends) (use assms(2) in \<open>auto simp: caps_inv_def\<close>)
qed (use assms in \<open>auto simp: caps_inv_def Let_def split: list.splits if_splits option.splits sum.splits\<close>)

lemma net_run_inv:
  assumes "net_run es N = Some N'" and "down_inv N log" and "conn_inv N log" and "up_inv N" and "caps_inv N"
  shows "\<exists>log'. down_inv N' log' \<and> conn_inv N' log' \<and> up_inv N' \<and> caps_inv N'"
  using assms
proof (induction es N arbitrary: log rule: net_run.induct)
  case (2 e es N)
  then obtain N1 where s: "net_do e N = Some N1" and r: "net_run es N1 = Some N'"
    by (auto split: option.splits)
  show ?case
    by (rule "2.IH" [OF s r down_inv_step [OF s "2.prems"(2)] conn_inv_step [OF s "2.prems"(3)]
        up_inv_step [OF s "2.prems"(4)] caps_inv_step [OF s "2.prems"(5)]])
qed auto

lemma net_start_inv: "down_inv net_start []" "conn_inv net_start []" "up_inv net_start" "caps_inv net_start"
  by (simp_all add: net_invs net_start_def NewGrpcServer_def NewGrpcClient_def getConn_def)

text \<open>
  C20. In every run of the network the messages the master has put on its channel are the ones its send
  loop has taken followed by the ones still on it, and each taken one went to one stream at most: what
  the engine of a worker takes is, in order and without repetition, what was handed to its stream, and
  all of it is for a node that this very stream has announced in a message before.  In the other
  direction the engine of the master takes the messages in the order they arrived, and from each
  stream they are the first messages its worker has put, none lost in between, none invented.
\<close>

theorem transport_safe:
  assumes "net_run es net_start = Some N"
  shows "\<exists>log. n_put N = map snd log @ gs_SendMsgChan (n_server N) \<and>
    (\<forall>c. prefix (n_wtaken N c) (to_stream c log)) \<and>
    (\<forall>c m. (Some c, m) \<in> set log \<longrightarrow> (\<exists>m'. (c, m') \<in> set (n_heard N) \<and> msg_key m' = msg_key m)) \<and>
    prefix (n_taken N) (map snd (n_heard N)) \<and>
    (\<forall>c. prefix (from_stream c (n_heard N)) (n_wput N c))"
proof -
  obtain log where log: "down_inv N log" "conn_inv N log" "up_inv N"
    using net_run_inv [OF assms net_start_inv] by blast
  have "\<exists>m'. (c, m') \<in> set (n_heard N) \<and> msg_key m' = msg_key m" if "(Some c, m) \<in> set log" for c m
    using log(2) that by (force simp: conn_inv_def announced_def from_stream_def)
  then show ?thesis using log(1,3) by (intro exI [of _ log]) (auto simp: down_inv_def up_inv_def)
qed

section \<open>The end of a stream, and a drained queue\<close>

definition only_key :: "nat \<Rightarrow> string \<Rightarrow> AlineGrpcServer \<Rightarrow> bool" where
  "only_key st k s \<longleftrightarrow> (\<forall>key. getConn key s = Some st \<longrightarrow> key = k)"

lemma only_keyD: "only_key st k s \<Longrightarrow> getConn key s = Some st \<Longrightarrow> key = k"
  by (simp add: only_key_def)

lemma deleteStream_gone:
  assumes "only_key st k s" and "getConn k s = Some st \<longrightarrow> k \<in> set keys"
  shows "getConn key (deleteStream st keys s) \<noteq> Some st"
  using assms(2)
proof (induction keys)
  case Nil
  then show ?case using only_keyD [OF assms(1), of key] by auto
next
  case (Cons a as)
  show ?case
  proof (cases "getConn a s = Some st")
    case True
    with only_keyD [OF assms(1)] have "a = k" by blast
    with True only_keyD [OF assms(1), of key] show ?thesis by (auto simp: getConn_def)
  next
    case False
    with Cons have "getConn key (deleteStream st as s) \<noteq> Some st" by auto
    with False show ?thesis by (simp add: getConn_def split: option.splits)
  qed
qed

lemma AlineChat_received: "AlineChat ord st (map Received ms @ evs) s = AlineChat ord st evs (fold (chat_receive st) ms s)"
  by (induction ms arbitrary: s) simp_all

lemma only_key_receive:
  "only_key st k s \<Longrightarrow> \<forall>m \<in> set ms. msg_key m = k \<Longrightarrow> only_key st k (fold (chat_receive st) ms s)"
proof (induction ms arbitrary: s)
  case (Cons m ms)
  then have "only_key st k (chat_receive st m s)" by (simp add: only_key_def)
  with Cons show ?case by simp
qed simp

text \<open>A stream that announces one node leaves no connection behind, whether it is closed or breaks.\<close>

lemma AlineChat_gone:
  assumes "\<forall>key. getConn key s \<noteq> Some st" and "\<forall>m \<in> set ms. msg_key m = k"
    and "\<And>ks. set (ord ks) = set ks" and "ev = StreamEOF \<or> ev = StreamError err"
  shows "getConn key (AlineChat ord st (map Received ms @ [ev]) s) \<noteq> Some st"
proof -
  let ?s = "fold (chat_receive st) ms s"
  have k: "only_key st k ?s"
    by (rule only_key_receive) (use assms(1,2) in \<open>simp_all add: only_key_def\<close>)
  have i: "getConn k ?s = Some st \<longrightarrow> k \<in> set (ord (m_keys (gs_conns ?s)))"
    by (simp add: assms(3) getConn_def gm.keys_load)
  have "getConn key (chat_end ord st ?s) \<noteq> Some st"
    unfolding chat_end_def by (rule deleteStream_gone [OF k i])
  then show ?thesis using assms(4) by (auto simp: AlineChat_received)
qed

fun send_all :: "nat \<Rightarrow> AlineGrpcServer \<Rightarrow> ((nat \<times> AlineMessage) list \<times> AlineGrpcServer) go" where
  "send_all 0 s = Inr ([], s)"
| "send_all (Suc n) s =
     then_do (server_send (\<lambda>c m. None) s) (\<lambda>(d, s').
     then_do (send_all n s') (\<lambda>(ds, s''). Inr ((case d of None \<Rightarrow> ds | Some x \<Rightarrow> x # ds), s'')))"

text \<open>
  With streams that do not fail the send loop empties the queue: every message whose node is connected
  goes to the stream of that node, in order; the others are dropped.
\<close>

lemma send_all_queue:
  assumes "gs_SendMsgChan s = q" and "\<And>m. m \<in> set q \<Longrightarrow> msg_ExecReq m \<noteq> None"
  shows "\<exists>s'. send_all (length q) s =
      Inr (map (\<lambda>m. (the (getConn (msg_key m) s), m)) (filter (\<lambda>m. getConn (msg_key m) s \<noteq> None) q), s') \<and>
    gs_SendMsgChan s' = [] \<and> gs_conns s' = gs_conns s"
  using assms
proof (induction q arbitrary: s)
  case (Cons m q)
  then obtain rq where rq: "msg_ExecReq m = Some rq" by force
  obtain d s1 where r: "server_send (\<lambda>c m. None) s = Inr (d, s1)"
    using Cons.prems(1) rq
    by (cases "getConn (GetNodeKey (msg_Name m) (msg_Address m)) s")
      (auto simp: server_send_unknown_node server_send_ok)
  from server_send_cases [OF r Cons.prems(1)] have s1: "gs_SendMsgChan s1 = q" "gs_conns s1 = gs_conns s" by auto
  have d: "d = map_option (\<lambda>c. (c, m)) (getConn (msg_key m) s)"
    using r Cons.prems(1) rq by (cases "getConn (msg_key m) s")
      (auto simp: server_send_unknown_node server_send_ok msg_key_def)
  have c: "getConn k s1 = getConn k s" for k using s1 by (simp add: getConn_def)
  from Cons.IH [OF s1(1)] Cons.prems(2) show ?case
    by (auto simp: r d c s1 split: option.splits)
qed simp

section \<open>A run\<close>

definition worker_hello :: AlineMessage where
  "worker_hello = plain_msg MT_REGISTER ''w'' ''10.0.0.1''"

definition master_job :: AlineMessage where
  "master_job = plain_msg MT_EXECUTE ''w'' ''10.0.0.1''"

definition demo_events :: "net_event list" where
  "demo_events = [WorkerPuts 1 (Some worker_hello), WorkerSends 1, MasterPuts master_job, MasterReceives 1,
     MasterTakes, MasterSends None, WorkerReceives 1, WorkerTakes 1, StreamEnds id 1]"

theorem transport_safe_witness:
  "\<exists>N log. net_run demo_events net_start = Some N \<and> n_wtaken N 1 = [master_job] \<and>
     prefix [master_job] (to_stream 1 log)"
proof -
  have "map_option (\<lambda>N. n_wtaken N 1) (net_run demo_events net_start) = Some [master_job]" by code_simp
  then obtain N where N: "net_run demo_events net_start = Some N" and t: "n_wtaken N 1 = [master_job]" by auto
  from transport_safe [OF N] obtain log where "prefix (n_wtaken N 1) (to_stream 1 log)" by blast
  with N t show ?thesis by auto
qed

end
